(* ===== verification/Prelude.thy ===== *)
theory Prelude
  imports Main "HOL-Library.Word" "HOL-Library.Multiset"
begin

text \<open>
  Shared base of the library. It holds the faults a C++ operation of ltapp can end in, the
  machine-integer and string types the components use, the model of a loop that need not end
  with its partial- and total-correctness rules (locales \<open>staged_loop\<close> and
  \<open>ending_loop\<close>, with \<open>guarded_loop\<close> and \<open>measured_loop\<close> for one invariant), and reachability with the invariant locale \<open>invariant_system\<close> that the
  step relations of the components instantiate.
\<close>

section \<open>Machine types and faults\<close>

type_synonym u8 = "8 word"
type_synonym u16 = "16 word"
type_synonym u32 = "32 word"
type_synonym u64 = "64 word"

text \<open>
  How an operation can fail without returning: a glog \<open>CHECK\<close> or \<open>abort\<close>, \<open>LOG(FATAL)\<close>, the program's own
  \<open>exit\<close>, and the undefined behaviours the C++ text can run into (a null pointer dereferenced, an object
  used after it was freed, an index outside an array, a remainder by zero).
\<close>

datatype fault =
    CheckFailed
  | LogFatal
  | ProcessExit
  | NullDeref
  | UseAfterFree
  | OutOfBounds
  | DivByZero

text \<open>
  \<open>None\<close>: the operation does not return. \<open>Some (Inl f)\<close>: it ends in the fault \<open>f\<close>.
  \<open>Some (Inr s)\<close>: it returns in state \<open>s\<close>.
\<close>

type_synonym 's outcome = "(fault + 's) option"

abbreviation returns :: "'s \<Rightarrow> 's outcome" where
  "returns s \<equiv> Some (Inr s)"

abbreviation faults :: "fault \<Rightarrow> 's outcome" where
  "faults f \<equiv> Some (Inl f)"

definition CHECK :: "bool \<Rightarrow> 's outcome \<Rightarrow> 's outcome" where
  "CHECK b k = (if b then k else faults CheckFailed)"

definition then_do :: "'a outcome \<Rightarrow> ('a \<Rightarrow> 'b outcome) \<Rightarrow> 'b outcome" where
  "then_do r k = (case r of None \<Rightarrow> None | Some (Inl f) \<Rightarrow> faults f | Some (Inr a) \<Rightarrow> k a)"

named_theorems outcome_simps \<open>equations that run the outcome combinators\<close>

lemma CHECK_simps [simp, outcome_simps]:
  "CHECK True k = k"
  "CHECK False k = faults CheckFailed"
  by (simp_all add: CHECK_def)

lemma then_do_simps [simp, outcome_simps]:
  "then_do None k = None"
  "then_do (Some (Inl f)) k = faults f"
  "then_do (Some (Inr a)) k = k a"
  by (simp_all add: then_do_def)

lemma CHECK_returns_iff:
  "CHECK b k = returns s \<longleftrightarrow> b \<and> k = returns s"
  by (simp add: CHECK_def)

lemma then_do_returns_iff:
  "then_do r k = returns b \<longleftrightarrow> (\<exists>a. r = returns a \<and> k a = returns b)"
  by (auto simp: then_do_def split: option.splits sum.splits)

lemma then_do_faults_iff:
  "then_do r k = faults f \<longleftrightarrow> r = faults f \<or> (\<exists>a. r = returns a \<and> k a = faults f)"
  by (auto simp: then_do_def split: option.splits sum.splits)

text \<open>What a C string made with \<open>c_str()\<close> is to its reader: it ends at the first zero byte.\<close>

definition c_str :: "string \<Rightarrow> string" where
  "c_str s = takeWhile (\<lambda>c. c \<noteq> CHR 0x00) s"

section \<open>Loops that need not end\<close>

text \<open>
  The loop of a \<open>while (go) { ... go = ...; }\<close> whose body starts with \<open>go\<close> set: the body
  returns the next state and whether to go on; the loop is undefined where the body is, or
  where it never stops.
\<close>

partial_function (option) loop_while ::
  "('s \<Rightarrow> ('s \<times> bool) outcome) \<Rightarrow> 's \<Rightarrow> 's outcome" where
  "loop_while body s =
     Option.bind (body s)
       (\<lambda>r. case r of
          Inl f \<Rightarrow> Some (Inl f)
        | Inr (s', go) \<Rightarrow> if go then loop_while body s' else Some (Inr s'))"

declare loop_while.simps [code]

lemma loop_while_fault [simp]:
  "body s = faults f \<Longrightarrow> loop_while body s = faults f"
  by (simp add: loop_while.simps)

lemma loop_while_stop [simp]:
  "body s = returns (s', False) \<Longrightarrow> loop_while body s = returns s'"
  by (simp add: loop_while.simps)

lemma loop_while_go [simp]:
  "body s = returns (s', True) \<Longrightarrow> loop_while body s = loop_while body s'"
  by (subst loop_while.simps) simp

text \<open>
  Partial correctness of a loop: \<open>inv\<close> holds before every round, a round that goes on keeps it, \<open>post\<close>
  is what a last round leaves, and a round ends in no fault but those of \<open>may\<close>.
\<close>

locale staged_loop =
  fixes body :: "'s \<Rightarrow> ('s \<times> bool) outcome"
    and inv :: "'s \<Rightarrow> bool"
    and post :: "'s \<Rightarrow> bool"
    and may :: "fault \<Rightarrow> bool"
  assumes round_goes_on: "inv s \<Longrightarrow> body s = returns (s', True) \<Longrightarrow> inv s'"
    and round_stops: "inv s \<Longrightarrow> body s = returns (s', False) \<Longrightarrow> post s'"
    and round_faults: "inv s \<Longrightarrow> body s = faults f \<Longrightarrow> may f"
begin

definition ends_well :: "fault + 's \<Rightarrow> bool" where
  "ends_well r \<longleftrightarrow> (case r of Inl f \<Rightarrow> may f
     | Inr t \<Rightarrow> post t \<and> (\<exists>u. inv u \<and> body u = returns (t, False)))"

lemma staged_result:
  assumes "loop_while body s = Some r" and "inv s"
  shows "ends_well r"
proof -
  have "body = body \<longrightarrow> inv s \<longrightarrow> ends_well r"
  proof (rule loop_while.raw_induct
      [where P = "\<lambda>b s r. b = body \<longrightarrow> inv s \<longrightarrow> ends_well r", OF _ assms(1)], intro impI)
    fix loop b s r
    assume IH: "\<And>b s r. loop b s = Some r \<Longrightarrow> b = body \<longrightarrow> inv s \<longrightarrow> ends_well r"
      and round: "Option.bind (b s)
        (\<lambda>r. case r of Inl f \<Rightarrow> Some (Inl f)
           | Inr (s', go) \<Rightarrow> if go then loop b s' else Some (Inr s')) = Some r"
      and b: "b = body" and inv: "inv s"
    from round b obtain x where x: "body s = Some x" by (cases "body s") auto
    show "ends_well r"
    proof (cases x)
      case (Inl f)
      with round b x round_faults [OF inv] show ?thesis by (auto simp: ends_well_def)
    next
      case (Inr y)
      obtain s' go where y: "y = (s', go)" by fastforce
      show ?thesis
      proof (cases go)
        case True
        with round b x Inr y have "loop body s' = Some r" by simp
        with IH round_goes_on [OF inv] x Inr y True show ?thesis by simp
      next
        case False
        with round b x Inr y have "r = Inr s'" by simp
        with inv round_stops [OF inv] x Inr y False show ?thesis by (auto simp: ends_well_def)
      qed
    qed
  qed
  with assms(2) show ?thesis by blast
qed

end

text \<open>Total correctness: every round returns, and a round that goes on decreases a well-founded relation.\<close>

locale ending_loop = staged_loop body inv post may
  for body :: "'s \<Rightarrow> ('s \<times> bool) outcome" and inv post may +
  fixes dec :: "('s \<times> 's) set"
  assumes dec_wf: "wf dec"
    and round_returns: "inv s \<Longrightarrow> body s \<noteq> None"
    and round_decreases: "inv s \<Longrightarrow> body s = returns (s', True) \<Longrightarrow> (s', s) \<in> dec"
begin

lemma staged_ends: "inv s \<Longrightarrow> \<exists>r. loop_while body s = Some r \<and> ends_well r"
proof -
  have "inv s \<Longrightarrow> \<exists>r. loop_while body s = Some r"
  proof (induction s rule: wf_induct_rule [OF dec_wf])
    case (1 s)
    from round_returns [OF 1(2)] obtain r where r: "body s = Some r" by blast
    show ?case
    proof (cases "\<exists>s'. r = Inr (s', True)")
      case True
      then obtain s' where go: "body s = returns (s', True)" using r by blast
      with 1(1) [OF round_decreases [OF 1(2) go] round_goes_on [OF 1(2) go]] show ?thesis by simp
    next
      case False
      with r show ?thesis by (cases r) (auto simp: loop_while.simps split: bool.split)
    qed
  qed
  then show "inv s \<Longrightarrow> \<exists>r. loop_while body s = Some r \<and> ends_well r" using staged_result by blast
qed

end

text \<open>The common case: one invariant holds before and after every round, and no round faults.\<close>

locale guarded_loop =
  fixes body :: "'s \<Rightarrow> ('s \<times> bool) outcome"
    and inv :: "'s \<Rightarrow> bool"
  assumes round_keeps: "inv s \<Longrightarrow> body s = returns (s', go) \<Longrightarrow> inv s'"
    and round_safe: "inv s \<Longrightarrow> body s \<noteq> faults f"

sublocale guarded_loop \<subseteq> staged_loop body inv inv "\<lambda>f. False"
  by unfold_locales (auto intro: round_keeps dest: round_safe)

context guarded_loop
begin

lemma loop_result:
  assumes "loop_while body s = Some r" and "inv s"
  shows "\<exists>t u. r = Inr t \<and> inv t \<and> inv u \<and> body u = returns (t, False)"
  using staged_result [OF assms] by (auto simp: ends_well_def split: sum.splits)

end

locale measured_loop = guarded_loop body inv
  for body :: "'s \<Rightarrow> ('s \<times> bool) outcome" and inv +
  fixes dec :: "('s \<times> 's) set"
  assumes measure_wf: "wf dec"
    and each_round_returns: "inv s \<Longrightarrow> body s \<noteq> None"
    and each_round_decreases: "inv s \<Longrightarrow> body s = returns (s', True) \<Longrightarrow> (s', s) \<in> dec"

sublocale measured_loop \<subseteq> ending_loop body inv inv "\<lambda>f. False" dec
  by unfold_locales (auto intro: measure_wf each_round_decreases dest: each_round_returns)

context measured_loop
begin

lemma loop_returns: "inv s \<Longrightarrow> \<exists>t. loop_while body s = returns t \<and> inv t"
  using staged_ends by (fastforce simp: ends_well_def split: sum.splits)

end

section \<open>Reachable states and invariants\<close>

text \<open>States a system can be in: from an initial state by any number of steps.\<close>

inductive reachable :: "('s \<Rightarrow> bool) \<Rightarrow> ('s \<Rightarrow> 's \<Rightarrow> bool) \<Rightarrow> 's \<Rightarrow> bool"
  for init :: "'s \<Rightarrow> bool" and step :: "'s \<Rightarrow> 's \<Rightarrow> bool" where
  start: "init s \<Longrightarrow> reachable init step s"
| step: "reachable init step s \<Longrightarrow> step s t \<Longrightarrow> reachable init step t"

locale invariant_system =
  fixes init :: "'s \<Rightarrow> bool"
    and step :: "'s \<Rightarrow> 's \<Rightarrow> bool"
    and inv :: "'s \<Rightarrow> bool"
  assumes init_inv: "init s \<Longrightarrow> inv s"
    and step_inv: "inv s \<Longrightarrow> step s t \<Longrightarrow> inv t"
begin

lemma reachable_inv: "reachable init step s \<Longrightarrow> inv s"
  by (induction rule: reachable.induct) (auto intro: init_inv step_inv)

lemma steps_inv: "step\<^sup>*\<^sup>* s t \<Longrightarrow> inv s \<Longrightarrow> inv t"
  by (induction rule: rtranclp_induct) (auto intro: step_inv)

end

end
