(* ===== verification/Query_Session.thy ===== *)
theory Query_Session
  imports Prelude
begin

text \<open>
  \<open>QuerySession\<close> of \<open>src/integration/async_mysql/query_session.h\<close> and \<open>query_session.cc\<close>: one
  query with its result and the callback to run when it is done. Sessions are shared
  (\<open>RefQuerySession\<close> is a \<open>shared_ptr\<close>), so the components that use them hold an address into a
  heap of sessions. The locale \<open>oneshot\<close> is the contract the connection relies on: completing
  a session hands out its callback and leaves none.
\<close>

type_synonym callback = nat
type_synonym ResultRow = "string list"
type_synonym session_id = nat

record QuerySession =
  code_' :: int
  err_message_' :: string
  query_' :: string
  db_name_' :: string
  result_count_' :: u32
  affected_rows_' :: u32
  colum_names_' :: "string list"
  results_' :: "ResultRow list"
  finish_callback_' :: "callback option"

definition New :: QuerySession where
  "New = \<lparr>code_' = 0, err_message_' = '''', query_' = '''', db_name_' = '''',
     result_count_' = 0, affected_rows_' = 0, colum_names_' = [], results_' = [],
     finish_callback_' = None\<rparr>"

definition UseDB :: "string \<Rightarrow> QuerySession \<Rightarrow> QuerySession" where
  "UseDB db q = q\<lparr>db_name_' := db\<rparr>"

definition Query :: "string \<Rightarrow> QuerySession \<Rightarrow> QuerySession" where
  "Query sql q = q\<lparr>query_' := sql\<rparr>"

definition Then :: "callback option \<Rightarrow> QuerySession \<Rightarrow> QuerySession" where
  "Then cb q = q\<lparr>finish_callback_' := cb\<rparr>"

definition SetCode :: "int \<Rightarrow> string \<Rightarrow> QuerySession \<Rightarrow> QuerySession" where
  "SetCode code message q = q\<lparr>code_' := code, err_message_' := message\<rparr>"

definition SetResultRows :: "u32 \<Rightarrow> QuerySession \<Rightarrow> QuerySession" where
  "SetResultRows rows q = q\<lparr>result_count_' := rows\<rparr>"

definition SetAffectedRows :: "u32 \<Rightarrow> QuerySession \<Rightarrow> QuerySession" where
  "SetAffectedRows line q = q\<lparr>affected_rows_' := line\<rparr>"

definition PendingRow :: "ResultRow \<Rightarrow> QuerySession \<Rightarrow> QuerySession" where
  "PendingRow row q = q\<lparr>results_' := results_' q @ [row]\<rparr>"

definition PushHeader :: "string \<Rightarrow> QuerySession \<Rightarrow> QuerySession" where
  "PushHeader name q = q\<lparr>colum_names_' := colum_names_' q @ [name]\<rparr>"

text \<open>The callback that runs, if any, and the session after it, whose callback is reset.\<close>

definition OnQueryDone :: "QuerySession \<Rightarrow> QuerySession \<times> callback option" where
  "OnQueryDone q = (q\<lparr>finish_callback_' := None\<rparr>, finish_callback_' q)"

named_theorems session_defs \<open>the operations on a query session\<close>

lemmas [session_defs] =
  New_def UseDB_def Query_def Then_def SetCode_def SetResultRows_def SetAffectedRows_def
  PendingRow_def PushHeader_def OnQueryDone_def

section \<open>One-shot completion\<close>

text \<open>
  \<open>armed\<close> is the callback a state holds; \<open>fire\<close> completes the state and gives the callback that
  ran. Completing twice in a row runs at most one callback.
\<close>

locale oneshot =
  fixes armed :: "'s \<Rightarrow> 'cb option"
    and fire :: "'s \<Rightarrow> 's \<times> 'cb option"
  assumes fire_runs: "snd (fire s) = armed s"
    and fire_disarms: "armed (fst (fire s)) = None"
begin

fun fired :: "nat \<Rightarrow> 's \<Rightarrow> 'cb list" where
  "fired 0 s = []"
| "fired (Suc n) s = (case snd (fire s) of None \<Rightarrow> [] | Some c \<Rightarrow> [c]) @ fired n (fst (fire s))"

lemma fired_disarmed: "armed s = None \<Longrightarrow> fired n s = []"
  by (induction n arbitrary: s) (simp_all add: fire_runs fire_disarms)

lemma fired_once:
  "fired (Suc n) s = (case armed s of None \<Rightarrow> [] | Some c \<Rightarrow> [c])"
  by (simp add: fired_disarmed fire_disarms fire_runs)

end

interpretation session: oneshot finish_callback_' OnQueryDone
  by unfold_locales (simp_all add: OnQueryDone_def)

end
