(* ===== verification/Mysql_Connection.thy ===== *)
theory Mysql_Connection
  imports Query_Session
begin

text \<open>
  \<open>MysqlAsyncConnect\<close> of \<open>src/integration/async_mysql/mysql_async_con.h\<close> and
  \<open>mysql_async_con.cc\<close>: the connection's fields, its state machine \<open>HandleState\<close> with the
  handlers it dispatches to, and its public operations.

  The MariaDB non-blocking client is a parameter, the record \<open>mysql_api\<close>: one function per
  library call the code makes, over an abstract handle \<open>'m\<close> (\<open>MYSQL\<close>) and an abstract result
  set \<open>'r\<close> (\<open>MYSQL_RES\<close>); an out-parameter is passed in with the value it had and comes back
  with the value it has. The event pump and the timers of the message loop are commands: the
  calls the code makes on them are recorded in \<open>trace\<close> in the order it makes them, and the one
  question the code asks back, \<open>TimeoutEvent::IsAttached\<close>, is a parameter over that record.
\<close>

unbundle bit_operations_syntax

section \<open>Data\<close>

record MysqlOptions =
  host :: string
  port :: u32
  user :: string
  passwd :: string
  dbname :: string
  query_timeout :: u32

datatype State =
    STATE_NONE
  | CONNECT_INIT | CONNECT_START | CONNECT_WAIT | CONNECT_DONE
  | CONNECTION_IDLE
  | SELECT_DB_START | SELECT_DB_WAIT | SELECT_DB_DONE
  | QUERY_START | QUERY_WAIT | QUERY_RESULT_READY
  | FETCH_ROW_START | FETCH_ROW_WAIT | FETCH_ROW_RESULT_READY
  | CLOSE_START | CLOSE_WAIT | CLOSE_DONE

text \<open>A \<open>MYSQL_ROW\<close>: null, or an array of nullable C strings.\<close>

type_synonym MYSQL_ROW = "string option list option"

text \<open>A \<open>MYSQL_RES*\<close>: null, pointing to a result set, or left over after \<open>mysql_free_result\<close>.\<close>

datatype 'r res_ptr = ResNull | ResLive 'r | ResFreed

datatype mysql_opt =
    MYSQL_OPT_NONBLOCK
  | MYSQL_READ_DEFAULT_GROUP string
  | MYSQL_OPT_READ_TIMEOUT u32
  | MYSQL_OPT_WRITE_TIMEOUT u32
  | MYSQL_OPT_CONNECT_TIMEOUT u32

text \<open>
  What a connection does to the world outside it: a finished session with the callback that
  ran, the calls on its \<open>MysqlClient\<close>, and the calls on the event pump, the timers and the
  message loop.
\<close>

datatype con_event =
    QueryDone session_id "callback option"
  | ConnectReady
  | ConnectionClosed
  | InstallFdEvent int
  | RemoveFdEvent
  | EnableReading | DisableReading
  | EnableWriting | DisableWriting
  | DisableAll
  | NewTimeoutEvent u32
  | UpdateInterval u32
  | AddTimeoutEvent
  | RemoveTimeoutEvent
  | PostHandleState
  | PostCleanUp bool bool
  | StartChecker nat
  | StopChecker

text \<open>The library calls and constants of \<open>mysql.h\<close>, \<open>errmsg.h\<close> and \<open>TimeoutEvent::IsAttached\<close>.\<close>

record ('m, 'r) mysql_api =
  mysql_init :: "'m \<Rightarrow> 'm"
  mysql_options :: "mysql_opt \<Rightarrow> 'm \<Rightarrow> 'm"
  mysql_real_connect :: "string \<Rightarrow> string \<Rightarrow> string \<Rightarrow> string \<Rightarrow> u32 \<Rightarrow> 'm \<Rightarrow> bool \<times> 'm"
  mysql_real_connect_start ::
    "bool \<Rightarrow> string \<Rightarrow> string \<Rightarrow> string \<Rightarrow> string \<Rightarrow> u32 \<Rightarrow> 'm \<Rightarrow> u32 \<times> bool \<times> 'm"
  mysql_real_connect_cont :: "bool \<Rightarrow> u32 \<Rightarrow> 'm \<Rightarrow> u32 \<times> bool \<times> 'm"
  mysql_select_db_start :: "string \<Rightarrow> 'm \<Rightarrow> u32 \<times> int \<times> 'm"
  mysql_select_db_cont :: "u32 \<Rightarrow> 'm \<Rightarrow> u32 \<times> int \<times> 'm"
  mysql_real_query_start :: "string \<Rightarrow> 'm \<Rightarrow> u32 \<times> int \<times> 'm"
  mysql_real_query_cont :: "u32 \<Rightarrow> 'm \<Rightarrow> u32 \<times> int \<times> 'm"
  mysql_use_result :: "'m \<Rightarrow> 'r option \<times> 'm"
  mysql_fetch_row_start :: "MYSQL_ROW \<Rightarrow> 'r \<Rightarrow> 'm \<Rightarrow> u32 \<times> MYSQL_ROW \<times> 'r \<times> 'm"
  mysql_fetch_row_cont :: "MYSQL_ROW \<Rightarrow> u32 \<Rightarrow> 'r \<Rightarrow> 'm \<Rightarrow> u32 \<times> MYSQL_ROW \<times> 'r \<times> 'm"
  mysql_fetch_field :: "'r \<Rightarrow> string option \<times> 'r"
  mysql_num_fields :: "'r \<Rightarrow> u32"
  mysql_num_rows :: "'r \<Rightarrow> u64"
  mysql_free_result :: "'r \<Rightarrow> 'm \<Rightarrow> 'm"
  mysql_affected_rows :: "'m \<Rightarrow> u64"
  mysql_errno :: "'m \<Rightarrow> int"
  mysql_error :: "'m \<Rightarrow> string"
  mysql_close_start :: "'m \<Rightarrow> u32 \<times> 'm"
  mysql_close_cont :: "u32 \<Rightarrow> 'm \<Rightarrow> u32 \<times> 'm"
  mysql_close :: "'m \<Rightarrow> 'm"
  mysql_ping :: "'m \<Rightarrow> int \<times> 'm"
  mysql_get_socket :: "'m \<Rightarrow> int"
  mysql_get_timeout_value :: "'m \<Rightarrow> u32"
  MYSQL_WAIT_READ :: u32
  MYSQL_WAIT_WRITE :: u32
  MYSQL_WAIT_EXCEPT :: u32
  MYSQL_WAIT_TIMEOUT :: u32
  LT_EVENT_READ :: u32
  LT_EVENT_WRITE :: u32
  LT_EVENT_ERROR :: u32
  CR_UNKNOWN_ERROR :: int
  CR_SERVER_GONE_ERROR :: int
  CR_OUT_OF_MEMORY :: int
  CR_SERVER_LOST :: int
  IsAttached :: "con_event list \<Rightarrow> bool"

text \<open>
  The fields of the class. Pointers that are only tested and passed on are booleans (set or
  null): \<open>mysql_ret_'\<close>, \<open>client_'\<close>, \<open>fd_event_'\<close>, \<open>timeout_'\<close>. A \<open>RefQuerySession\<close> is the address of a
  session, or \<open>None\<close> for a null one.
\<close>

record ('m, 'r) MysqlAsyncConnect =
  err_no_' :: int
  current_state_' :: State
  mysql_' :: 'm
  mysql_ret_' :: bool
  result_' :: "'r res_ptr"
  result_row_' :: MYSQL_ROW
  option_' :: MysqlOptions
  client_' :: bool
  fd_event_' :: bool
  timeout_' :: bool
  ready_' :: bool
  schedule_close_' :: bool
  last_selected_db_' :: string
  in_process_' :: "session_id option"
  query_list_' :: "session_id option list"

text \<open>The connection with the heap of sessions it shares with its users and what it has done.\<close>

record ('m, 'r) con_run = "('m, 'r) MysqlAsyncConnect" +
  sess :: "session_id \<Rightarrow> QuerySession"
  trace :: "con_event list"

definition emit :: "con_event \<Rightarrow> ('m, 'r) con_run \<Rightarrow> ('m, 'r) con_run" where
  "emit e s = s\<lparr>trace := trace s @ [e]\<rparr>"

definition on_session ::
  "session_id \<Rightarrow> (QuerySession \<Rightarrow> QuerySession) \<Rightarrow> ('m, 'r) con_run \<Rightarrow> ('m, 'r) con_run" where
  "on_session q f s = s\<lparr>sess := (sess s)(q := f (sess s q))\<rparr>"

text \<open>\<open>query->OnQueryDone()\<close>: the session after it, and the callback that ran.\<close>

definition finish_session :: "session_id \<Rightarrow> ('m, 'r) con_run \<Rightarrow> ('m, 'r) con_run" where
  "finish_session q s =
     (case OnQueryDone (sess s q) of
        (qs, cb) \<Rightarrow> emit (QueryDone q cb) (s\<lparr>sess := (sess s)(q := qs)\<rparr>))"

text \<open>
  The constructor. \<open>err_no_'\<close>, \<open>current_state_'\<close> and \<open>mysql_'\<close> have no initialiser: what they hold is
  whatever the memory held, an argument here.
\<close>

definition MysqlAsyncConnect_new ::
  "int \<Rightarrow> State \<Rightarrow> 'm \<Rightarrow> MysqlOptions \<Rightarrow> bool \<Rightarrow> (session_id \<Rightarrow> QuerySession) \<Rightarrow> ('m, 'r) con_run" where
  "MysqlAsyncConnect_new err0 state0 handle0 option0 client heap =
     \<lparr>err_no_' = err0, current_state_' = state0, mysql_' = handle0, mysql_ret_' = False,
      result_' = ResNull, result_row_' = None, option_' = option0, client_' = client,
      fd_event_' = False, timeout_' = False, ready_' = False, schedule_close_' = False,
      last_selected_db_' = '''', in_process_' = None, query_list_' = [],
      sess = heap, trace = []\<rparr>"

section \<open>Status words\<close>

definition MysqlWaitStatusString :: "('m, 'r) mysql_api \<Rightarrow> u32 \<Rightarrow> string" where
  "MysqlWaitStatusString api status =
     (if status = 0 then ''None'' else '''')
     @ (if status AND MYSQL_WAIT_READ api \<noteq> 0 then ''READ|'' else '''')
     @ (if status AND MYSQL_WAIT_WRITE api \<noteq> 0 then ''WRITE|'' else '''')
     @ (if status AND MYSQL_WAIT_TIMEOUT api \<noteq> 0 then ''TIMEOUT|'' else '''')
     @ (if status AND MYSQL_WAIT_EXCEPT api \<noteq> 0 then ''EXCEPT|'' else '''')"

definition LtEvToMysqlStatus :: "('m, 'r) mysql_api \<Rightarrow> u32 \<Rightarrow> u32" where
  "LtEvToMysqlStatus api event =
     (if event AND LT_EVENT_READ api \<noteq> 0 then MYSQL_WAIT_READ api else 0)
     OR (if event AND LT_EVENT_WRITE api \<noteq> 0 then MYSQL_WAIT_WRITE api else 0)
     OR (if event AND LT_EVENT_ERROR api \<noteq> 0 then MYSQL_WAIT_EXCEPT api else 0)"

section \<open>Waiting for the socket\<close>

definition reset_wait_event ::
  "('m, 'r) mysql_api \<Rightarrow> ('m, 'r) con_run \<Rightarrow> ('m, 'r) con_run outcome" where
  "reset_wait_event api s =
     (if \<not> timeout_' s then faults NullDeref
      else let s1 = (if IsAttached api (trace s) then emit RemoveTimeoutEvent s else s)
           in if \<not> fd_event_' s1 then faults NullDeref
              else returns (emit DisableAll s1))"

definition WaitMysqlStatus ::
  "('m, 'r) mysql_api \<Rightarrow> u32 \<Rightarrow> ('m, 'r) con_run \<Rightarrow> ('m, 'r) con_run outcome" where
  "WaitMysqlStatus api status s =
     (let s1 = (if fd_event_' s then s
                else emit (InstallFdEvent (mysql_get_socket api (mysql_' s))) (s\<lparr>fd_event_' := True\<rparr>));
          s2 = emit (if status AND MYSQL_WAIT_READ api \<noteq> 0 then EnableReading else DisableReading) s1;
          s3 = emit (if status AND MYSQL_WAIT_WRITE api \<noteq> 0 then EnableWriting else DisableWriting) s2
      in if status AND MYSQL_WAIT_TIMEOUT api \<noteq> 0
         then if \<not> timeout_' s3 then faults NullDeref
              else let s4 = (if IsAttached api (trace s3) then emit RemoveTimeoutEvent s3 else s3);
                       s5 = emit (UpdateInterval (1000 * mysql_get_timeout_value api (mysql_' s4))) s4
                   in returns (emit AddTimeoutEvent s5)
         else returns s3)"

definition go_next_state ::
  "('m, 'r) mysql_api \<Rightarrow> u32 \<Rightarrow> State \<Rightarrow> State \<Rightarrow> ('m, 'r) con_run
     \<Rightarrow> (('m, 'r) con_run \<times> bool) outcome" where
  "go_next_state api opt_status wait_st next_st s =
     (if opt_status = 0 then returns (s\<lparr>current_state_' := next_st\<rparr>, True)
      else then_do (WaitMysqlStatus api opt_status (s\<lparr>current_state_' := wait_st\<rparr>))
             (\<lambda>s1. returns (s1, False)))"

section \<open>Finishing queries\<close>

definition DoneCurrentQuery ::
  "('m, 'r) mysql_api \<Rightarrow> int \<Rightarrow> string option \<Rightarrow> ('m, 'r) con_run \<Rightarrow> ('m, 'r) con_run" where
  "DoneCurrentQuery api code message s =
     (case in_process_' s of
        None \<Rightarrow> s
      | Some q \<Rightarrow>
          let s1 = (if code \<noteq> 0
                    then on_session q (SetCode code (case message of None \<Rightarrow> '''' | Some t \<Rightarrow> t)) s
                    else s);
              s2 = on_session q (SetAffectedRows (ucast (mysql_affected_rows api (mysql_' s1)))) s1;
              s3 = finish_session q s2
          in s3\<lparr>in_process_' := None\<rparr>)"

definition IsFatalError :: "('m, 'r) mysql_api \<Rightarrow> int \<Rightarrow> bool" where
  "IsFatalError api code \<longleftrightarrow>
     code = CR_SERVER_LOST api \<or> code = CR_UNKNOWN_ERROR api
     \<or> code = CR_OUT_OF_MEMORY api \<or> code = CR_SERVER_GONE_ERROR api"

text \<open>The three statements each error branch of the state machine runs.\<close>

definition query_failed ::
  "('m, 'r) mysql_api \<Rightarrow> int \<Rightarrow> ('m, 'r) con_run \<Rightarrow> ('m, 'r) con_run" where
  "query_failed api code s =
     (DoneCurrentQuery api code (Some (mysql_error api (mysql_' s))) s)
       \<lparr>current_state_' := (if IsFatalError api code then CLOSE_START else CONNECTION_IDLE)\<rparr>"

text \<open>\<open>query->SetCode(-1, "closed"); query->OnQueryDone();\<close> on the session \<open>q\<close>.\<close>

definition close_session :: "session_id \<Rightarrow> ('m, 'r) con_run \<Rightarrow> ('m, 'r) con_run" where
  "close_session q s = finish_session q (on_session q (SetCode (- 1) ''closed'') s)"

text \<open>The \<open>for\<close> over \<open>query_list_'\<close>; a null reference in it is dereferenced.\<close>

fun close_sessions ::
  "session_id option list \<Rightarrow> ('m, 'r) con_run \<Rightarrow> ('m, 'r) con_run outcome" where
  "close_sessions [] s = returns s"
| "close_sessions (None # qs) s = faults NullDeref"
| "close_sessions (Some q # qs) s = close_sessions qs (close_session q s)"

text \<open>The part \<open>clean_up\<close> and the destructor share: finish the current and the queued sessions.\<close>

definition close_all_sessions :: "('m, 'r) con_run \<Rightarrow> ('m, 'r) con_run outcome" where
  "close_all_sessions s =
     (let s1 = (case in_process_' s of
                  None \<Rightarrow> s
                | Some q \<Rightarrow> (close_session q s)\<lparr>in_process_' := None\<rparr>)
      in then_do (close_sessions (query_list_' s1) s1) (\<lambda>s2. returns (s2\<lparr>query_list_' := []\<rparr>)))"

definition clean_up :: "bool \<Rightarrow> ('m, 'r) con_run \<Rightarrow> ('m, 'r) con_run outcome" where
  "clean_up in_loop s =
     CHECK in_loop
       (let s1 = (if fd_event_' s
                  then (emit RemoveTimeoutEvent (emit RemoveFdEvent s))\<lparr>fd_event_' := False\<rparr>
                  else s)
        in close_all_sessions s1)"

definition MysqlAsyncConnect_delete ::
  "('m, 'r) con_run \<Rightarrow> ('m, 'r) con_run outcome" where
  "MysqlAsyncConnect_delete s =
     then_do (close_all_sessions s)
       (\<lambda>s1. let s2 = (if timeout_' s1 \<or> fd_event_' s1
                       then emit (PostCleanUp (fd_event_' s1) (timeout_' s1)) s1 else s1)
             in returns (emit StopChecker s2))"

section \<open>The state machine\<close>

text \<open>
  Each handler returns whether the machine goes on at once. \<open>in_event\<close> is the status word of the
  wake-up the machine runs for.
\<close>

definition HandleStateSelectDB ::
  "('m, 'r) mysql_api \<Rightarrow> u32 \<Rightarrow> ('m, 'r) con_run \<Rightarrow> (('m, 'r) con_run \<times> bool) outcome" where
  "HandleStateSelectDB api in_event s =
     (case in_process_' s of
        None \<Rightarrow> faults CheckFailed
      | Some q \<Rightarrow>
         (case current_state_' s of
            SELECT_DB_START \<Rightarrow>
              (case mysql_select_db_start api (c_str (db_name_' (sess s q))) (mysql_' s) of
                 (status, error_no, m) \<Rightarrow>
                   let s1 = s\<lparr>mysql_' := m\<rparr>
                   in if error_no \<noteq> 0 then returns (query_failed api error_no s1, True)
                      else go_next_state api status SELECT_DB_WAIT SELECT_DB_DONE s1)
          | SELECT_DB_WAIT \<Rightarrow>
              (case mysql_select_db_cont api in_event (mysql_' s) of
                 (status, error_no, m) \<Rightarrow>
                   let s1 = s\<lparr>mysql_' := m\<rparr>
                   in if error_no \<noteq> 0 then returns (query_failed api error_no s1, True)
                      else go_next_state api status SELECT_DB_WAIT SELECT_DB_DONE s1)
          | SELECT_DB_DONE \<Rightarrow>
              let s1 = s\<lparr>last_selected_db_' := db_name_' (sess s q)\<rparr>
              in if query_' (sess s1 q) = ''''
                 then returns ((DoneCurrentQuery api 0 (Some ''db change success'') s1)
                                 \<lparr>current_state_' := CONNECTION_IDLE\<rparr>, True)
                 else returns (s1\<lparr>current_state_' := QUERY_START\<rparr>, True)
          | _ \<Rightarrow> faults CheckFailed))"

definition HandleStateConnect ::
  "('m, 'r) mysql_api \<Rightarrow> bool \<Rightarrow> u32 \<Rightarrow> ('m, 'r) con_run \<Rightarrow> (('m, 'r) con_run \<times> bool) outcome" where
  "HandleStateConnect api in_loop in_event s =
     (case current_state_' s of
        CONNECT_START \<Rightarrow>
          (case mysql_real_connect_start api (mysql_ret_' s)
                  (c_str (host (option_' s))) (c_str (user (option_' s)))
                  (c_str (passwd (option_' s))) (c_str (dbname (option_' s)))
                  (port (option_' s)) (mysql_' s) of
             (status, ret, m) \<Rightarrow>
               go_next_state api status CONNECT_WAIT CONNECT_DONE
                 (s\<lparr>mysql_ret_' := ret, mysql_' := m\<rparr>))
      | CONNECT_WAIT \<Rightarrow>
          (case mysql_real_connect_cont api (mysql_ret_' s) in_event (mysql_' s) of
             (status, ret, m) \<Rightarrow>
               go_next_state api status CONNECT_WAIT CONNECT_DONE
                 (s\<lparr>mysql_ret_' := ret, mysql_' := m\<rparr>))
      | CONNECT_DONE \<Rightarrow>
          if \<not> mysql_ret_' s
          then returns (s\<lparr>ready_' := False, current_state_' := CLOSE_START\<rparr>, True)
          else let s1 = s\<lparr>ready_' := True, current_state_' := CONNECTION_IDLE,
                          last_selected_db_' := dbname (option_' s)\<rparr>
               in returns (if client_' s1 then emit ConnectReady s1 else s1, True)
      | CLOSE_START \<Rightarrow>
          (case mysql_close_start api (mysql_' s) of
             (status, m) \<Rightarrow> go_next_state api status CLOSE_WAIT CLOSE_DONE (s\<lparr>mysql_' := m\<rparr>))
      | CLOSE_WAIT \<Rightarrow>
          (case mysql_close_cont api in_event (mysql_' s) of
             (status, m) \<Rightarrow> go_next_state api status CLOSE_WAIT CLOSE_DONE (s\<lparr>mysql_' := m\<rparr>))
      | CLOSE_DONE \<Rightarrow>
          then_do (clean_up in_loop (s\<lparr>ready_' := False\<rparr>))
            (\<lambda>s1. let s2 = (if client_' s1 then emit ConnectionClosed s1 else s1)
                  in returns (s2\<lparr>current_state_' := CONNECT_DONE\<rparr>, False))
      | _ \<Rightarrow> faults CheckFailed)"

definition HandleStateIDLE ::
  "u32 \<Rightarrow> ('m, 'r) con_run \<Rightarrow> (('m, 'r) con_run \<times> bool) outcome" where
  "HandleStateIDLE in_event s =
     (case query_list_' s of
        [] \<Rightarrow> returns (if schedule_close_' s then s\<lparr>current_state_' := CLOSE_START\<rparr> else s,
                       schedule_close_' s)
      | front # rest \<Rightarrow>
          CHECK (in_process_' s = None)
            (let s1 = s\<lparr>in_process_' := front, query_list_' := rest\<rparr>
             in case in_process_' s1 of
                  None \<Rightarrow> faults CheckFailed
                | Some q \<Rightarrow>
                    if db_name_' (sess s1 q) \<noteq> '''' \<and> db_name_' (sess s1 q) \<noteq> last_selected_db_' s1
                    then returns (s1\<lparr>current_state_' := SELECT_DB_START\<rparr>, True)
                    else returns (s1\<lparr>current_state_' := QUERY_START\<rparr>, True)))"

text \<open>
  \<open>ParseResultDesc\<close>: append the name of every field the result set still has to give to the
  session's headers. It reads \<open>result_'\<close>, not the argument the caller passes.
\<close>

definition ParseResultDesc_body ::
  "('m, 'r) mysql_api \<Rightarrow> session_id \<Rightarrow> ('m, 'r) con_run \<Rightarrow> (('m, 'r) con_run \<times> bool) outcome" where
  "ParseResultDesc_body api q s =
     (case result_' s of
        ResNull \<Rightarrow> faults NullDeref
      | ResFreed \<Rightarrow> faults UseAfterFree
      | ResLive r \<Rightarrow>
          (case mysql_fetch_field api r of
             (None, r') \<Rightarrow> returns (s\<lparr>result_' := ResLive r'\<rparr>, False)
           | (Some name, r') \<Rightarrow>
               returns (on_session q (PushHeader name) (s\<lparr>result_' := ResLive r'\<rparr>), True)))"

definition ParseResultDesc ::
  "('m, 'r) mysql_api \<Rightarrow> session_id \<Rightarrow> ('m, 'r) con_run \<Rightarrow> ('m, 'r) con_run outcome" where
  "ParseResultDesc api q s = loop_while (ParseResultDesc_body api q) s"

text \<open>The \<open>for\<close> that copies a row: a null cell becomes the text \<open>NULL\<close>.\<close>

definition copy_cell :: "string option \<Rightarrow> string" where
  "copy_cell c = (case c of None \<Rightarrow> ''NULL'' | Some v \<Rightarrow> v)"

definition copy_row :: "u32 \<Rightarrow> string option list \<Rightarrow> ResultRow outcome" where
  "copy_row field_count cells =
     (if unat field_count \<le> length cells
      then returns (map copy_cell (take (unat field_count) cells))
      else faults OutOfBounds)"

definition fetch_row_result_ready ::
  "('m, 'r) mysql_api \<Rightarrow> ('m, 'r) con_run \<Rightarrow> (('m, 'r) con_run \<times> bool) outcome" where
  "fetch_row_result_ready api s =
     (case in_process_' s of
        None \<Rightarrow> faults CheckFailed
      | Some q \<Rightarrow>
         (case result_' s of
            ResNull \<Rightarrow> faults CheckFailed
          | ResFreed \<Rightarrow> faults UseAfterFree
          | ResLive r \<Rightarrow>
              (case result_row_' s of
                 None \<Rightarrow>
                   let code = mysql_errno api (mysql_' s);
                       message = (if code \<noteq> 0 then Some (mysql_error api (mysql_' s)) else None);
                       s1 = on_session q (SetResultRows (ucast (mysql_num_rows api r))) s;
                       s2 = s1\<lparr>mysql_' := mysql_free_result api r (mysql_' s1), result_' := ResFreed\<rparr>;
                       s3 = DoneCurrentQuery api code message s2
                   in returns (s3\<lparr>current_state_' := CONNECTION_IDLE\<rparr>, True)
               | Some cells \<Rightarrow>
                   then_do (if colum_names_' (sess s q) = [] then ParseResultDesc api q s else returns s)
                     (\<lambda>s1. case result_' s1 of
                        ResNull \<Rightarrow> faults NullDeref
                      | ResFreed \<Rightarrow> faults UseAfterFree
                      | ResLive r1 \<Rightarrow>
                          then_do (copy_row (mysql_num_fields api r1) cells)
                            (\<lambda>row. go_next_state api 0 FETCH_ROW_START FETCH_ROW_START
                                     (on_session q (PendingRow row) s1))))))"

text \<open>One round of the \<open>while (st_continue)\<close> loop of \<open>HandleState\<close>.\<close>

definition HandleState_body ::
  "('m, 'r) mysql_api \<Rightarrow> bool \<Rightarrow> u32 \<Rightarrow> ('m, 'r) con_run \<Rightarrow> (('m, 'r) con_run \<times> bool) outcome" where
  "HandleState_body api in_loop in_event s =
     (case current_state_' s of
        CONNECT_START \<Rightarrow> HandleStateConnect api in_loop in_event s
      | CONNECT_WAIT \<Rightarrow> HandleStateConnect api in_loop in_event s
      | CONNECT_DONE \<Rightarrow> HandleStateConnect api in_loop in_event s
      | CLOSE_START \<Rightarrow> HandleStateConnect api in_loop in_event s
      | CLOSE_WAIT \<Rightarrow> HandleStateConnect api in_loop in_event s
      | CLOSE_DONE \<Rightarrow> HandleStateConnect api in_loop in_event s
      | CONNECTION_IDLE \<Rightarrow> HandleStateIDLE in_event s
      | SELECT_DB_START \<Rightarrow> CHECK (in_process_' s \<noteq> None) (HandleStateSelectDB api in_event s)
      | SELECT_DB_WAIT \<Rightarrow> CHECK (in_process_' s \<noteq> None) (HandleStateSelectDB api in_event s)
      | SELECT_DB_DONE \<Rightarrow> CHECK (in_process_' s \<noteq> None) (HandleStateSelectDB api in_event s)
      | QUERY_START \<Rightarrow>
          (case in_process_' s of
             None \<Rightarrow> faults CheckFailed
           | Some q \<Rightarrow>
               if query_' (sess s q) = ''''
               then returns ((DoneCurrentQuery api (- 9999) (Some ''empty query'') s)
                               \<lparr>current_state_' := CONNECTION_IDLE\<rparr>, True)
               else (case mysql_real_query_start api (query_' (sess s q)) (mysql_' s) of
                       (status, err_no, m) \<Rightarrow>
                         let s1 = s\<lparr>mysql_' := m\<rparr>
                         in if err_no \<noteq> 0 then returns (query_failed api err_no s1, True)
                            else go_next_state api status QUERY_WAIT QUERY_RESULT_READY s1))
      | QUERY_WAIT \<Rightarrow>
          CHECK (in_process_' s \<noteq> None)
            (case mysql_real_query_cont api in_event (mysql_' s) of
               (status, err_no, m) \<Rightarrow>
                 let s1 = s\<lparr>mysql_' := m\<rparr>
                 in if err_no_' s1 \<noteq> 0 then returns (query_failed api err_no s1, True)
                    else go_next_state api status QUERY_WAIT QUERY_RESULT_READY s1)
      | QUERY_RESULT_READY \<Rightarrow>
          CHECK (in_process_' s \<noteq> None)
            (case mysql_use_result api (mysql_' s) of
               (None, m) \<Rightarrow>
                 let s1 = s\<lparr>mysql_' := m, result_' := ResNull\<rparr>
                 in returns (query_failed api (mysql_errno api m) s1, True)
             | (Some r, m) \<Rightarrow>
                 go_next_state api 0 FETCH_ROW_START FETCH_ROW_START
                   (s\<lparr>mysql_' := m, result_' := ResLive r\<rparr>))
      | FETCH_ROW_START \<Rightarrow>
          (case result_' s of
             ResNull \<Rightarrow> faults NullDeref
           | ResFreed \<Rightarrow> faults UseAfterFree
           | ResLive r \<Rightarrow>
               (case mysql_fetch_row_start api (result_row_' s) r (mysql_' s) of
                  (status, row, r1, m) \<Rightarrow>
                    go_next_state api status FETCH_ROW_WAIT FETCH_ROW_RESULT_READY
                      (s\<lparr>mysql_' := m, result_' := ResLive r1, result_row_' := row\<rparr>)))
      | FETCH_ROW_WAIT \<Rightarrow>
          (case result_' s of
             ResNull \<Rightarrow> faults NullDeref
           | ResFreed \<Rightarrow> faults UseAfterFree
           | ResLive r \<Rightarrow>
               (case mysql_fetch_row_cont api (result_row_' s) in_event r (mysql_' s) of
                  (status, row, r1, m) \<Rightarrow>
                    go_next_state api status FETCH_ROW_WAIT FETCH_ROW_RESULT_READY
                      (s\<lparr>mysql_' := m, result_' := ResLive r1, result_row_' := row\<rparr>)))
      | FETCH_ROW_RESULT_READY \<Rightarrow> fetch_row_result_ready api s
      | STATE_NONE \<Rightarrow> faults CheckFailed
      | CONNECT_INIT \<Rightarrow> faults CheckFailed)"

definition HandleState ::
  "('m, 'r) mysql_api \<Rightarrow> bool \<Rightarrow> u32 \<Rightarrow> ('m, 'r) con_run \<Rightarrow> ('m, 'r) con_run outcome" where
  "HandleState api in_loop in_event s = loop_while (HandleState_body api in_loop in_event) s"

section \<open>Wake-ups\<close>

definition OnTimeOut ::
  "('m, 'r) mysql_api \<Rightarrow> bool \<Rightarrow> ('m, 'r) con_run \<Rightarrow> ('m, 'r) con_run outcome" where
  "OnTimeOut api in_loop s =
     then_do (reset_wait_event api s) (HandleState api in_loop (MYSQL_WAIT_TIMEOUT api))"

text \<open>\<open>active\<close> is what \<open>fd_event_->ActivedEvent()\<close> gives.\<close>

definition OnWaitEventInvoked ::
  "('m, 'r) mysql_api \<Rightarrow> bool \<Rightarrow> u32 \<Rightarrow> ('m, 'r) con_run \<Rightarrow> ('m, 'r) con_run outcome" where
  "OnWaitEventInvoked api in_loop active s =
     (if \<not> fd_event_' s then faults NullDeref
      else then_do (reset_wait_event api s)
             (HandleState api in_loop (LtEvToMysqlStatus api active)))"

text \<open>The four callbacks of \<open>FdEvent::Handler\<close>; each forwards and reports success.\<close>

definition HandleRead ::
  "('m, 'r) mysql_api \<Rightarrow> bool \<Rightarrow> u32 \<Rightarrow> ('m, 'r) con_run \<Rightarrow> (('m, 'r) con_run \<times> bool) outcome" where
  "HandleRead api in_loop active s =
     then_do (OnWaitEventInvoked api in_loop active s) (\<lambda>s1. returns (s1, True))"

definition HandleWrite ::
  "('m, 'r) mysql_api \<Rightarrow> bool \<Rightarrow> u32 \<Rightarrow> ('m, 'r) con_run \<Rightarrow> (('m, 'r) con_run \<times> bool) outcome" where
  "HandleWrite api in_loop active s =
     then_do (OnWaitEventInvoked api in_loop active s) (\<lambda>s1. returns (s1, True))"

definition HandleError ::
  "('m, 'r) mysql_api \<Rightarrow> bool \<Rightarrow> u32 \<Rightarrow> ('m, 'r) con_run \<Rightarrow> (('m, 'r) con_run \<times> bool) outcome" where
  "HandleError api in_loop active s =
     then_do (OnWaitEventInvoked api in_loop active s) (\<lambda>s1. returns (s1, True))"

definition HandleClose ::
  "('m, 'r) mysql_api \<Rightarrow> bool \<Rightarrow> u32 \<Rightarrow> ('m, 'r) con_run \<Rightarrow> (('m, 'r) con_run \<times> bool) outcome" where
  "HandleClose api in_loop active s =
     then_do (OnWaitEventInvoked api in_loop active s) (\<lambda>s1. returns (s1, True))"

section \<open>Public operations\<close>

definition StartQuery ::
  "('m, 'r) mysql_api \<Rightarrow> bool \<Rightarrow> session_id option \<Rightarrow> ('m, 'r) con_run \<Rightarrow> ('m, 'r) con_run outcome" where
  "StartQuery api in_loop query s =
     CHECK in_loop
       (let s1 = s\<lparr>query_list_' := query_list_' s @ [query]\<rparr>
        in if current_state_' s1 = CONNECTION_IDLE \<and> in_process_' s1 = None
           then HandleState api in_loop 0 s1
           else returns s1)"

definition InitConnection ::
  "('m, 'r) mysql_api \<Rightarrow> MysqlOptions \<Rightarrow> ('m, 'r) con_run \<Rightarrow> ('m, 'r) con_run" where
  "InitConnection api opt s =
     (let m0 = mysql_init api (mysql_' s);
          default_timeout0 = query_timeout opt div 1000;
          default_timeout = (if default_timeout0 < 1 then 1 else default_timeout0);
          m1 = mysql_options api MYSQL_OPT_NONBLOCK m0;
          m2 = mysql_options api (MYSQL_READ_DEFAULT_GROUP ''async_queries'') m1;
          m3 = mysql_options api (MYSQL_OPT_READ_TIMEOUT default_timeout) m2;
          m4 = mysql_options api (MYSQL_OPT_WRITE_TIMEOUT default_timeout) m3;
          m5 = mysql_options api (MYSQL_OPT_CONNECT_TIMEOUT default_timeout) m4
      in (emit (NewTimeoutEvent (query_timeout opt))
           (s\<lparr>mysql_' := m5, option_' := opt, timeout_' := True\<rparr>))
           \<lparr>current_state_' := CONNECT_INIT\<rparr>)"

definition do_connection_check ::
  "('m, 'r) mysql_api \<Rightarrow> ('m, 'r) con_run \<Rightarrow> ('m, 'r) con_run" where
  "do_connection_check api s =
     (case mysql_ping api (mysql_' s) of
        (rc, m) \<Rightarrow>
          let s1 = s\<lparr>mysql_' := m, ready_' := (rc = 0)\<rparr>
          in if ready_' s1 then s1 else s1\<lparr>schedule_close_' := True\<rparr>)"

definition Connect :: "('m, 'r) con_run \<Rightarrow> ('m, 'r) con_run" where
  "Connect s = emit (StartChecker (60 * 1000)) (emit PostHandleState (s\<lparr>current_state_' := CONNECT_START\<rparr>))"

definition SyncConnect ::
  "('m, 'r) mysql_api \<Rightarrow> ('m, 'r) con_run \<Rightarrow> ('m, 'r) con_run \<times> bool" where
  "SyncConnect api s =
     (case mysql_real_connect api (c_str (host (option_' s))) (c_str (user (option_' s)))
             (c_str (passwd (option_' s))) (c_str (dbname (option_' s)))
             (port (option_' s)) (mysql_' s) of
        (ret, m) \<Rightarrow>
          let s1 = s\<lparr>mysql_ret_' := ret, mysql_' := m\<rparr>
          in if \<not> ret then (s1, False)
             else (emit (StartChecker (60 * 1000))
                     (s1\<lparr>ready_' := True, current_state_' := CONNECTION_IDLE\<rparr>), True))"

definition Close ::
  "('m, 'r) mysql_api \<Rightarrow> bool \<Rightarrow> ('m, 'r) con_run \<Rightarrow> ('m, 'r) con_run outcome" where
  "Close api in_loop s =
     CHECK in_loop
       (let s1 = s\<lparr>schedule_close_' := True\<rparr>
        in if in_process_' s1 = None \<and> current_state_' s1 = QUERY_START
           then HandleState api in_loop 0 s1
           else returns s1)"

definition SyncClose ::
  "('m, 'r) mysql_api \<Rightarrow> bool \<Rightarrow> ('m, 'r) con_run \<Rightarrow> ('m, 'r) con_run outcome" where
  "SyncClose api in_loop s =
     CHECK in_loop
       (then_do (clean_up in_loop s)
          (\<lambda>s1. returns (s1\<lparr>ready_' := False, mysql_' := mysql_close api (mysql_' s1),
                            current_state_' := CLOSE_DONE\<rparr>)))"

definition ResetClient :: "('m, 'r) con_run \<Rightarrow> ('m, 'r) con_run" where
  "ResetClient s = s\<lparr>client_' := False\<rparr>"

end
