(* ===== verification/Mysql_Invariant.thy ===== *)
theory Mysql_Invariant
  imports Mysql_Connection
begin

text \<open>
  What holds of a \<open>MysqlAsyncConnect\<close> in every state it can be in: the connection invariant
  \<open>con_inv\<close>, and the ledger of sessions (finished, then the one in process, then the queued
  ones), which the state machine never reorders, loses or repeats.
\<close>

section \<open>Predicates on a connection\<close>

fun serving :: "State \<Rightarrow> bool" where
  "serving SELECT_DB_START = True"
| "serving SELECT_DB_WAIT = True"
| "serving SELECT_DB_DONE = True"
| "serving QUERY_START = True"
| "serving QUERY_WAIT = True"
| "serving QUERY_RESULT_READY = True"
| "serving FETCH_ROW_START = True"
| "serving FETCH_ROW_WAIT = True"
| "serving FETCH_ROW_RESULT_READY = True"
| "serving _ = False"

fun fetching :: "State \<Rightarrow> bool" where
  "fetching FETCH_ROW_START = True"
| "fetching FETCH_ROW_WAIT = True"
| "fetching FETCH_ROW_RESULT_READY = True"
| "fetching _ = False"

fun waiting :: "State \<Rightarrow> bool" where
  "waiting CONNECT_WAIT = True"
| "waiting SELECT_DB_WAIT = True"
| "waiting QUERY_WAIT = True"
| "waiting FETCH_ROW_WAIT = True"
| "waiting CLOSE_WAIT = True"
| "waiting _ = False"

definition row_fits :: "('m, 'r) mysql_api \<Rightarrow> ('m, 'r) con_run \<Rightarrow> bool" where
  "row_fits api s \<longleftrightarrow>
     (case (result_row_' s, result_' s) of
        (Some cells, ResLive r) \<Rightarrow> unat (mysql_num_fields api r) \<le> length cells
      | _ \<Rightarrow> True)"

text \<open>What the last calls on the pump left: is the timer added, is the socket event installed?\<close>

fun timer_after :: "bool \<Rightarrow> con_event list \<Rightarrow> bool" where
  "timer_after a [] = a"
| "timer_after a (AddTimeoutEvent # es) = timer_after True es"
| "timer_after a (RemoveTimeoutEvent # es) = timer_after False es"
| "timer_after a (_ # es) = timer_after a es"

fun socket_after :: "bool \<Rightarrow> con_event list \<Rightarrow> bool" where
  "socket_after a [] = a"
| "socket_after a (InstallFdEvent fd # es) = socket_after True es"
| "socket_after a (RemoveFdEvent # es) = socket_after False es"
| "socket_after a (_ # es) = socket_after a es"

definition con_inv :: "('m, 'r) mysql_api \<Rightarrow> ('m, 'r) con_run \<Rightarrow> bool" where
  "con_inv api s \<longleftrightarrow>
     current_state_' s \<noteq> STATE_NONE \<and> current_state_' s \<noteq> CONNECT_INIT
     \<and> (in_process_' s \<noteq> None \<longleftrightarrow> serving (current_state_' s))
     \<and> (fetching (current_state_' s) \<longrightarrow> (\<exists>r. result_' s = ResLive r))
     \<and> (current_state_' s = FETCH_ROW_RESULT_READY \<longrightarrow> row_fits api s)
     \<and> (waiting (current_state_' s) \<longrightarrow> fd_event_' s)
     \<and> timeout_' s
     \<and> None \<notin> set (query_list_' s)
     \<and> (timer_after False (trace s) \<longrightarrow> fd_event_' s)
     \<and> (socket_after False (trace s) \<longleftrightarrow> fd_event_' s)"

text \<open>The sessions finished in a stretch of the trace, in order.\<close>

definition served :: "con_event list \<Rightarrow> session_id list" where
  "served es = concat (map (\<lambda>e. case e of QueryDone q _ \<Rightarrow> [q] | _ \<Rightarrow> []) es)"

definition current :: "('m, 'r) con_run \<Rightarrow> session_id option list" where
  "current s = (case in_process_' s of None \<Rightarrow> [] | Some q \<Rightarrow> [Some q])"

definition ledger :: "('m, 'r) con_run \<Rightarrow> session_id option list" where
  "ledger s = map Some (served (trace s)) @ current s @ query_list_' s"

text \<open>
  Callbacks of a session: how often one ran, and how many there are in all, run or still
  armed.
\<close>

fun callbacks_run :: "session_id \<Rightarrow> con_event list \<Rightarrow> nat" where
  "callbacks_run q [] = 0"
| "callbacks_run q (QueryDone p (Some cb) # es) = (if p = q then 1 else 0) + callbacks_run q es"
| "callbacks_run q (_ # es) = callbacks_run q es"

definition armed :: "QuerySession \<Rightarrow> nat" where
  "armed qs = (case finish_callback_' qs of None \<Rightarrow> 0 | Some _ \<Rightarrow> 1)"

definition callbacks :: "('m, 'r) con_run \<Rightarrow> session_id \<Rightarrow> nat" where
  "callbacks s q = callbacks_run q (trace s) + armed (sess s q)"

text \<open>A finished session has no callback left.\<close>

definition settled :: "('m, 'r) con_run \<Rightarrow> bool" where
  "settled s \<longleftrightarrow> (\<forall>q \<in> set (served (trace s)). armed (sess s q) = 0)"

section \<open>What the code relies on from the client library\<close>

text \<open>
  A row the library hands out has as many values as \<open>mysql_num_fields\<close> says, and reading field
  descriptions does not change that number.
\<close>

definition rows_have_width :: "('m, 'r) mysql_api \<Rightarrow> bool" where
  "rows_have_width api \<longleftrightarrow>
     (\<forall>row r m st cells r1 m1. mysql_fetch_row_start api row r m = (st, Some cells, r1, m1) \<longrightarrow> st = 0 \<longrightarrow>
        length cells = unat (mysql_num_fields api r1))
     \<and> (\<forall>row ev r m st cells r1 m1. mysql_fetch_row_cont api row ev r m = (st, Some cells, r1, m1) \<longrightarrow> st = 0 \<longrightarrow>
        length cells = unat (mysql_num_fields api r1))
     \<and> (\<forall>r. mysql_num_fields api (snd (mysql_fetch_field api r)) = mysql_num_fields api r)"

section \<open>Effects of the parts\<close>

lemma served_simps [simp]:
  "served [] = []"
  "served (QueryDone q cb # es) = q # served es"
  "served (es @ fs) = served es @ served fs"
  by (simp_all add: served_def)

lemma served_other [simp]:
  "\<forall>q cb. e \<noteq> QueryDone q cb \<Longrightarrow> served (e # es) = served es"
  by (cases e) (simp_all add: served_def)

lemma timer_after_append [simp]: "timer_after a (es @ fs) = timer_after (timer_after a es) fs"
  by (induction a es rule: timer_after.induct) simp_all

lemma socket_after_append [simp]: "socket_after a (es @ fs) = socket_after (socket_after a es) fs"
  by (induction a es rule: socket_after.induct) simp_all

lemma callbacks_run_append [simp]:
  "callbacks_run q (es @ fs) = callbacks_run q es + callbacks_run q fs"
  by (induction q es rule: callbacks_run.induct) simp_all

lemma callbacks_run_done [simp]:
  "callbacks_run q (QueryDone p (finish_callback_' qs) # es) =
     (if p = q then armed qs else 0) + callbacks_run q es"
  by (cases "finish_callback_' qs") (simp_all add: armed_def)

lemma armed_simps [simp]:
  "finish_callback_' qs = None \<Longrightarrow> armed qs = 0"
  "armed (qs\<lparr>results_' := x\<rparr>) = armed qs"
  "armed (qs\<lparr>result_count_' := y\<rparr>) = armed qs"
  "armed (qs\<lparr>colum_names_' := z\<rparr>) = armed qs"
  by (simp_all add: armed_def)

text \<open>The calls one wait makes on the pump and the timer.\<close>

definition wait_calls :: "('m, 'r) mysql_api \<Rightarrow> u32 \<Rightarrow> ('m, 'r) con_run \<Rightarrow> con_event list" where
  "wait_calls api status s =
     (let socket = (if fd_event_' s then [] else [InstallFdEvent (mysql_get_socket api (mysql_' s))])
            @ [if status AND MYSQL_WAIT_READ api \<noteq> 0 then EnableReading else DisableReading,
               if status AND MYSQL_WAIT_WRITE api \<noteq> 0 then EnableWriting else DisableWriting]
      in socket
         @ (if status AND MYSQL_WAIT_TIMEOUT api \<noteq> 0
            then (if IsAttached api (trace s @ socket) then [RemoveTimeoutEvent] else [])
                 @ [UpdateInterval (1000 * mysql_get_timeout_value api (mysql_' s)), AddTimeoutEvent]
            else []))"

lemma served_wait_calls [simp]: "served (wait_calls api st s) = []"
  by (simp add: wait_calls_def Let_def)

lemma callbacks_run_wait_calls [simp]: "callbacks_run q (wait_calls api st s) = 0"
  by (simp add: wait_calls_def Let_def)

lemma socket_after_wait_calls [simp]:
  "socket_after (fd_event_' s) (wait_calls api st s)"
  "fd_event_' s = a \<Longrightarrow> socket_after a (wait_calls api st s)"
  by (auto simp: wait_calls_def Let_def)

lemma WaitMysqlStatus_effect:
  "timeout_' s \<Longrightarrow> WaitMysqlStatus api st s =
     returns (s\<lparr>fd_event_' := True, trace := trace s @ wait_calls api st s\<rparr>)"
  by (simp add: WaitMysqlStatus_def wait_calls_def emit_def Let_def)

lemma go_next_state_effect:
  "timeout_' s \<Longrightarrow> go_next_state api st w n s =
     (if st = 0 then returns (s\<lparr>current_state_' := n\<rparr>, True)
      else returns (s\<lparr>current_state_' := w, fd_event_' := True,
                      trace := trace s @ wait_calls api st (s\<lparr>current_state_' := w\<rparr>)\<rparr>, False))"
  by (simp add: go_next_state_def WaitMysqlStatus_effect)

lemma go_next_state_now:
  "go_next_state api 0 w n s = returns (s\<lparr>current_state_' := n\<rparr>, True)"
  by (simp add: go_next_state_def)

text \<open>The session \<open>DoneCurrentQuery\<close> leaves, and the one closing leaves.\<close>

definition done_session ::
  "('m, 'r) mysql_api \<Rightarrow> int \<Rightarrow> string option \<Rightarrow> 'm \<Rightarrow> QuerySession \<Rightarrow> QuerySession" where
  "done_session api code msg m qs =
     (let qs1 = (if code \<noteq> 0 then SetCode code (case msg of None \<Rightarrow> '''' | Some t \<Rightarrow> t) qs else qs)
      in (SetAffectedRows (ucast (mysql_affected_rows api m)) qs1)\<lparr>finish_callback_' := None\<rparr>)"

definition closed_session :: "QuerySession \<Rightarrow> QuerySession" where
  "closed_session qs = (SetCode (- 1) ''closed'' qs)\<lparr>finish_callback_' := None\<rparr>"

lemma armed_finished [simp]:
  "armed (done_session api code msg m qs) = 0"
  "armed (closed_session qs) = 0"
  by (simp_all add: armed_def done_session_def closed_session_def Let_def)

lemma DoneCurrentQuery_effect:
  "in_process_' s = Some q \<Longrightarrow> DoneCurrentQuery api code msg s =
     s\<lparr>sess := (sess s)(q := done_session api code msg (mysql_' s) (sess s q)),
       trace := trace s @ [QueryDone q (finish_callback_' (sess s q))], in_process_' := None\<rparr>"
  by (simp add: DoneCurrentQuery_def finish_session_def on_session_def emit_def Let_def
      done_session_def session_defs)

lemma query_failed_effect:
  "in_process_' s = Some q \<Longrightarrow> query_failed api code s =
     s\<lparr>sess := (sess s)(q := done_session api code (Some (mysql_error api (mysql_' s))) (mysql_' s) (sess s q)),
       trace := trace s @ [QueryDone q (finish_callback_' (sess s q))], in_process_' := None,
       current_state_' := (if IsFatalError api code then CLOSE_START else CONNECTION_IDLE)\<rparr>"
  by (simp add: query_failed_def DoneCurrentQuery_effect)

lemma close_session_effect:
  "close_session q s =
     s\<lparr>sess := (sess s)(q := closed_session (sess s q)),
       trace := trace s @ [QueryDone q (finish_callback_' (sess s q))]\<rparr>"
  by (simp add: close_session_def finish_session_def on_session_def emit_def closed_session_def
      session_defs)

text \<open>The heap and the trace after closing the sessions of a list in order.\<close>

fun close_heap ::
  "session_id option list \<Rightarrow> (session_id \<Rightarrow> QuerySession) \<Rightarrow> (session_id \<Rightarrow> QuerySession)" where
  "close_heap [] h = h"
| "close_heap (None # qs) h = h"
| "close_heap (Some q # qs) h = close_heap qs (h(q := closed_session (h q)))"

fun close_log :: "session_id option list \<Rightarrow> (session_id \<Rightarrow> QuerySession) \<Rightarrow> con_event list" where
  "close_log [] h = []"
| "close_log (None # qs) h = []"
| "close_log (Some q # qs) h =
     QueryDone q (finish_callback_' (h q)) # close_log qs (h(q := closed_session (h q)))"

lemma served_close_log: "None \<notin> set qs \<Longrightarrow> map Some (served (close_log qs h)) = qs"
  by (induction qs h rule: close_log.induct) auto

lemma pump_close_log [simp]:
  "timer_after a (close_log qs h) = a"
  "socket_after a (close_log qs h) = a"
  by (induction qs h rule: close_log.induct) simp_all

lemma callbacks_close_log [simp]:
  "callbacks_run q (close_log qs h) + armed (close_heap qs h q) = armed (h q)"
  by (induction qs h rule: close_log.induct) (auto simp: fun_upd_def)

lemma armed_close_heap [simp]: "armed (h q) = 0 \<Longrightarrow> armed (close_heap qs h q) = 0"
  by (metis add_is_0 callbacks_close_log)

lemma settled_close_log [simp]: "q \<in> set (served (close_log qs h)) \<Longrightarrow> armed (close_heap qs h q) = 0"
  by (induction qs h rule: close_log.induct) auto

lemma close_sessions_effect:
  "None \<notin> set qs \<Longrightarrow> close_sessions qs s =
     returns (s\<lparr>sess := close_heap qs (sess s), trace := trace s @ close_log qs (sess s)\<rparr>)"
  by (induction qs s rule: close_sessions.induct) (auto simp: close_session_effect)

lemma close_all_sessions_effect:
  "None \<notin> set (query_list_' s) \<Longrightarrow> close_all_sessions s =
     returns (s\<lparr>sess := close_heap (current s @ query_list_' s) (sess s),
                trace := trace s @ close_log (current s @ query_list_' s) (sess s),
                in_process_' := None, query_list_' := []\<rparr>)"
  by (cases "in_process_' s")
    (simp_all add: close_all_sessions_def current_def close_sessions_effect close_session_effect)

lemma clean_up_effect:
  "None \<notin> set (query_list_' s) \<Longrightarrow> clean_up True s =
     returns (s\<lparr>sess := close_heap (current s @ query_list_' s) (sess s),
                trace := trace s @ (if fd_event_' s then [RemoveFdEvent, RemoveTimeoutEvent] else [])
                           @ close_log (current s @ query_list_' s) (sess s),
                in_process_' := None, query_list_' := [], fd_event_' := False\<rparr>)"
  by (simp add: clean_up_def emit_def close_all_sessions_effect current_def)

lemma close_log_ledger [simp]:
  "None \<notin> set (query_list_' s) \<Longrightarrow>
     map Some (served (close_log (current s @ query_list_' s) h)) = current s @ query_list_' s"
  by (rule served_close_log) (auto simp: current_def split: option.splits)

section \<open>Reading the field descriptions\<close>

definition desc_inv ::
  "('m, 'r) mysql_api \<Rightarrow> session_id \<Rightarrow> 'r \<Rightarrow> ('m, 'r) con_run \<Rightarrow> ('m, 'r) con_run \<Rightarrow> bool" where
  "desc_inv api q r0 s0 t \<longleftrightarrow>
     rows_have_width api
     \<and> (\<exists>r ns. mysql_num_fields api r = mysql_num_fields api r0
              \<and> t = s0\<lparr>result_' := ResLive r,
                       sess := (sess s0)(q := (sess s0 q)\<lparr>colum_names_' := ns\<rparr>)\<rparr>)"

lemma desc_inv_start:
  assumes "rows_have_width api" and "result_' s = ResLive r"
  shows "desc_inv api q r s s"
proof -
  have "s = s\<lparr>result_' := ResLive r,
              sess := (sess s)(q := (sess s q)\<lparr>colum_names_' := colum_names_' (sess s q)\<rparr>)\<rparr>"
    by (rule con_run.equality) (simp_all add: assms)
  with assms(1) show ?thesis unfolding desc_inv_def by blast
qed

interpretation desc: guarded_loop "ParseResultDesc_body api q" "desc_inv api q r0 s0"
  for api :: "('m, 'r) mysql_api" and q r0 s0
proof
  fix s s' :: "('m, 'r) con_run" and go
  assume inv: "desc_inv api q r0 s0 s" and round: "ParseResultDesc_body api q s = returns (s', go)"
  from inv obtain r ns where r: "mysql_num_fields api r = mysql_num_fields api r0"
    and s: "s = s0\<lparr>result_' := ResLive r, sess := (sess s0)(q := (sess s0 q)\<lparr>colum_names_' := ns\<rparr>)\<rparr>"
    and width: "rows_have_width api"
    by (auto simp: desc_inv_def)
  obtain f r' where f: "mysql_fetch_field api r = (f, r')" by fastforce
  have "mysql_num_fields api (snd (mysql_fetch_field api r)) = mysql_num_fields api r"
    using width unfolding rows_have_width_def by blast
  with f r have w: "mysql_num_fields api r' = mysql_num_fields api r0" by simp
  have "s' = s0\<lparr>result_' := ResLive r', sess := (sess s0)(q := (sess s0 q)
               \<lparr>colum_names_' := (case f of None \<Rightarrow> ns | Some name \<Rightarrow> ns @ [name])\<rparr>)\<rparr>"
    using round f s
    by (intro con_run.equality)
      (auto simp: ParseResultDesc_body_def on_session_def PushHeader_def split: option.splits)
  with w width show "desc_inv api q r0 s0 s'" unfolding desc_inv_def by blast
next
  fix s :: "('m, 'r) con_run" and f
  assume "desc_inv api q r0 s0 s"
  then show "ParseResultDesc_body api q s \<noteq> faults f"
    by (auto simp: desc_inv_def ParseResultDesc_body_def split: option.splits prod.splits)
qed

section \<open>One round keeps the invariant and the ledger\<close>

definition round_ok ::
  "('m, 'r) mysql_api \<Rightarrow> ('m, 'r) con_run \<Rightarrow> (('m, 'r) con_run \<times> bool) outcome \<Rightarrow> bool" where
  "round_ok api s r \<longleftrightarrow>
     (case r of
        None \<Rightarrow> True
      | Some (Inl f) \<Rightarrow> False
      | Some (Inr (t, go)) \<Rightarrow> con_inv api t \<and> ledger t = ledger s \<and> (\<forall>q. callbacks t q = callbacks s q)
     \<and> (settled s \<longrightarrow> settled t))"

lemma round_ok_simps [simp]:
  "round_ok api s None"
  "round_ok api s (returns (t, go)) \<longleftrightarrow>
     con_inv api t \<and> ledger t = ledger s \<and> (\<forall>q. callbacks t q = callbacks s q)
     \<and> (settled s \<longrightarrow> settled t)"
  "\<not> round_ok api s (faults f)"
  by (simp_all add: round_ok_def)

lemmas con_unfolds = con_inv_def ledger_def current_def row_fits_def callbacks_def settled_def

lemmas con_effects = go_next_state_effect query_failed_effect DoneCurrentQuery_effect

lemma round_ok_connect:
  assumes "con_inv api s" and "\<not> serving (current_state_' s)" and "current_state_' s \<noteq> CONNECTION_IDLE"
  shows "round_ok api s (HandleStateConnect api True ev s)"
proof (cases "current_state_' s")
  case CLOSE_DONE
  with assms have q: "None \<notin> set (query_list_' (s\<lparr>ready_' := False\<rparr>))" by (simp add: con_inv_def)
  show ?thesis
    using assms CLOSE_DONE close_log_ledger [OF q]
    by (cases "fd_event_' s")
      (simp_all add: HandleStateConnect_def clean_up_effect [OF q] Let_def emit_def con_unfolds
        ball_Un)
qed (use assms in \<open>auto simp: HandleStateConnect_def con_effects con_unfolds emit_def Let_def
       split: prod.splits\<close>)

lemma round_ok_idle:
  assumes "con_inv api s" and "current_state_' s = CONNECTION_IDLE"
  shows "round_ok api s (HandleStateIDLE ev s)"
proof (cases "query_list_' s")
  case Nil
  with assms show ?thesis by (simp add: HandleStateIDLE_def con_unfolds)
next
  case (Cons front rest)
  with assms obtain q where "front = Some q" by (cases front) (auto simp: con_inv_def)
  with assms Cons show ?thesis by (simp add: HandleStateIDLE_def con_unfolds Let_def)
qed

lemma round_ok_select:
  assumes "con_inv api s"
    and "current_state_' s \<in> {SELECT_DB_START, SELECT_DB_WAIT, SELECT_DB_DONE}"
  shows "round_ok api s (HandleStateSelectDB api ev s)"
proof -
  from assms obtain q where "in_process_' s = Some q" by (auto simp: con_inv_def)
  with assms show ?thesis
    by (auto simp: HandleStateSelectDB_def con_effects con_unfolds Let_def split: prod.splits)
qed

lemma ParseResultDesc_result:
  assumes "rows_have_width api" and "result_' s = ResLive r" and "ParseResultDesc api q s = Some x"
  shows "\<exists>r1 ns. mysql_num_fields api r1 = mysql_num_fields api r
           \<and> x = Inr (s\<lparr>result_' := ResLive r1, sess := (sess s)(q := (sess s q)\<lparr>colum_names_' := ns\<rparr>)\<rparr>)"
  using desc.loop_result [OF _ desc_inv_start [OF assms(1,2)], of q x] assms(3)
  by (auto simp: ParseResultDesc_def desc_inv_def)

lemma round_ok_row:
  assumes "con_inv api s" and "rows_have_width api" and "current_state_' s = FETCH_ROW_RESULT_READY"
  shows "round_ok api s (fetch_row_result_ready api s)"
proof -
  from assms obtain q r where q: "in_process_' s = Some q" and r: "result_' s = ResLive r"
    by (auto simp: con_inv_def)
  show ?thesis
  proof (cases "result_row_' s")
    case None
    with assms q r show ?thesis
      by (simp add: fetch_row_result_ready_def con_effects con_unfolds on_session_def Let_def
          SetResultRows_def)
  next
    case (Some cells)
    have wide: "unat (mysql_num_fields api r) \<le> length cells"
      using assms r Some by (simp add: con_unfolds)
    have row: "round_ok api s
        (then_do (copy_row (mysql_num_fields api r1) cells)
          (\<lambda>row. go_next_state api 0 FETCH_ROW_START FETCH_ROW_START (on_session q (PendingRow row) t)))"
      if "mysql_num_fields api r1 = mysql_num_fields api r"
        "t = s\<lparr>result_' := ResLive r1, sess := (sess s)(q := (sess s q)\<lparr>colum_names_' := ns\<rparr>)\<rparr>"
      for r1 t ns
      using that assms q wide
      by (simp add: copy_row_def go_next_state_effect con_unfolds on_session_def PendingRow_def)
    show ?thesis
    proof (cases "colum_names_' (sess s q) = []")
      case False
      have "s = s\<lparr>result_' := ResLive r,
                  sess := (sess s)(q := (sess s q)\<lparr>colum_names_' := colum_names_' (sess s q)\<rparr>)\<rparr>"
        by (rule con_run.equality) (simp_all add: r)
      from row [OF refl this] False q r Some show ?thesis
        by (simp add: fetch_row_result_ready_def)
    next
      case True
      show ?thesis
      proof (cases "ParseResultDesc api q s")
        case None
        with True q r Some show ?thesis by (simp add: fetch_row_result_ready_def)
      next
        case (Some x)
        from ParseResultDesc_result [OF assms(2) r Some] obtain r1 ns where
          w: "mysql_num_fields api r1 = mysql_num_fields api r" and
          x: "x = Inr (s\<lparr>result_' := ResLive r1,
                         sess := (sess s)(q := (sess s q)\<lparr>colum_names_' := ns\<rparr>)\<rparr>)" by blast
        from row [OF w refl, of ns] True q r \<open>result_row_' s = Some cells\<close> Some x show ?thesis
          by (simp add: fetch_row_result_ready_def)
      qed
    qed
  qed
qed

lemma round_ok_fetch:
  assumes "con_inv api s" and "rows_have_width api"
    and "current_state_' s = FETCH_ROW_START \<or> current_state_' s = FETCH_ROW_WAIT"
  shows "round_ok api s (HandleState_body api True ev s)"
proof -
  from assms obtain r where r: "result_' s = ResLive r" by (auto simp: con_inv_def)
  obtain st row r1 m where start: "mysql_fetch_row_start api (result_row_' s) r (mysql_' s) = (st, row, r1, m)"
    by (cases "mysql_fetch_row_start api (result_row_' s) r (mysql_' s)") auto
  obtain st' row' r1' m' where cont: "mysql_fetch_row_cont api (result_row_' s) ev r (mysql_' s) = (st', row', r1', m')"
    by (cases "mysql_fetch_row_cont api (result_row_' s) ev r (mysql_' s)") auto
  have "st = 0 \<Longrightarrow> row = Some cells \<Longrightarrow> length cells = unat (mysql_num_fields api r1)" for cells
    using assms(2) start unfolding rows_have_width_def by blast
  moreover have "st' = 0 \<Longrightarrow> row' = Some cells \<Longrightarrow> length cells = unat (mysql_num_fields api r1')" for cells
    using assms(2) cont unfolding rows_have_width_def by blast
  ultimately show ?thesis
    using assms r start cont
    by (auto simp: HandleState_body_def con_effects con_unfolds split: option.splits)
qed

lemma round_ok_query:
  assumes "con_inv api s"
    and "current_state_' s \<in> {QUERY_START, QUERY_WAIT, QUERY_RESULT_READY}"
  shows "round_ok api s (HandleState_body api True ev s)"
proof -
  from assms obtain q where q: "in_process_' s = Some q" by (auto simp: con_inv_def)
  from assms(2) consider "current_state_' s = QUERY_START" | "current_state_' s = QUERY_WAIT"
    | "current_state_' s = QUERY_RESULT_READY" by auto
  then show ?thesis
  proof cases
    case 1
    with assms(1) q show ?thesis
      by (simp add: HandleState_body_def con_effects con_unfolds Let_def split: prod.split)
  next
    case 2
    with assms(1) q show ?thesis
      by (simp add: HandleState_body_def con_effects con_unfolds Let_def split: prod.split)
  next
    case 3
    obtain res m where "mysql_use_result api (mysql_' s) = (res, m)" by fastforce
    with 3 assms(1) q show ?thesis
      by (cases res) (simp_all add: HandleState_body_def con_effects con_unfolds Let_def)
  qed
qed

lemma round_ok_body:
  assumes "con_inv api s" and "rows_have_width api"
  shows "round_ok api s (HandleState_body api True ev s)"
proof (cases "current_state_' s")
  case STATE_NONE
  with assms show ?thesis by (simp add: con_inv_def)
next
  case CONNECT_INIT
  with assms show ?thesis by (simp add: con_inv_def)
next
  case CONNECTION_IDLE
  with assms round_ok_idle show ?thesis by (simp add: HandleState_body_def)
next
  case FETCH_ROW_RESULT_READY
  with assms round_ok_row show ?thesis by (simp add: HandleState_body_def)
qed (use assms round_ok_connect [of api s ev] round_ok_select [of api s ev] round_ok_query [of api s ev]
       round_ok_fetch [of api s ev] in \<open>auto simp: HandleState_body_def con_inv_def\<close>)

text \<open>
  \<open>HandleState\<close> as a guarded loop: no round of it faults, and every round keeps the invariant
  and the ledger.
\<close>

definition machine_inv ::
  "('m, 'r) mysql_api \<Rightarrow> session_id option list \<Rightarrow> (session_id \<Rightarrow> nat) \<Rightarrow> bool
     \<Rightarrow> ('m, 'r) con_run \<Rightarrow> bool" where
  "machine_inv api L K fin s \<longleftrightarrow>
     rows_have_width api \<and> con_inv api s \<and> ledger s = L \<and> callbacks s = K \<and> (fin \<longrightarrow> settled s)"

interpretation machine: guarded_loop "HandleState_body api True ev" "machine_inv api L K fin"
  for api :: "('m, 'r) mysql_api" and ev L K fin
proof
  fix s s' :: "('m, 'r) con_run" and go
  assume "machine_inv api L K fin s" and "HandleState_body api True ev s = returns (s', go)"
  then show "machine_inv api L K fin s'"
    using round_ok_body [of api s ev] by (auto simp: machine_inv_def fun_eq_iff)
next
  fix s :: "('m, 'r) con_run" and f
  assume "machine_inv api L K fin s"
  then show "HandleState_body api True ev s \<noteq> faults f"
    using round_ok_body [of api s ev] by (auto simp: machine_inv_def)
qed

end
