(* ===== verification/Mysql_Progress.thy ===== *)
theory Mysql_Progress
  imports Mysql_Invariant
begin

text \<open>
  \<open>HandleState\<close> returns: the connection's loop ends on every input, provided the result sets of
  the client library end. The relation that decreases counts the sessions still to finish,
  then the phase of the current one, then the rows left to read.
\<close>

text \<open>
  What the code relies on: \<open>rows r\<close> bounds the rows \<open>r\<close> still gives and \<open>cols r\<close> the field
  descriptions; a fetched row or field uses one up, and the end of either adds none.
\<close>

definition result_sets_end ::
  "('m, 'r) mysql_api \<Rightarrow> ('r \<Rightarrow> nat) \<Rightarrow> ('r \<Rightarrow> nat) \<Rightarrow> bool" where
  "result_sets_end api rows cols \<longleftrightarrow>
     (\<forall>row r m x r1 m1. mysql_fetch_row_start api row r m = (0, x, r1, m1) \<longrightarrow>
        (if x = None then rows r1 \<le> rows r else rows r1 < rows r))
     \<and> (\<forall>row ev r m x r1 m1. mysql_fetch_row_cont api row ev r m = (0, x, r1, m1) \<longrightarrow>
        (if x = None then rows r1 \<le> rows r else rows r1 < rows r))
     \<and> (\<forall>r x r1. mysql_fetch_field api r = (x, r1) \<longrightarrow>
        rows r1 \<le> rows r \<and> (x \<noteq> None \<longrightarrow> cols r1 < cols r))"

fun res_left :: "('r \<Rightarrow> nat) \<Rightarrow> 'r res_ptr \<Rightarrow> nat" where
  "res_left n (ResLive r) = n r"
| "res_left n _ = 0"

section \<open>Field descriptions\<close>

definition desc_live ::
  "('m, 'r) mysql_api \<Rightarrow> ('r \<Rightarrow> nat) \<Rightarrow> ('r \<Rightarrow> nat) \<Rightarrow> session_id \<Rightarrow> 'r
     \<Rightarrow> ('m, 'r) con_run \<Rightarrow> ('m, 'r) con_run \<Rightarrow> bool" where
  "desc_live api rows cols q r0 s0 t \<longleftrightarrow>
     desc_inv api q r0 s0 t \<and> result_sets_end api rows cols
     \<and> res_left rows (result_' t) \<le> rows r0"

lemma desc_round_live:
  assumes "desc_live api rows cols q r0 s0 s" and "ParseResultDesc_body api q s = returns (s', go)"
  shows "res_left rows (result_' s') \<le> rows r0
         \<and> (go \<longrightarrow> res_left cols (result_' s') < res_left cols (result_' s))"
proof -
  from assms(1) obtain r h where s: "s = s0\<lparr>result_' := ResLive r, sess := h\<rparr>"
    and ends: "result_sets_end api rows cols" and le: "rows r \<le> rows r0"
    by (auto simp: desc_live_def desc_inv_def)
  obtain x r1 where f: "mysql_fetch_field api r = (x, r1)" by fastforce
  with ends have "rows r1 \<le> rows r" "x \<noteq> None \<longrightarrow> cols r1 < cols r"
    unfolding result_sets_end_def by blast+
  with assms(2) s f le show ?thesis
    by (auto simp: ParseResultDesc_body_def on_session_def split: option.splits)
qed

interpretation desc_end: measured_loop "ParseResultDesc_body api q" "desc_live api rows cols q r0 s0"
  "measure (\<lambda>s. res_left cols (result_' s))"
  for api :: "('m, 'r) mysql_api" and q rows cols r0 s0
proof
  fix s s' :: "('m, 'r) con_run" and go
  assume "desc_live api rows cols q r0 s0 s" and "ParseResultDesc_body api q s = returns (s', go)"
  from desc_round_live [OF this] desc.round_keeps [of api q r0 s0 s s' go] this
  show "desc_live api rows cols q r0 s0 s'" by (simp add: desc_live_def)
next
  fix s :: "('m, 'r) con_run" and f
  assume live: "desc_live api rows cols q r0 s0 s"
  then show "ParseResultDesc_body api q s \<noteq> faults f"
    by (auto simp: desc_live_def dest: desc.round_safe)
  from live show "ParseResultDesc_body api q s \<noteq> None"
    by (auto simp: desc_live_def desc_inv_def ParseResultDesc_body_def split: option.splits prod.splits)
next
  fix s s' :: "('m, 'r) con_run"
  assume "desc_live api rows cols q r0 s0 s" and "ParseResultDesc_body api q s = returns (s', True)"
  then show "(s', s) \<in> measure (\<lambda>s. res_left cols (result_' s))"
    using desc_round_live by fastforce
qed simp

lemma ParseResultDesc_returns:
  assumes "rows_have_width api" and "result_sets_end api rows cols" and "result_' s = ResLive r"
  shows "\<exists>r1 ns. ParseResultDesc api q s =
             returns (s\<lparr>result_' := ResLive r1, sess := (sess s)(q := (sess s q)\<lparr>colum_names_' := ns\<rparr>)\<rparr>)
           \<and> mysql_num_fields api r1 = mysql_num_fields api r \<and> rows r1 \<le> rows r"
proof -
  have "desc_live api rows cols q r s s"
    using assms desc_inv_start by (simp add: desc_live_def)
  from desc_end.loop_returns [OF this] obtain t where
    "ParseResultDesc api q s = returns t" "desc_live api rows cols q r s t"
    by (auto simp: ParseResultDesc_def)
  then show ?thesis by (auto simp: desc_live_def desc_inv_def)
qed

section \<open>The state machine\<close>

fun phase :: "State \<Rightarrow> nat" where
  "phase CONNECT_START = 16"
| "phase CONNECT_WAIT = 15"
| "phase CONNECT_DONE = 14"
| "phase CONNECTION_IDLE = 13"
| "phase SELECT_DB_START = 12"
| "phase SELECT_DB_WAIT = 11"
| "phase SELECT_DB_DONE = 10"
| "phase QUERY_START = 9"
| "phase QUERY_WAIT = 8"
| "phase QUERY_RESULT_READY = 7"
| "phase FETCH_ROW_START = 6"
| "phase FETCH_ROW_WAIT = 6"
| "phase FETCH_ROW_RESULT_READY = 6"
| "phase CLOSE_START = 3"
| "phase CLOSE_WAIT = 2"
| "phase CLOSE_DONE = 1"
| "phase STATE_NONE = 0"
| "phase CONNECT_INIT = 0"

definition unfinished :: "('m, 'r) con_run \<Rightarrow> nat" where
  "unfinished s = length (current s) + length (query_list_' s)"

text \<open>Within a result set: a row at hand is above the next fetch, and that above the end.\<close>

definition row_phase :: "('m, 'r) con_run \<Rightarrow> nat" where
  "row_phase s =
     (if current_state_' s = FETCH_ROW_RESULT_READY
      then if result_row_' s = None then 0 else 2
      else 1)"

definition machine_dec :: "('r \<Rightarrow> nat) \<Rightarrow> (('m, 'r) con_run \<times> ('m, 'r) con_run) set" where
  "machine_dec rows =
     measures [unfinished, \<lambda>s. phase (current_state_' s), \<lambda>s. res_left rows (result_' s), row_phase]"

lemmas dec_unfolds = machine_dec_def unfinished_def row_phase_def current_def

definition progresses ::
  "('r \<Rightarrow> nat) \<Rightarrow> ('m, 'r) con_run \<Rightarrow> (('m, 'r) con_run \<times> bool) outcome \<Rightarrow> bool" where
  "progresses rows s r \<longleftrightarrow>
     (case r of
        Some (Inr (s', go)) \<Rightarrow> go \<longrightarrow> (s', s) \<in> machine_dec rows
      | _ \<Rightarrow> False)"

lemma progresses_simps [simp]:
  "progresses rows s (returns (s', go)) \<longleftrightarrow> (go \<longrightarrow> (s', s) \<in> machine_dec rows)"
  "\<not> progresses rows s (faults f)"
  "\<not> progresses rows s None"
  by (simp_all add: progresses_def)

lemma progresses_returns: "progresses rows s r \<Longrightarrow> \<exists>s' go. r = returns (s', go)"
  by (auto simp: progresses_def split: option.splits sum.splits)

lemma row_round_progress:
  assumes "con_inv api s" and "rows_have_width api" and "result_sets_end api rows cols"
    and "current_state_' s = FETCH_ROW_RESULT_READY"
  shows "progresses rows s (fetch_row_result_ready api s)"
proof -
  from assms obtain q r where q: "in_process_' s = Some q" and r: "result_' s = ResLive r"
    by (auto simp: con_inv_def)
  show ?thesis
  proof (cases "result_row_' s")
    case None
    with assms q r show ?thesis
      by (simp add: fetch_row_result_ready_def con_effects dec_unfolds on_session_def Let_def)
  next
    case (Some cells)
    have wide: "unat (mysql_num_fields api r) \<le> length cells"
      using assms r Some by (simp add: con_unfolds)
    obtain r1 ns where desc: "ParseResultDesc api q s =
        returns (s\<lparr>result_' := ResLive r1, sess := (sess s)(q := (sess s q)\<lparr>colum_names_' := ns\<rparr>)\<rparr>)"
      "mysql_num_fields api r1 = mysql_num_fields api r" "rows r1 \<le> rows r"
      using ParseResultDesc_returns [OF assms(2,3) r] by blast
    have "timeout_' s" using assms by (simp add: con_inv_def)
    with desc wide assms q r Some show ?thesis
      by (auto simp: fetch_row_result_ready_def copy_row_def go_next_state_effect dec_unfolds
          on_session_def)
  qed
qed

lemma fetch_round_progress:
  assumes "con_inv api s" and "result_sets_end api rows cols"
    and "current_state_' s = FETCH_ROW_START \<or> current_state_' s = FETCH_ROW_WAIT"
  shows "progresses rows s (HandleState_body api True ev s)"
proof -
  from assms obtain q r where q: "in_process_' s = Some q" and r: "result_' s = ResLive r"
    and t: "timeout_' s" by (auto simp: con_inv_def)
  obtain st x r1 m where start: "mysql_fetch_row_start api (result_row_' s) r (mysql_' s) = (st, x, r1, m)"
    by (cases "mysql_fetch_row_start api (result_row_' s) r (mysql_' s)") auto
  obtain st' x' r1' m' where cont: "mysql_fetch_row_cont api (result_row_' s) ev r (mysql_' s) = (st', x', r1', m')"
    by (cases "mysql_fetch_row_cont api (result_row_' s) ev r (mysql_' s)") auto
  have "st = 0 \<Longrightarrow> (if x = None then rows r1 \<le> rows r else rows r1 < rows r)"
    using assms(2) start unfolding result_sets_end_def by blast
  moreover have "st' = 0 \<Longrightarrow> (if x' = None then rows r1' \<le> rows r else rows r1' < rows r)"
    using assms(2) cont unfolding result_sets_end_def by blast
  ultimately show ?thesis
    using assms(3) q r t start cont
    by (auto simp: HandleState_body_def go_next_state_effect dec_unfolds split: if_splits)
qed

lemma connect_round_progress:
  assumes "con_inv api s" and "\<not> serving (current_state_' s)" and "current_state_' s \<noteq> CONNECTION_IDLE"
  shows "progresses rows s (HandleStateConnect api True ev s)"
proof (cases "current_state_' s")
  case CLOSE_DONE
  with assms have q: "None \<notin> set (query_list_' (s\<lparr>ready_' := False\<rparr>))" by (simp add: con_inv_def)
  show ?thesis
    using CLOSE_DONE by (simp add: HandleStateConnect_def clean_up_effect [OF q] Let_def)
qed (use assms in \<open>auto simp: HandleStateConnect_def go_next_state_effect con_inv_def dec_unfolds
       emit_def Let_def split: prod.splits option.splits\<close>)

lemma serving_round_progress:
  assumes "con_inv api s"
    and "current_state_' s \<in> {SELECT_DB_START, SELECT_DB_WAIT, SELECT_DB_DONE,
           QUERY_START, QUERY_WAIT, QUERY_RESULT_READY}"
  shows "progresses rows s (HandleState_body api True ev s)"
proof -
  from assms obtain q where "in_process_' s = Some q" "timeout_' s" by (auto simp: con_inv_def)
  with assms(2) show ?thesis
    by (auto simp: HandleState_body_def HandleStateSelectDB_def con_effects dec_unfolds Let_def
        split: prod.splits option.splits)
qed

lemma idle_round_progress:
  assumes "con_inv api s" and "current_state_' s = CONNECTION_IDLE"
  shows "progresses rows s (HandleStateIDLE ev s)"
proof (cases "query_list_' s")
  case Nil
  with assms show ?thesis by (auto simp: HandleStateIDLE_def dec_unfolds con_inv_def)
next
  case (Cons front rest)
  with assms obtain q where "front = Some q" by (cases front) (auto simp: con_inv_def)
  with assms Cons show ?thesis
    by (simp add: HandleStateIDLE_def dec_unfolds con_inv_def Let_def)
qed

lemma body_progress:
  assumes "con_inv api s" and "rows_have_width api" and "result_sets_end api rows cols"
  shows "progresses rows s (HandleState_body api True ev s)"
proof (cases "current_state_' s")
  case CONNECTION_IDLE
  with assms idle_round_progress show ?thesis by (simp add: HandleState_body_def)
next
  case FETCH_ROW_RESULT_READY
  with row_round_progress [OF assms] show ?thesis by (auto simp: HandleState_body_def)
next
  case FETCH_ROW_START
  with fetch_round_progress [OF assms(1,3)] show ?thesis by simp
next
  case FETCH_ROW_WAIT
  with fetch_round_progress [OF assms(1,3)] show ?thesis by simp
qed (use assms connect_round_progress [OF assms(1), of rows ev]
       serving_round_progress [OF assms(1), of rows ev]
       in \<open>simp_all add: HandleState_body_def con_inv_def\<close>)

definition machine_live ::
  "('m, 'r) mysql_api \<Rightarrow> ('r \<Rightarrow> nat) \<Rightarrow> ('r \<Rightarrow> nat) \<Rightarrow> session_id option list
     \<Rightarrow> (session_id \<Rightarrow> nat) \<Rightarrow> bool \<Rightarrow> ('m, 'r) con_run \<Rightarrow> bool" where
  "machine_live api rows cols L K fin s \<longleftrightarrow> machine_inv api L K fin s \<and> result_sets_end api rows cols"

interpretation machine_end: measured_loop "HandleState_body api True ev" "machine_live api rows cols L K fin"
  "machine_dec rows"
  for api :: "('m, 'r) mysql_api" and ev rows cols L K fin
proof
  fix s s' :: "('m, 'r) con_run" and go
  assume "machine_live api rows cols L K fin s" and "HandleState_body api True ev s = returns (s', go)"
  then show "machine_live api rows cols L K fin s'"
    by (auto simp: machine_live_def dest: machine.round_keeps)
next
  fix s :: "('m, 'r) con_run" and f
  assume "machine_live api rows cols L K fin s"
  then show "HandleState_body api True ev s \<noteq> faults f" and "HandleState_body api True ev s \<noteq> None"
    using body_progress [of api s rows cols ev] progresses_returns
    by (fastforce simp: machine_live_def machine_inv_def)+
next
  fix s s' :: "('m, 'r) con_run"
  assume "machine_live api rows cols L K fin s" and "HandleState_body api True ev s = returns (s', True)"
  then show "(s', s) \<in> machine_dec rows"
    using body_progress [of api s rows cols ev] by (auto simp: machine_live_def machine_inv_def)
qed (simp add: machine_dec_def)

text \<open>Where \<open>HandleState\<close> stops: parked on a wait, idle with nothing to do, or closed.\<close>

definition at_rest :: "('m, 'r) con_run \<Rightarrow> bool" where
  "at_rest s \<longleftrightarrow>
     waiting (current_state_' s)
     \<or> (current_state_' s = CONNECTION_IDLE \<and> query_list_' s = [] \<and> \<not> schedule_close_' s)
     \<or> (current_state_' s = CONNECT_DONE \<and> \<not> ready_' s \<and> query_list_' s = [])"

lemma row_round_goes_on: "fetch_row_result_ready api s = returns (t, go) \<Longrightarrow> go"
  by (auto simp: fetch_row_result_ready_def then_do_def copy_row_def go_next_state_now Let_def
      split: option.splits res_ptr.splits sum.splits if_splits)

lemma stops_at_rest:
  assumes "con_inv api u" and "rows_have_width api" and "HandleState_body api True ev u = returns (t, False)"
  shows "at_rest t"
proof (cases "current_state_' u")
  case CLOSE_DONE
  with assms have q: "None \<notin> set (query_list_' (u\<lparr>ready_' := False\<rparr>))" by (simp add: con_inv_def)
  show ?thesis
    using CLOSE_DONE assms(3)
    by (auto simp: HandleState_body_def HandleStateConnect_def clean_up_effect [OF q] Let_def
        at_rest_def emit_def split: if_splits)
next
  case FETCH_ROW_RESULT_READY
  with assms(3) row_round_goes_on show ?thesis by (fastforce simp: HandleState_body_def)
qed (use assms in \<open>auto simp: HandleState_body_def HandleStateConnect_def HandleStateIDLE_def
       HandleStateSelectDB_def con_effects con_inv_def at_rest_def Let_def
       go_next_state_now CHECK_returns_iff
       split: prod.splits option.splits if_splits list.splits res_ptr.splits\<close>)

end
