(* ===== verification/Mysql_System.thy ===== *)
theory Mysql_System
  imports Mysql_Progress
begin

text \<open>
  A connection over its life: the operations its users, its timers and the event pump run on
  it, in any order, as the step relation \<open>con_step\<close> and as runs \<open>run_ops\<close>. The theorems of this
  theory are about every state such a run can reach.
\<close>

section \<open>Operations and runs\<close>

text \<open>
  \<open>OpHandleState\<close> is the task \<open>Connect\<close> posts. \<open>OpUser\<close> is a user of the shared sessions writing to
  them between two operations.
\<close>

datatype con_op =
    OpStartQuery session_id
  | OpHandleState
  | OpTimeOut
  | OpWaitEvent u32
  | OpCheck
  | OpClose
  | OpSyncClose
  | OpResetClient
  | OpUser "session_id \<Rightarrow> QuerySession"

text \<open>The pump calls back for a timer that is added and for a socket event that is installed.\<close>

fun con_enabled :: "con_op \<Rightarrow> ('m, 'r) con_run \<Rightarrow> bool" where
  "con_enabled OpTimeOut s = timer_after False (trace s)"
| "con_enabled (OpWaitEvent active) s = socket_after False (trace s)"
| "con_enabled _ s = True"

fun do_op :: "('m, 'r) mysql_api \<Rightarrow> con_op \<Rightarrow> ('m, 'r) con_run \<Rightarrow> ('m, 'r) con_run outcome" where
  "do_op api (OpStartQuery q) s = StartQuery api True (Some q) s"
| "do_op api OpHandleState s = HandleState api True 0 s"
| "do_op api OpTimeOut s = OnTimeOut api True s"
| "do_op api (OpWaitEvent active) s = OnWaitEventInvoked api True active s"
| "do_op api OpCheck s = returns (do_connection_check api s)"
| "do_op api OpClose s = Close api True s"
| "do_op api OpSyncClose s = SyncClose api True s"
| "do_op api OpResetClient s = returns (ResetClient s)"
| "do_op api (OpUser h) s = returns (s\<lparr>sess := h\<rparr>)"

inductive con_step :: "('m, 'r) mysql_api \<Rightarrow> ('m, 'r) con_run \<Rightarrow> ('m, 'r) con_run \<Rightarrow> bool"
  for api :: "('m, 'r) mysql_api" where
  op: "con_enabled op s \<Longrightarrow> do_op api op s = returns t \<Longrightarrow> con_step api s t"

text \<open>A run; a call-back that is not enabled does not happen.\<close>

fun run_ops :: "('m, 'r) mysql_api \<Rightarrow> con_op list \<Rightarrow> ('m, 'r) con_run \<Rightarrow> ('m, 'r) con_run outcome" where
  "run_ops api [] s = returns s"
| "run_ops api (op # ops) s =
     (if con_enabled op s then then_do (do_op api op s) (run_ops api ops) else run_ops api ops s)"

fun submitted :: "con_op list \<Rightarrow> session_id list" where
  "submitted [] = []"
| "submitted (OpStartQuery q # ops) = q # submitted ops"
| "submitted (_ # ops) = submitted ops"

fun user_op :: "con_op \<Rightarrow> bool" where
  "user_op (OpUser h) = True"
| "user_op _ = False"

text \<open>A connection as its owner starts it: initialised, then \<open>Connect\<close> or a successful \<open>SyncConnect\<close>.\<close>

definition con_started :: "('m, 'r) mysql_api \<Rightarrow> ('m, 'r) con_run \<Rightarrow> bool" where
  "con_started api s \<longleftrightarrow>
     (\<exists>err0 state0 handle0 option0 client heap opt.
        let c = InitConnection api opt (MysqlAsyncConnect_new err0 state0 handle0 option0 client heap)
        in s = Connect c \<or> SyncConnect api c = (s, True))"

section \<open>Every operation keeps the invariant\<close>

text \<open>What an operation may do to a connection: what one round may, and queue new sessions.\<close>

definition op_ok ::
  "('m, 'r) mysql_api \<Rightarrow> session_id list \<Rightarrow> ('m, 'r) con_run \<Rightarrow> ('m, 'r) con_run outcome \<Rightarrow> bool" where
  "op_ok api new s r \<longleftrightarrow>
     (case r of
        None \<Rightarrow> True
      | Some (Inl f) \<Rightarrow> False
      | Some (Inr t) \<Rightarrow> con_inv api t \<and> ledger t = ledger s @ map Some new)"

lemma op_ok_simps [simp]:
  "op_ok api new s None"
  "op_ok api new s (returns t) \<longleftrightarrow> con_inv api t \<and> ledger t = ledger s @ map Some new"
  "\<not> op_ok api new s (faults f)"
  by (simp_all add: op_ok_def)

text \<open>Fields the invariant and the ledger do not read.\<close>

lemma row_fits_frame [simp]:
  "row_fits api (s\<lparr>mysql_' := m\<rparr>) = row_fits api s"
  "row_fits api (s\<lparr>ready_' := b\<rparr>) = row_fits api s"
  "row_fits api (s\<lparr>schedule_close_' := b\<rparr>) = row_fits api s"
  "row_fits api (s\<lparr>client_' := b\<rparr>) = row_fits api s"
  "row_fits api (s\<lparr>sess := h\<rparr>) = row_fits api s"
  "row_fits api (s\<lparr>query_list_' := qs\<rparr>) = row_fits api s"
  "row_fits api (s\<lparr>trace := es\<rparr>) = row_fits api s"
  by (simp_all add: row_fits_def split: option.split)

lemma con_inv_frame [simp]:
  "con_inv api (s\<lparr>mysql_' := m\<rparr>) = con_inv api s"
  "con_inv api (s\<lparr>ready_' := b\<rparr>) = con_inv api s"
  "con_inv api (s\<lparr>schedule_close_' := b\<rparr>) = con_inv api s"
  "con_inv api (s\<lparr>client_' := b\<rparr>) = con_inv api s"
  "con_inv api (s\<lparr>sess := h\<rparr>) = con_inv api s"
  by (simp_all add: con_inv_def)

lemma ledger_frame [simp]:
  "ledger (s\<lparr>mysql_' := m\<rparr>) = ledger s"
  "ledger (s\<lparr>ready_' := b\<rparr>) = ledger s"
  "ledger (s\<lparr>schedule_close_' := b\<rparr>) = ledger s"
  "ledger (s\<lparr>client_' := b\<rparr>) = ledger s"
  "ledger (s\<lparr>sess := h\<rparr>) = ledger s"
  by (simp_all add: ledger_def current_def)

lemma HandleState_result:
  assumes "con_inv api s" and "rows_have_width api" and "HandleState api True ev s = Some r"
  shows "\<exists>t. r = Inr t \<and> con_inv api t \<and> ledger t = ledger s \<and> callbacks t = callbacks s
           \<and> (settled s \<longrightarrow> settled t) \<and> at_rest t"
proof -
  have "machine_inv api (ledger s) (callbacks s) (settled s) s"
    using assms by (simp add: machine_inv_def)
  from machine.loop_result [OF assms(3) [unfolded HandleState_def] this] obtain t u where
    "r = Inr t" "machine_inv api (ledger s) (callbacks s) (settled s) t"
    "machine_inv api (ledger s) (callbacks s) (settled s) u"
    "HandleState_body api True ev u = returns (t, False)" by blast
  with stops_at_rest show ?thesis by (auto simp: machine_inv_def)
qed

lemma HandleState_ok:
  assumes "con_inv api s" and "rows_have_width api" and "ledger s = ledger s0 @ map Some new"
  shows "op_ok api new s0 (HandleState api True ev s)"
  using HandleState_result [OF assms(1,2), of ev] assms(3)
  by (cases "HandleState api True ev s") auto

definition quiet :: "('m, 'r) mysql_api \<Rightarrow> ('m, 'r) con_run \<Rightarrow> ('m, 'r) con_run" where
  "quiet api s = s\<lparr>trace := trace s @ (if IsAttached api (trace s) then [RemoveTimeoutEvent] else [])
                              @ [DisableAll]\<rparr>"

lemma reset_wait_event_effect:
  "timeout_' s \<Longrightarrow> fd_event_' s \<Longrightarrow> reset_wait_event api s = returns (quiet api s)"
  by (simp add: reset_wait_event_def quiet_def emit_def Let_def)

lemma quiet_frame [simp]:
  "fd_event_' s \<Longrightarrow> con_inv api (quiet api s) = con_inv api s"
  "ledger (quiet api s) = ledger s"
  "callbacks (quiet api s) = callbacks s"
  "settled (quiet api s) = settled s"
  by (auto simp: quiet_def con_inv_def ledger_def current_def callbacks_def settled_def)

lemma SyncClose_effect:
  "None \<notin> set (query_list_' s) \<Longrightarrow> SyncClose api True s =
     returns (s\<lparr>sess := close_heap (current s @ query_list_' s) (sess s),
                trace := trace s @ (if fd_event_' s then [RemoveFdEvent, RemoveTimeoutEvent] else [])
                           @ close_log (current s @ query_list_' s) (sess s),
                in_process_' := None, query_list_' := [], fd_event_' := False,
                ready_' := False, mysql_' := mysql_close api (mysql_' s), current_state_' := CLOSE_DONE\<rparr>)"
  by (simp add: SyncClose_def clean_up_effect)

lemma con_inv_queue: "con_inv api s \<Longrightarrow> None \<notin> set (query_list_' s)"
  by (simp add: con_inv_def)

lemma Close_effect:
  "con_inv api s \<Longrightarrow> Close api True s = returns (s\<lparr>schedule_close_' := True\<rparr>)"
  by (auto simp: Close_def con_inv_def Let_def)

lemma SyncClose_ok:
  assumes "con_inv api s"
  shows "op_ok api [] s (SyncClose api True s)"
  using assms close_log_ledger [OF con_inv_queue [OF assms]]
  by (cases "fd_event_' s") (simp_all add: SyncClose_effect con_inv_queue con_unfolds)

lemma StartQuery_ok:
  assumes "con_inv api s" and "rows_have_width api"
  shows "op_ok api [q] s (StartQuery api True (Some q) s)"
proof -
  let ?s1 = "s\<lparr>query_list_' := query_list_' s @ [Some q]\<rparr>"
  have "con_inv api ?s1" "ledger ?s1 = ledger s @ map Some [q]"
    using assms(1) by (auto simp: con_unfolds)
  then show ?thesis
    using HandleState_ok [of api ?s1 s "[q]"] assms(2) by (simp add: StartQuery_def Let_def)
qed

lemma do_op_ok:
  assumes "con_inv api s" and "rows_have_width api" and "con_enabled op s"
  shows "op_ok api (submitted [op]) s (do_op api op s)"
proof (cases op)
  case (OpStartQuery q)
  with assms StartQuery_ok show ?thesis by simp
next
  case OpTimeOut
  with assms have "fd_event_' s" "timeout_' s" by (simp_all add: con_inv_def)
  with assms OpTimeOut show ?thesis by (simp add: OnTimeOut_def reset_wait_event_effect HandleState_ok)
next
  case (OpWaitEvent active)
  with assms have "fd_event_' s" "timeout_' s" by (simp_all add: con_inv_def)
  with assms OpWaitEvent show ?thesis
    by (simp add: OnWaitEventInvoked_def reset_wait_event_effect HandleState_ok)
next
  case OpCheck
  with assms show ?thesis by (simp add: do_connection_check_def Let_def split: prod.split)
qed (use assms in \<open>simp_all add: HandleState_ok SyncClose_ok Close_effect ResetClient_def\<close>)

definition fresh :: "('m, 'r) con_run \<Rightarrow> bool" where
  "fresh c \<longleftrightarrow> timeout_' c \<and> \<not> fd_event_' c \<and> in_process_' c = None \<and> query_list_' c = []
     \<and> (\<exists>n. trace c = [NewTimeoutEvent n])"

lemma InitConnection_fresh:
  "fresh (InitConnection api opt (MysqlAsyncConnect_new err0 state0 handle0 option0 client heap))"
  by (simp add: fresh_def InitConnection_def MysqlAsyncConnect_new_def emit_def Let_def)

lemma con_started_inv:
  assumes "con_started api s"
  shows "con_inv api s" and "ledger s = []" and "settled s" and "callbacks s q = armed (sess s q)"
proof -
  from assms obtain e st m opt0 cl heap opt where
    s0: "s = Connect (InitConnection api opt (MysqlAsyncConnect_new e st m opt0 cl heap))
       \<or> SyncConnect api (InitConnection api opt (MysqlAsyncConnect_new e st m opt0 cl heap)) = (s, True)"
    unfolding con_started_def Let_def by (elim exE)
  define c where "c = InitConnection api opt (MysqlAsyncConnect_new e st m opt0 cl heap)"
  have c: "fresh c" unfolding c_def by (rule InitConnection_fresh)
  from s0 have s: "s = Connect c \<or> SyncConnect api c = (s, True)" unfolding c_def .
  from s have "con_inv api s \<and> ledger s = [] \<and> settled s \<and> callbacks s q = armed (sess s q)"
  proof
    assume "s = Connect c"
    with c show ?thesis by (auto simp: fresh_def Connect_def emit_def con_unfolds)
  next
    assume "SyncConnect api c = (s, True)"
    then obtain m where "s = c\<lparr>mysql_ret_' := True, mysql_' := m, ready_' := True,
        current_state_' := CONNECTION_IDLE, trace := trace c @ [StartChecker 60000]\<rparr>"
      by (auto simp: SyncConnect_def emit_def Let_def split: prod.splits if_splits)
    with c show ?thesis by (auto simp: fresh_def con_unfolds)
  qed
  then show "con_inv api s" and "ledger s = []" and "settled s" and "callbacks s q = armed (sess s q)"
    by blast+
qed

section \<open>Runs\<close>

lemma run_ops_ok:
  assumes "con_inv api s" and "rows_have_width api"
  shows "op_ok api (submitted ops) s (run_ops api ops s)"
  using assms
proof (induction ops arbitrary: s)
  case Nil
  then show ?case by simp
next
  case (Cons op ops)
  have sub: "submitted (op # ops) = submitted [op] @ submitted ops" by (cases op) simp_all
  show ?case
  proof (cases "con_enabled op s")
    case True
    note ok = do_op_ok [OF Cons.prems True]
    show ?thesis
    proof (cases "do_op api op s")
      case (Some r)
      with ok obtain t where r: "r = Inr t" and t: "con_inv api t" "ledger t = ledger s @ map Some (submitted [op])"
        by (cases r) auto
      from Cons.IH [OF t(1) Cons.prems(2)] t(2) sub True Some r show ?thesis
        by (auto simp: op_ok_def split: option.splits sum.splits)
    qed (use True in simp)
  next
    case False
    then have "submitted [op] = []" by (cases op) auto
    with Cons False sub show ?thesis by simp
  qed
qed

interpretation con_sys: invariant_system "con_started api" "con_step api"
  "\<lambda>s. rows_have_width api \<longrightarrow> con_inv api s" for api :: "('m, 'r) mysql_api"
proof
  fix s :: "('m, 'r) con_run"
  assume "con_started api s"
  then show "rows_have_width api \<longrightarrow> con_inv api s" by (blast intro: con_started_inv)
next
  fix s t :: "('m, 'r) con_run"
  assume inv: "rows_have_width api \<longrightarrow> con_inv api s" and "con_step api s t"
  from this(2) obtain op where "con_enabled op s" "do_op api op s = returns t"
    by (auto elim: con_step.cases)
  with inv show "rows_have_width api \<longrightarrow> con_inv api t" using do_op_ok [of api s op] by auto
qed

section \<open>Callbacks\<close>

text \<open>What every operation but a user's write keeps of the callbacks.\<close>

lemma settled_start: "settled s \<Longrightarrow> settled (s\<lparr>query_list_' := qs\<rparr>)"
  by (simp add: settled_def)

lemma do_op_callbacks:
  assumes "con_inv api s" and "rows_have_width api" and "con_enabled op s" and "\<not> user_op op"
    and "do_op api op s = returns t"
  shows "callbacks t = callbacks s \<and> (settled s \<longrightarrow> settled t)"
proof (cases op)
  case (OpStartQuery q)
  let ?s1 = "s\<lparr>query_list_' := query_list_' s @ [Some q]\<rparr>"
  have "con_inv api ?s1" "callbacks ?s1 = callbacks s" "settled ?s1 = settled s"
    using assms(1) by (auto simp: con_inv_def callbacks_def settled_def)
  with assms OpStartQuery HandleState_result [of api ?s1 0] show ?thesis
    by (auto simp: StartQuery_def Let_def split: if_splits)
next
  case OpHandleState
  with assms HandleState_result [of api s 0] show ?thesis by auto
next
  case OpTimeOut
  with assms have "fd_event_' s" "timeout_' s" by (simp_all add: con_inv_def)
  with assms OpTimeOut HandleState_result [of api "quiet api s" "MYSQL_WAIT_TIMEOUT api"] show ?thesis
    by (auto simp: OnTimeOut_def reset_wait_event_effect)
next
  case (OpWaitEvent active)
  with assms have "fd_event_' s" "timeout_' s" by (simp_all add: con_inv_def)
  with assms OpWaitEvent HandleState_result [of api "quiet api s" "LtEvToMysqlStatus api active"]
  show ?thesis by (auto simp: OnWaitEventInvoked_def reset_wait_event_effect)
next
  case OpSyncClose
  with assms have t: "SyncClose api True s = returns t" by simp
  have q: "None \<notin> set (query_list_' s)" using assms(1) by (rule con_inv_queue)
  from t [unfolded SyncClose_effect [OF q]] show ?thesis
    by (cases "fd_event_' s") (auto simp: callbacks_def settled_def)
qed (use assms in \<open>auto simp: do_connection_check_def Close_effect ResetClient_def callbacks_def
       settled_def Let_def split: prod.splits if_splits\<close>)

lemma run_ops_callbacks:
  assumes "con_inv api s" and "rows_have_width api" and "\<forall>op \<in> set ops. \<not> user_op op"
    and "run_ops api ops s = returns t"
  shows "callbacks t = callbacks s \<and> (settled s \<longrightarrow> settled t)"
  using assms
proof (induction ops arbitrary: s)
  case Nil
  then show ?case by simp
next
  case (Cons op ops)
  show ?case
  proof (cases "con_enabled op s")
    case True
    with Cons.prems obtain u where u: "do_op api op s = returns u" "run_ops api ops u = returns t"
      by (auto simp: then_do_returns_iff)
    with do_op_ok [OF Cons.prems(1,2) True] have "con_inv api u" by simp
    from Cons.IH [OF this Cons.prems(2) _ u(2)] do_op_callbacks [OF Cons.prems(1,2) True _ u(1)]
      Cons.prems(3) show ?thesis by simp
  next
    case False
    with Cons show ?thesis by simp
  qed
qed

section \<open>Every operation returns\<close>

lemma HandleState_returns:
  assumes "con_inv api s" and "rows_have_width api" and "result_sets_end api rows cols"
  shows "\<exists>t. HandleState api True ev s = returns t"
proof -
  have "machine_live api rows cols (ledger s) (callbacks s) (settled s) s"
    using assms by (simp add: machine_live_def machine_inv_def)
  from machine_end.loop_returns [OF this] show ?thesis by (auto simp: HandleState_def)
qed

lemma do_op_returns:
  assumes "con_inv api s" and "rows_have_width api" and "result_sets_end api rows cols"
    and "con_enabled op s"
  shows "\<exists>t. do_op api op s = returns t"
proof (cases op)
  case (OpStartQuery q)
  have "con_inv api (s\<lparr>query_list_' := query_list_' s @ [Some q]\<rparr>)"
    using assms(1) by (auto simp: con_inv_def)
  from HandleState_returns [OF this assms(2,3), of 0] OpStartQuery show ?thesis
    by (simp add: StartQuery_def Let_def)
next
  case OpTimeOut
  with assms have "fd_event_' s" "timeout_' s" by (simp_all add: con_inv_def)
  with assms OpTimeOut HandleState_returns [of api "quiet api s"] show ?thesis
    by (simp add: OnTimeOut_def reset_wait_event_effect)
next
  case (OpWaitEvent active)
  with assms have "fd_event_' s" "timeout_' s" by (simp_all add: con_inv_def)
  with assms OpWaitEvent HandleState_returns [of api "quiet api s"] show ?thesis
    by (simp add: OnWaitEventInvoked_def reset_wait_event_effect)
qed (use assms HandleState_returns in
      \<open>simp_all add: Close_effect SyncClose_effect con_inv_queue\<close>)

end
