(* ===== verification/Mysql_Client.thy ===== *)
theory Mysql_Client
  imports Mysql_Connection
begin

text \<open>
  \<open>MysqlAsyncClientImpl\<close> of \<open>src/integration/async_mysql/mysql_client_impl.h\<close> and
  \<open>mysql_client_impl.cc\<close>: a pool of connections that hands queries out round robin.

  A connection is named by its address, a number; \<open>connections_'\<close> holds the pool's shared pointers
  to them. The tasks the code posts to the message loop are a list: \<open>std::bind\<close> on a shared pointer
  keeps the connection alive as long as the task exists, \<open>std::bind\<close> on the raw pointer
  \<open>get_client\<close> returns does not. A connection is deleted when the last shared pointer to it goes.
  A connection holds a raw pointer to the pool too, its \<open>client_'\<close>, and calls it when it is ready or
  closed; a connection that outlives the pool calls a deleted object.
\<close>

section \<open>Data\<close>

record MysqlAsyncClientImpl =
  count_' :: int
  use_index_' :: u32
  connections_' :: "nat list"

text \<open>
  Tasks on the loop of the connections: \<open>StartQuery\<close> bound to a raw pointer, \<open>SyncClose\<close> bound to a
  shared one, and the removal of pump events that a connection's destructor posts.
\<close>

datatype pool_task =
    RunStartQuery nat session_id
  | RunSyncClose nat
  | RunCleanUp nat bool bool

text \<open>
  The pool in its world: whether it is deleted, the connections by address, how many were made, which
  are deleted, the heap of sessions, the tasks of the connections' loop, the sessions whose
  \<open>OnQueryDone\<close> is posted to the caller's own loop, and those it ran for.
\<close>

record ('m, 'r) client_run = MysqlAsyncClientImpl +
  pool_freed :: bool
  con_at :: "nat \<Rightarrow> ('m, 'r) con_run"
  con_count :: nat
  freed :: "nat list"
  heap_of :: "session_id \<Rightarrow> QuerySession"
  loop_tasks :: "pool_task list"
  here_tasks :: "session_id list"
  done_here :: "(session_id \<times> callback option) list"

text \<open>The constructor; \<open>use_index_'\<close> has no initialiser.\<close>

definition MysqlAsyncClientImpl_new ::
  "int \<Rightarrow> u32 \<Rightarrow> (nat \<Rightarrow> ('m, 'r) con_run) \<Rightarrow> (session_id \<Rightarrow> QuerySession) \<Rightarrow> ('m, 'r) client_run" where
  "MysqlAsyncClientImpl_new n index0 mem heap =
     \<lparr>count_' = n, use_index_' = index0, connections_' = [],
      pool_freed = False, con_at = mem, con_count = 0, freed = [], heap_of = heap, loop_tasks = [], here_tasks = [],
      done_here = []\<rparr>"

section \<open>Connections behind pointers\<close>

text \<open>The calls a connection makes on its \<open>client_'\<close>, the pool that made it.\<close>

fun client_call :: "con_event \<Rightarrow> bool" where
  "client_call ConnectReady = True"
| "client_call ConnectionClosed = True"
| "client_call _ = False"

definition calls_client :: "('m, 'r) con_run \<Rightarrow> ('m, 'r) con_run \<Rightarrow> bool" where
  "calls_client c d \<longleftrightarrow> list_ex client_call (drop (length (trace c)) (trace d))"

text \<open>
  Run a member function on the connection at \<open>a\<close>, on the sessions as they are now. The connection must
  exist, and if it calls its client, so must the pool.
\<close>

definition on_con ::
  "nat \<Rightarrow> (('m, 'r) con_run \<Rightarrow> ('m, 'r) con_run outcome) \<Rightarrow> ('m, 'r) client_run
     \<Rightarrow> ('m, 'r) client_run outcome" where
  "on_con a f p =
     (if a \<in> set (freed p) then faults UseAfterFree
      else then_do (f ((con_at p a)\<lparr>sess := heap_of p\<rparr>))
             (\<lambda>c. if pool_freed p \<and> calls_client (con_at p a) c then faults UseAfterFree
                  else returns (p\<lparr>con_at := (con_at p)(a := c), heap_of := sess c\<rparr>)))"

text \<open>A shared pointer to \<open>a\<close> went away: delete the connection if it was the last one.\<close>

definition release_con :: "nat \<Rightarrow> ('m, 'r) client_run \<Rightarrow> ('m, 'r) client_run outcome" where
  "release_con a p =
     (if a \<in> set (connections_' p) \<or> RunSyncClose a \<in> set (loop_tasks p) then returns p
      else then_do (on_con a MysqlAsyncConnect_delete p)
             (\<lambda>p1. let c = con_at p1 a
                   in returns (p1\<lparr>freed := freed p1 @ [a],
                                  loop_tasks := loop_tasks p1
                                    @ (if timeout_' c \<or> fd_event_' c
                                       then [RunCleanUp a (fd_event_' c) (timeout_' c)] else [])\<rparr>)))"

section \<open>Operations\<close>

text \<open>
  The rounds of \<open>InitWithOption\<close>; \<open>junk a\<close> is what the memory of the connection at \<open>a\<close> holds before
  its constructor runs.
\<close>

fun init_connections ::
  "('m, 'r) mysql_api \<Rightarrow> (nat \<Rightarrow> int \<times> State \<times> 'm \<times> MysqlOptions) \<Rightarrow> MysqlOptions \<Rightarrow> nat
     \<Rightarrow> ('m, 'r) client_run \<Rightarrow> ('m, 'r) client_run outcome" where
  "init_connections api junk opt 0 p = returns p"
| "init_connections api junk opt (Suc n) p =
     (let a = con_count p;
          con = (case junk a of (err0, state0, handle0, option0) \<Rightarrow>
                   MysqlAsyncConnect_new err0 state0 handle0 option0 True (heap_of p))
      in case SyncConnect api (InitConnection api opt con) of
           (c, ok) \<Rightarrow>
             if \<not> ok then faults LogFatal
             else init_connections api junk opt n
                    (p\<lparr>con_at := (con_at p)(a := c), con_count := Suc a,
                       connections_' := connections_' p @ [a]\<rparr>))"

definition InitWithOption ::
  "('m, 'r) mysql_api \<Rightarrow> (nat \<Rightarrow> int \<times> State \<times> 'm \<times> MysqlOptions) \<Rightarrow> MysqlOptions
     \<Rightarrow> ('m, 'r) client_run \<Rightarrow> ('m, 'r) client_run outcome" where
  "InitWithOption api junk opt p = init_connections api junk opt (nat (count_' p)) p"

definition ClientClose :: "('m, 'r) client_run \<Rightarrow> ('m, 'r) client_run" where
  "ClientClose p = p\<lparr>loop_tasks := loop_tasks p @ map RunSyncClose (connections_' p)\<rparr>"

text \<open>
  One round of the loop of \<open>get_client\<close>. The state of the loop is the pool, \<open>round_count\<close>, \<open>con\<close> and
  what was returned. \<open>use_index_'\<close> is an \<open>int\<close>, converted to \<open>size_t\<close> for the remainder.
\<close>

definition get_client_body ::
  "('m, 'r) client_run \<times> u32 \<times> nat option \<times> nat option
     \<Rightarrow> ((('m, 'r) client_run \<times> u32 \<times> nat option \<times> nat option) \<times> bool) outcome" where
  "get_client_body st =
     (case st of (p, round_count, con, ret) \<Rightarrow>
        let p1 = p\<lparr>use_index_' := use_index_' p + 1\<rparr>;
            round1 = round_count + 1;
            size = length (connections_' p1)
        in if size = 0 then faults DivByZero
           else let a = connections_' p1 ! (unat (scast (use_index_' p1) :: u64) mod size)
                in if a \<in> set (freed p1) then faults UseAfterFree
                   else if ready_' (con_at p1 a) then returns ((p1, round1, Some a, Some a), False)
                   else returns ((p1, round1, Some a, None), Some a = None \<and> unat round1 < size))"

definition get_client ::
  "('m, 'r) client_run \<Rightarrow> (('m, 'r) client_run \<times> nat option) outcome" where
  "get_client p =
     then_do (loop_while get_client_body (p, 0, None, None))
       (\<lambda>st. case st of (p1, round_count, con, ret) \<Rightarrow> returns (p1, ret))"

text \<open>\<open>current\<close>: does the calling thread have a message loop for \<open>MessageLoop::Current()\<close> to return?\<close>

definition PendingQuery ::
  "bool \<Rightarrow> session_id \<Rightarrow> int \<Rightarrow> ('m, 'r) client_run \<Rightarrow> ('m, 'r) client_run outcome" where
  "PendingQuery current query timeout p =
     then_do (get_client p)
       (\<lambda>(p1, connection).
          case connection of
            None \<Rightarrow>
              if \<not> current then faults NullDeref
              else returns (p1\<lparr>heap_of := (heap_of p1)(query := SetCode (- 1) ''connection not ready'' (heap_of p1 query)),
                          here_tasks := here_tasks p1 @ [query]\<rparr>)
          | Some a \<Rightarrow> returns (p1\<lparr>loop_tasks := loop_tasks p1 @ [RunStartQuery a query]\<rparr>))"

text \<open>The destructor: \<open>connections_.clear()\<close> drops the shared pointers one after the other.\<close>

fun clear_connections ::
  "nat list \<Rightarrow> ('m, 'r) client_run \<Rightarrow> ('m, 'r) client_run outcome" where
  "clear_connections [] p = returns (p\<lparr>connections_' := []\<rparr>)"
| "clear_connections (a # as) p =
     then_do (release_con a (p\<lparr>connections_' := as\<rparr>)) (clear_connections as)"

definition MysqlAsyncClientImpl_delete ::
  "('m, 'r) client_run \<Rightarrow> ('m, 'r) client_run outcome" where
  "MysqlAsyncClientImpl_delete p =
     then_do (clear_connections (connections_' p) p) (\<lambda>p1. returns (p1\<lparr>pool_freed := True\<rparr>))"

section \<open>The loops run the posted tasks\<close>

text \<open>A task of the connections' loop; it is already off the queue, and its bound pointer goes when it is done.\<close>

fun run_task ::
  "('m, 'r) mysql_api \<Rightarrow> pool_task \<Rightarrow> ('m, 'r) client_run \<Rightarrow> ('m, 'r) client_run outcome" where
  "run_task api (RunStartQuery a q) p = on_con a (StartQuery api True (Some q)) p"
| "run_task api (RunSyncClose a) p = then_do (on_con a (SyncClose api True) p) (release_con a)"
| "run_task api (RunCleanUp a ev to) p =
     returns (p\<lparr>con_at := (con_at p)(a := (con_at p a)\<lparr>trace := trace (con_at p a)
        @ (if ev then [RemoveFdEvent] else []) @ (if to then [RemoveTimeoutEvent] else [])\<rparr>)\<rparr>)"

definition run_front :: "('m, 'r) mysql_api \<Rightarrow> ('m, 'r) client_run \<Rightarrow> ('m, 'r) client_run outcome" where
  "run_front api p =
     (case loop_tasks p of
        [] \<Rightarrow> returns p
      | t # ts \<Rightarrow> run_task api t (p\<lparr>loop_tasks := ts\<rparr>))"

text \<open>Run the loop until no task is left.\<close>

definition drain_body ::
  "('m, 'r) mysql_api \<Rightarrow> ('m, 'r) client_run \<Rightarrow> (('m, 'r) client_run \<times> bool) outcome" where
  "drain_body api p =
     (if loop_tasks p = [] then returns (p, False)
      else then_do (run_front api p) (\<lambda>p1. returns (p1, True)))"

definition drain :: "('m, 'r) mysql_api \<Rightarrow> ('m, 'r) client_run \<Rightarrow> ('m, 'r) client_run outcome" where
  "drain api p = loop_while (drain_body api) p"

text \<open>The front task of the caller's own loop: \<open>OnQueryDone\<close> of a session no connection took.\<close>

definition run_here :: "('m, 'r) client_run \<Rightarrow> ('m, 'r) client_run" where
  "run_here p =
     (case here_tasks p of
        [] \<Rightarrow> p
      | q # qs \<Rightarrow>
          (case OnQueryDone (heap_of p q) of
             (s, cb) \<Rightarrow> p\<lparr>here_tasks := qs, heap_of := (heap_of p)(q := s),
                          done_here := done_here p @ [(q, cb)]\<rparr>))"

section \<open>Choosing a connection\<close>

lemma get_client_effect:
  assumes "connections_' p \<noteq> []" and "set (connections_' p) \<inter> set (freed p) = {}"
  defines "p1 \<equiv> p\<lparr>use_index_' := use_index_' p + 1\<rparr>"
    and "a \<equiv> connections_' p ! (unat (scast (use_index_' p + 1) :: u64) mod length (connections_' p))"
  shows "get_client p = returns (p1, if ready_' (con_at p a) then Some a else None)"
proof -
  have "a \<in> set (connections_' p)" unfolding a_def using assms(1) by (intro nth_mem) simp
  with assms(2) have "a \<notin> set (freed p)" by blast
  then show ?thesis
    using assms(1) by (simp add: get_client_def get_client_body_def a_def p1_def Let_def)
qed

end
