(* ===== verification/Mysql_Pool.thy ===== *)
theory Mysql_Pool
  imports Mysql_System Mysql_Client
begin

text \<open>
  The pool over its life: queries pended, the pool closed and deleted, the loops running their
  tasks, and the pump, the timers and the checkers waking the connections, in any order. The
  invariant \<open>pool_inv\<close> says who keeps a connection alive and accounts for every query.
\<close>

section \<open>The system\<close>

text \<open>
  \<open>asked\<close>: the queries pended so far. \<open>shut\<close>: \<open>Close\<close> was called and no query was pended since.
\<close>

record ('m, 'r) pool_sys =
  pool :: "('m, 'r) client_run"
  asked :: "session_id list"
  shut :: bool

abbreviation gone :: "('m, 'r) pool_sys \<Rightarrow> bool" where
  "gone P \<equiv> pool_freed (pool P)"

datatype pool_op =
    PendOp session_id
  | CloseOp
  | DeleteOp
  | TaskOp
  | HereOp
  | WakeOp nat con_op
  | WriteOp "session_id \<Rightarrow> QuerySession"

fun wakes :: "con_op \<Rightarrow> bool" where
  "wakes OpTimeOut = True"
| "wakes (OpWaitEvent ev) = True"
| "wakes OpCheck = True"
| "wakes _ = False"

text \<open>
  Users call the pool on a thread that has a loop, do not touch a deleted pool, and delete it after \<open>Close\<close>. A pump event fires while it is
  installed, whether its connection still exists or not; a checker stops with its connection.
\<close>

fun pool_enabled :: "pool_op \<Rightarrow> ('m, 'r) pool_sys \<Rightarrow> bool" where
  "pool_enabled (PendOp q) P \<longleftrightarrow> \<not> gone P"
| "pool_enabled CloseOp P \<longleftrightarrow> \<not> gone P"
| "pool_enabled DeleteOp P \<longleftrightarrow> \<not> gone P \<and> shut P"
| "pool_enabled (WakeOp a op) P \<longleftrightarrow>
     a < con_count (pool P) \<and> wakes op \<and> con_enabled op (con_at (pool P) a)
     \<and> (op = OpCheck \<longrightarrow> a \<notin> set (freed (pool P)))"
| "pool_enabled _ P \<longleftrightarrow> True"

definition in_pool ::
  "('m, 'r) pool_sys \<Rightarrow> ('m, 'r) client_run outcome \<Rightarrow> ('m, 'r) pool_sys outcome" where
  "in_pool P r = then_do r (\<lambda>p. returns (P\<lparr>pool := p\<rparr>))"

fun do_pool ::
  "('m, 'r) mysql_api \<Rightarrow> pool_op \<Rightarrow> ('m, 'r) pool_sys \<Rightarrow> ('m, 'r) pool_sys outcome" where
  "do_pool api (PendOp q) P = in_pool (P\<lparr>asked := asked P @ [q], shut := False\<rparr>) (PendingQuery True q 0 (pool P))"
| "do_pool api CloseOp P = returns (P\<lparr>pool := ClientClose (pool P), shut := True\<rparr>)"
| "do_pool api DeleteOp P = in_pool P (MysqlAsyncClientImpl_delete (pool P))"
| "do_pool api TaskOp P = in_pool P (run_front api (pool P))"
| "do_pool api HereOp P = returns (P\<lparr>pool := run_here (pool P)\<rparr>)"
| "do_pool api (WakeOp a op) P = in_pool P (on_con a (do_op api op) (pool P))"
| "do_pool api (WriteOp h) P = returns (P\<lparr>pool := (pool P)\<lparr>heap_of := h\<rparr>\<rparr>)"

inductive pool_step :: "('m, 'r) mysql_api \<Rightarrow> ('m, 'r) pool_sys \<Rightarrow> ('m, 'r) pool_sys \<Rightarrow> bool"
  for api :: "('m, 'r) mysql_api" where
  op: "pool_enabled op P \<Longrightarrow> do_pool api op P = returns Q \<Longrightarrow> pool_step api P Q"

definition pool_started :: "('m, 'r) mysql_api \<Rightarrow> ('m, 'r) pool_sys \<Rightarrow> bool" where
  "pool_started api P \<longleftrightarrow>
     asked P = [] \<and> \<not> shut P
     \<and> (\<exists>n index0 mem heap junk opt. 0 < n
          \<and> InitWithOption api junk opt (MysqlAsyncClientImpl_new n index0 mem heap) = returns (pool P))"

section \<open>The invariant\<close>

text \<open>The connection a task uses.\<close>

fun task_con :: "pool_task \<Rightarrow> nat option" where
  "task_con (RunStartQuery a q) = Some a"
| "task_con (RunSyncClose a) = Some a"
| "task_con (RunCleanUp a ev to) = None"

fun task_queries :: "pool_task list \<Rightarrow> session_id list" where
  "task_queries [] = []"
| "task_queries (RunStartQuery a q # ts) = q # task_queries ts"
| "task_queries (_ # ts) = task_queries ts"

text \<open>Every raw pointer to \<open>a\<close> in the queue is followed by a shared one.\<close>

fun covered :: "nat \<Rightarrow> pool_task list \<Rightarrow> bool" where
  "covered a [] = True"
| "covered a (RunStartQuery b q # ts) = ((b = a \<longrightarrow> RunSyncClose a \<in> set ts) \<and> covered a ts)"
| "covered a (_ # ts) = covered a ts"

definition shut_down :: "('m, 'r) con_run \<Rightarrow> bool" where
  "shut_down c \<longleftrightarrow> current_state_' c = CLOSE_DONE \<and> \<not> fd_event_' c"

text \<open>Nothing left to serve.\<close>

definition idle_con :: "('m, 'r) con_run \<Rightarrow> bool" where
  "idle_con c \<longleftrightarrow> in_process_' c = None \<and> query_list_' c = []"

text \<open>A task uses a connection that exists; a clean-up is for a deleted one, with no socket event.\<close>

fun task_ok :: "nat \<Rightarrow> nat list \<Rightarrow> pool_task \<Rightarrow> bool" where
  "task_ok n fs (RunStartQuery a q) = (a < n \<and> a \<notin> set fs)"
| "task_ok n fs (RunSyncClose a) = (a < n \<and> a \<notin> set fs)"
| "task_ok n fs (RunCleanUp a ev to) = (a \<in> set fs \<and> \<not> ev)"

definition conns_ok :: "('m, 'r) mysql_api \<Rightarrow> ('m, 'r) client_run \<Rightarrow> bool" where
  "conns_ok api p \<longleftrightarrow>
     (\<forall>a < con_count p. con_inv api (con_at p a))
     \<and> distinct (connections_' p)
     \<and> (\<forall>a \<in> set (freed p). a < con_count p \<and> a \<notin> set (connections_' p)
          \<and> shut_down (con_at p a) \<and> idle_con (con_at p a))
     \<and> list_all (task_ok (con_count p) (freed p)) (loop_tasks p)"

text \<open>
  Who keeps the connections alive once \<open>Close\<close> was called: a posted \<open>SyncClose\<close> that comes after every
  raw pointer, or the pool, and then the connection is shut down already.
\<close>

definition kept_but :: "nat set \<Rightarrow> ('m, 'r) client_run \<Rightarrow> bool" where
  "kept_but X p \<longleftrightarrow>
     (\<forall>a < con_count p. a \<notin> set (freed p) \<longrightarrow> covered a (loop_tasks p)
        \<and> (RunSyncClose a \<in> set (loop_tasks p) \<or> a \<in> set (connections_' p) \<and> shut_down (con_at p a)
           \<or> a \<in> X))"

definition pool_safe :: "('m, 'r) mysql_api \<Rightarrow> ('m, 'r) pool_sys \<Rightarrow> bool" where
  "pool_safe api P \<longleftrightarrow>
     conns_ok api (pool P)
     \<and> (if gone P then connections_' (pool P) = []
        else set (connections_' (pool P)) = {..< con_count (pool P)} \<and> connections_' (pool P) \<noteq> [])
     \<and> (shut P \<or> gone P \<longrightarrow> kept_but {} (pool P))"

text \<open>Every connection is shut down: the closes that were posted have run.\<close>

definition all_down :: "('m, 'r) client_run \<Rightarrow> bool" where
  "all_down p \<longleftrightarrow> (\<forall>a < con_count p. shut_down (con_at p a))"

definition con_queries :: "('m, 'r) client_run \<Rightarrow> session_id option multiset" where
  "con_queries p = (\<Sum>a < con_count p. mset (ledger (con_at p a)))"

text \<open>
  Where the queries are: still posted, with a connection (served, being served or queued), or
  turned away and finished by the caller's loop.
\<close>

definition pool_queries :: "('m, 'r) client_run \<Rightarrow> session_id option multiset" where
  "pool_queries p = con_queries p
     + mset (map Some (task_queries (loop_tasks p) @ here_tasks p @ map fst (done_here p)))"

definition pool_inv :: "('m, 'r) mysql_api \<Rightarrow> ('m, 'r) pool_sys \<Rightarrow> bool" where
  "pool_inv api P \<longleftrightarrow> pool_safe api P \<and> pool_queries (pool P) = mset (map Some (asked P))"

section \<open>Connections keep their part\<close>

lemma con_inv_sess [simp]: "con_inv api (c\<lparr>sess := h\<rparr>) = con_inv api c"
  by (simp add: con_inv_def row_fits_def)

lemma frame_sess [simp]:
  "ledger (c\<lparr>sess := h\<rparr>) = ledger c"
  "shut_down (c\<lparr>sess := h\<rparr>) = shut_down c"
  "con_enabled op (c\<lparr>sess := h\<rparr>) = con_enabled op c"
  "idle_con (c\<lparr>sess := h\<rparr>) = idle_con c"
  by (cases op; simp add: ledger_def current_def shut_down_def idle_con_def)+

lemma task_queries_append [simp]: "task_queries (ts @ us) = task_queries ts @ task_queries us"
  by (induction ts rule: task_queries.induct) simp_all

lemma task_queries_close [simp]: "task_queries (map RunSyncClose as) = []"
  by (induction as) simp_all

lemma covered_close [simp]: "covered a (ts @ map RunSyncClose as) \<longleftrightarrow> a \<in> set as \<or> covered a ts"
proof -
  have "covered a (map RunSyncClose as)" by (induction as) simp_all
  then show ?thesis by (induction a ts rule: covered.induct) auto
qed

lemma covered_cleanup [simp]: "covered a (ts @ [RunCleanUp b ev to]) = covered a ts"
  by (induction a ts rule: covered.induct) auto

lemma covered_tl: "covered a (t # ts) \<Longrightarrow> covered a ts"
  by (cases t) simp_all

lemma con_queries_upd:
  assumes "a < con_count p" and "ledger c = ledger (con_at p a) @ map Some new"
  shows "con_queries (p\<lparr>con_at := (con_at p)(a := c)\<rparr>) = con_queries p + mset (map Some new)"
proof -
  have "(\<Sum>b < n. mset (ledger (((con_at p)(a := c)) b))) =
      (\<Sum>b < n. mset (ledger (con_at p b))) + mset (map Some new)" if "a < n" for n
    using that assms(2)
  proof (induction n)
    case (Suc n)
    then show ?case by (cases "a = n") (simp_all add: ac_simps)
  qed simp
  with assms(1) show ?thesis by (simp add: con_queries_def)
qed

lemma con_queries_frame [simp]:
  "con_queries (p\<lparr>loop_tasks := ts\<rparr>) = con_queries p"
  "con_queries (p\<lparr>here_tasks := hs\<rparr>) = con_queries p"
  "con_queries (p\<lparr>done_here := ds\<rparr>) = con_queries p"
  "con_queries (p\<lparr>heap_of := h\<rparr>) = con_queries p"
  "con_queries (p\<lparr>freed := fs\<rparr>) = con_queries p"
  "con_queries (p\<lparr>use_index_' := i\<rparr>) = con_queries p"
  "con_queries (p\<lparr>connections_' := as\<rparr>) = con_queries p"
  by (simp_all add: con_queries_def)

text \<open>A connection that is shut down stays so, whatever is still run on it.\<close>

lemma shut_down_stays:
  assumes "shut_down c" and "con_inv api c" and "con_enabled op c" and "do_op api op c = returns d"
    and "wakes op \<or> (\<exists>q. op = OpStartQuery q)"
  shows "shut_down d"
proof (cases op)
  case OpTimeOut
  with assms(1-3) show ?thesis by (auto simp: shut_down_def con_inv_def)
next
  case (OpWaitEvent ev)
  with assms(1-3) show ?thesis by (auto simp: shut_down_def con_inv_def)
next
  case OpCheck
  with assms(1,4) show ?thesis
    by (auto simp: shut_down_def do_connection_check_def Let_def split: prod.splits if_splits)
next
  case (OpStartQuery q)
  with assms(1,4) show ?thesis by (auto simp: shut_down_def StartQuery_def Let_def)
qed (use assms(5) in simp_all)

text \<open>Nor does it call its client, and finishing queries does not.\<close>

lemma calls_client_trace [simp]:
  "trace d = trace c @ es \<Longrightarrow> calls_client c d = list_ex client_call es"
  "calls_client (c\<lparr>sess := h\<rparr>) d = calls_client c d"
  by (simp_all add: calls_client_def)

lemma no_client_call_close_log [simp]: "\<not> list_ex client_call (close_log qs h)"
  by (induction qs h rule: close_log.induct) (auto simp: fun_upd_def)

lemma shut_down_quiet:
  assumes "shut_down c" and "con_inv api c" and "con_enabled op c" and "do_op api op c = returns d"
    and "wakes op \<or> (\<exists>q. op = OpStartQuery q)"
  shows "\<not> calls_client c d"
proof (cases op)
  case OpTimeOut
  with assms(1-3) show ?thesis by (auto simp: shut_down_def con_inv_def)
next
  case (OpWaitEvent ev)
  with assms(1-3) show ?thesis by (auto simp: shut_down_def con_inv_def)
next
  case OpCheck
  with assms(4) have "trace d = trace c @ []"
    by (auto simp: do_connection_check_def Let_def split: prod.splits if_splits)
  then show ?thesis by simp
next
  case (OpStartQuery q)
  with assms(1,4) have "trace d = trace c @ []" by (auto simp: shut_down_def StartQuery_def Let_def)
  then show ?thesis by simp
qed (use assms(5) in simp_all)

lemma SyncClose_down:
  assumes "con_inv api c"
  shows "\<exists>d. SyncClose api True c = returns d \<and> shut_down d \<and> idle_con d \<and> con_inv api d
           \<and> ledger d = ledger c \<and> \<not> calls_client c d"
  using SyncClose_ok [OF assms] by (auto simp: SyncClose_effect con_inv_queue [OF assms] shut_down_def idle_con_def)

lemma delete_down:
  assumes "con_inv api c" and "shut_down c"
  shows "\<exists>d. MysqlAsyncConnect_delete c = returns d \<and> shut_down d \<and> idle_con d \<and> con_inv api d
           \<and> ledger d = ledger c \<and> timeout_' d \<and> \<not> calls_client c d"
proof -
  have q: "None \<notin> set (query_list_' c)" using assms(1) by (rule con_inv_queue)
  from assms close_log_ledger [OF q] show ?thesis
    by (auto simp: MysqlAsyncConnect_delete_def close_all_sessions_effect [OF q] Let_def emit_def
        shut_down_def idle_con_def con_unfolds)
qed

section \<open>What each part keeps\<close>

text \<open>An operation on one connection.\<close>

definition set_con ::
  "nat \<Rightarrow> ('m, 'r) con_run \<Rightarrow> (session_id \<Rightarrow> QuerySession) \<Rightarrow> ('m, 'r) client_run \<Rightarrow> ('m, 'r) client_run" where
  "set_con a c h p = p\<lparr>con_at := (con_at p)(a := c), heap_of := h\<rparr>"

lemma set_con_sel [simp]:
  "con_at (set_con a c h p) b = (if b = a then c else con_at p b)"
  "con_count (set_con a c h p) = con_count p"
  "connections_' (set_con a c h p) = connections_' p"
  "freed (set_con a c h p) = freed p"
  "loop_tasks (set_con a c h p) = loop_tasks p"
  "pool_freed (set_con a c h p) = pool_freed p"
  "here_tasks (set_con a c h p) = here_tasks p"
  "done_here (set_con a c h p) = done_here p"
  by (simp_all add: set_con_def)

lemma on_con_effect:
  "a \<notin> set (freed p) \<Longrightarrow> on_con a f p =
     then_do (f ((con_at p a)\<lparr>sess := heap_of p\<rparr>))
       (\<lambda>c. if pool_freed p \<and> calls_client (con_at p a) c then faults UseAfterFree
            else returns (set_con a c (sess c) p))"
  unfolding on_con_def set_con_def by simp

lemma conns_ok_con:
  assumes "conns_ok api p" and "con_inv api c" and "a \<in> set (freed p) \<longrightarrow> shut_down c \<and> idle_con c"
  shows "conns_ok api (set_con a c h p)"
  using assms by (auto simp: conns_ok_def)

lemma kept_con:
  assumes "kept_but X p" and "shut_down (con_at p a) \<longrightarrow> shut_down c"
  shows "kept_but X (set_con a c h p)"
  using assms by (auto simp: kept_but_def)

lemma con_queries_con:
  assumes "a < con_count p" and "ledger c = ledger (con_at p a) @ map Some new"
  shows "con_queries (set_con a c h p) = con_queries p + mset (map Some new)"
  unfolding set_con_def using con_queries_upd [OF assms] by simp

text \<open>The front task taken off the queue.\<close>

lemma conns_ok_tl:
  assumes "conns_ok api p" and "loop_tasks p = t # ts"
  shows "conns_ok api (p\<lparr>loop_tasks := ts\<rparr>)"
  using assms by (auto simp: conns_ok_def)

lemma kept_tl:
  assumes "kept_but X p" and "loop_tasks p = t # ts"
  shows "kept_but (X \<union> {a. t = RunSyncClose a}) (p\<lparr>loop_tasks := ts\<rparr>)"
  using assms covered_tl by (auto simp: kept_but_def)

lemma covered_raw: "covered a ts \<Longrightarrow> RunSyncClose a \<notin> set ts \<Longrightarrow> RunStartQuery a q \<notin> set ts"
  by (induction a ts rule: covered.induct) auto

lemma task_queries_filter: "task_queries (filter (\<lambda>t. task_con t \<noteq> None) ts) = task_queries ts"
  by (induction ts rule: task_queries.induct) simp_all

lemma task_con_iff: "task_con t = Some a \<longleftrightarrow> (\<exists>q. t = RunStartQuery a q) \<or> t = RunSyncClose a"
  by (cases t) auto

lemma task_ok_free:
  assumes "list_all (task_ok n fs) ts" and "RunSyncClose a \<notin> set ts" and "\<And>q. RunStartQuery a q \<notin> set ts"
  shows "list_all (task_ok n (fs @ [a])) ts"
proof -
  have "task_ok n (fs @ [a]) t" if "t \<in> set ts" for t
  proof (cases t)
    case (RunStartQuery b q)
    with that assms show ?thesis by (auto simp: list_all_iff)
  qed (use that assms in \<open>auto simp: list_all_iff\<close>)
  then show ?thesis by (simp add: list_all_iff)
qed

text \<open>A shared pointer that goes.\<close>

lemma release_ok:
  assumes ok: "conns_ok api p" and a: "a < con_count p" "a \<notin> set (freed p)"
    and down: "shut_down (con_at p a) \<or> RunSyncClose a \<in> set (loop_tasks p)"
    and kept: "a \<in> set (connections_' p) \<or> kept_but {a} p"
  shows "\<exists>p'. release_con a p = returns p' \<and> conns_ok api p' \<and> pool_queries p' = pool_queries p
           \<and> connections_' p' = connections_' p \<and> con_count p' = con_count p \<and> pool_freed p' = pool_freed p
           \<and> (kept_but {a} p \<longrightarrow> kept_but {} p')
           \<and> (\<forall>b. shut_down (con_at p b) \<longrightarrow> shut_down (con_at p' b))
           \<and> set (freed p') \<subseteq> insert a (set (freed p))
           \<and> filter (\<lambda>t. task_con t \<noteq> None) (loop_tasks p') = filter (\<lambda>t. task_con t \<noteq> None) (loop_tasks p)
           \<and> length (loop_tasks p') \<le> Suc (length (loop_tasks p))"
proof (cases "a \<in> set (connections_' p) \<or> RunSyncClose a \<in> set (loop_tasks p)")
  case True
  moreover have "kept_but {} p" if "kept_but {a} p"
    using that True down by (auto simp: kept_but_def)
  ultimately show ?thesis using ok by (auto simp: release_con_def)
next
  case False
  with down kept have down: "shut_down (con_at p a)" and kept: "kept_but {a} p" by auto
  have "con_inv api ((con_at p a)\<lparr>sess := heap_of p\<rparr>)" using ok a by (simp add: conns_ok_def)
  from delete_down [OF this] down obtain d where
    d: "MysqlAsyncConnect_delete ((con_at p a)\<lparr>sess := heap_of p\<rparr>) = returns d"
      "shut_down d" "idle_con d" "con_inv api d" "ledger d = ledger (con_at p a)" "timeout_' d"
      "\<not> calls_client (con_at p a) d"
    by auto
  let ?p1 = "set_con a d (sess d) p"
  let ?p' = "?p1\<lparr>freed := freed p @ [a], loop_tasks := loop_tasks p @ [RunCleanUp a False True]\<rparr>"
  have ev: "\<not> fd_event_' d" using d(2) by (simp add: shut_down_def)
  have run: "release_con a p = returns ?p'"
    using False a d ev by (simp add: release_con_def on_con_effect)
  have raw: "RunStartQuery a q \<notin> set (loop_tasks p)" for q
    using kept a False covered_raw by (auto simp: kept_but_def)
  have "conns_ok api ?p1" using conns_ok_con [OF ok d(4)] a by simp
  then have "conns_ok api ?p'" using d a False raw task_ok_free [of _ _ "loop_tasks p" a]
    by (auto simp: conns_ok_def)
  moreover have "kept_but {} ?p'" using kept by (auto simp: kept_but_def)
  moreover have "con_queries ?p1 = con_queries p" using con_queries_con [of a p d "[]"] a d(5) by simp
  then have "pool_queries ?p' = pool_queries p" by (simp add: pool_queries_def)
  ultimately show ?thesis using run d(2) by auto
qed

section \<open>Every operation keeps the invariant\<close>

text \<open>
  An operation of the pool keeps the invariant and accounts for the new queries; it does not fault, or it
  is not \<open>calm\<close>: a connection may call the deleted pool.
\<close>

definition pool_ok ::
  "('m, 'r) mysql_api \<Rightarrow> bool \<Rightarrow> ('m, 'r) pool_sys outcome \<Rightarrow> bool" where
  "pool_ok api calm r \<longleftrightarrow> (case r of None \<Rightarrow> True | Some (Inl f) \<Rightarrow> \<not> calm \<and> f = UseAfterFree
     | Some (Inr Q) \<Rightarrow> pool_inv api Q)"

lemma pool_ok_simps [simp]:
  "pool_ok api b None"
  "pool_ok api b (faults f) \<longleftrightarrow> \<not> b \<and> f = UseAfterFree"
  "pool_ok api b (returns Q) \<longleftrightarrow> pool_inv api Q"
  by (simp_all add: pool_ok_def)

lemma pool_safe_con:
  assumes "pool_safe api P" and "a \<notin> set (freed (pool P))" and "con_inv api c"
    and "shut_down (con_at (pool P) a) \<longrightarrow> shut_down c"
  shows "pool_safe api (P\<lparr>pool := set_con a c h (pool P)\<rparr>)"
  using assms conns_ok_con [of api "pool P" c a h] kept_con [of "{}" "pool P" a c h]
  by (auto simp: pool_safe_def)

lemma pool_con:
  assumes safe: "pool_safe api P" and a: "a < con_count (pool P)" "a \<notin> set (freed (pool P))"
    and op: "rows_have_width api" "con_enabled op (con_at (pool P) a)" "wakes op \<or> (\<exists>q. op = OpStartQuery q)"
    and total: "pool_queries (pool P) + mset (map Some (submitted [op])) = mset (map Some (asked P))"
    and down: "b \<Longrightarrow> gone P \<Longrightarrow> shut_down (con_at (pool P) a)"
  shows "pool_ok api b (in_pool P (on_con a (do_op api op) (pool P)))"
proof -
  let ?c = "(con_at (pool P) a)\<lparr>sess := heap_of (pool P)\<rparr>"
  have inv: "con_inv api ?c" using safe a by (simp add: pool_safe_def conns_ok_def)
  have ok: "op_ok api (submitted [op]) ?c (do_op api op ?c)"
    using do_op_ok [OF inv op(1)] op(2) by simp
  have eff: "on_con a (do_op api op) (pool P) =
      then_do (do_op api op ?c) (\<lambda>c. if gone P \<and> calls_client (con_at (pool P) a) c
        then faults UseAfterFree else returns (set_con a c (sess c) (pool P)))"
    using a(2) by (rule on_con_effect)
  show ?thesis
  proof (cases "do_op api op ?c")
    case None
    with eff show ?thesis by (simp add: in_pool_def)
  next
    case (Some r)
    with ok obtain d where d: "do_op api op ?c = returns d" by (cases r) auto
    with ok have led: "con_inv api d" "ledger d = ledger (con_at (pool P) a) @ map Some (submitted [op])"
      by auto
    have "shut_down (con_at (pool P) a) \<longrightarrow> shut_down d"
      using shut_down_stays [OF _ inv _ d op(3)] op(2) by simp
    moreover have "b \<Longrightarrow> gone P \<Longrightarrow> \<not> calls_client (con_at (pool P) a) d"
      using shut_down_quiet [OF _ inv _ d op(3)] down op(2) by simp
    ultimately
    show ?thesis
      using pool_safe_con [OF safe a(2) led(1)] con_queries_con [OF a(1) led(2)] total
      by (auto simp: eff d in_pool_def pool_inv_def pool_queries_def ac_simps)
  qed
qed

lemma pool_safe_task:
  assumes "pool_safe api P" and "loop_tasks (pool P) = t # ts" and "\<And>a. t \<noteq> RunSyncClose a"
  shows "pool_safe api (P\<lparr>pool := (pool P)\<lparr>loop_tasks := ts\<rparr>\<rparr>)"
  using assms conns_ok_tl [of api "pool P" t ts] kept_tl [of "{}" "pool P" t ts]
  by (auto simp: pool_safe_def)

lemma close_task:
  assumes safe: "pool_safe api P" and tasks: "loop_tasks (pool P) = RunSyncClose a # ts"
  shows "\<exists>p'. run_front api (pool P) = returns p' \<and> pool_safe api (P\<lparr>pool := p'\<rparr>)
           \<and> pool_queries p' = pool_queries (pool P) \<and> pool_freed p' = pool_freed (pool P)
           \<and> (all_down (pool P) \<longrightarrow> all_down p')
           \<and> filter (\<lambda>t. task_con t \<noteq> None) (loop_tasks p') = filter (\<lambda>t. task_con t \<noteq> None) ts
           \<and> length (loop_tasks p') \<le> Suc (length ts)"
proof -
  let ?p1 = "(pool P)\<lparr>loop_tasks := ts\<rparr>"
  let ?c = "(con_at (pool P) a)\<lparr>sess := heap_of (pool P)\<rparr>"
  have ok1: "conns_ok api ?p1" using safe tasks conns_ok_tl by (auto simp: pool_safe_def)
  have a: "a < con_count (pool P)" "a \<notin> set (freed (pool P))" and inv: "con_inv api ?c"
    using safe tasks by (auto simp: pool_safe_def conns_ok_def)
  from SyncClose_down [OF inv] obtain d where
    d: "SyncClose api True ?c = returns d" "shut_down d" "con_inv api d" "ledger d = ledger (con_at (pool P) a)"
      "\<not> calls_client (con_at (pool P) a) d" by auto
  let ?p2 = "set_con a d (sess d) ?p1"
  have ok2: "conns_ok api ?p2" using conns_ok_con [OF ok1 d(3)] a by simp
  have kept2: "kept_but {a} ?p2" if "kept_but {} (pool P)"
    using kept_con [OF kept_tl [OF that tasks], of a d "sess d"] d(2) by simp
  have here: "a \<in> set (connections_' ?p2) \<or> kept_but {a} ?p2"
    using safe a kept2 by (auto simp: pool_safe_def split: if_splits)
  have q: "pool_queries ?p2 = pool_queries (pool P)"
    using con_queries_con [of a ?p1 d "[]" "sess d"] a d(4) tasks by (simp add: pool_queries_def)
  from release_ok [OF ok2 _ _ _ here] a d(2) obtain p' where
    p': "release_con a ?p2 = returns p'" "conns_ok api p'" "pool_queries p' = pool_queries ?p2"
      "connections_' p' = connections_' ?p2" "con_count p' = con_count ?p2" "pool_freed p' = pool_freed ?p2"
      "kept_but {a} ?p2 \<longrightarrow> kept_but {} p'" "\<forall>b. shut_down (con_at ?p2 b) \<longrightarrow> shut_down (con_at p' b)"
      "filter (\<lambda>t. task_con t \<noteq> None) (loop_tasks p') = filter (\<lambda>t. task_con t \<noteq> None) (loop_tasks ?p2)"
      "length (loop_tasks p') \<le> Suc (length (loop_tasks ?p2))"
    by auto
  have "run_front api (pool P) = returns p'"
    using tasks a d(1,5) p'(1) by (simp add: run_front_def on_con_effect)
  moreover have "pool_safe api (P\<lparr>pool := p'\<rparr>)"
    using safe p' kept2 by (auto simp: pool_safe_def)
  moreover have "all_down (pool P) \<longrightarrow> all_down p'" using p'(5,8) d(2) by (simp add: all_down_def)
  ultimately show ?thesis using p' q by auto
qed

lemma clean_up_task:
  assumes safe: "pool_safe api P" and tasks: "loop_tasks (pool P) = RunCleanUp a ev to # ts"
  shows "\<exists>p'. run_front api (pool P) = returns p' \<and> pool_safe api (P\<lparr>pool := p'\<rparr>)
           \<and> pool_queries p' = pool_queries (pool P) \<and> loop_tasks p' = ts \<and> pool_freed p' = pool_freed (pool P)
           \<and> (all_down (pool P) \<longrightarrow> all_down p')"
proof -
  let ?p1 = "(pool P)\<lparr>loop_tasks := ts\<rparr>"
  let ?c = "con_at (pool P) a"
  let ?d = "?c\<lparr>trace := trace ?c @ (if to then [RemoveTimeoutEvent] else [])\<rparr>"
  let ?p' = "set_con a ?d (heap_of (pool P)) ?p1"
  have a: "a \<in> set (freed (pool P))" "\<not> ev" "a < con_count (pool P)" "con_inv api ?c" "shut_down ?c" "idle_con ?c"
    using safe tasks by (auto simp: pool_safe_def conns_ok_def)
  then have d: "con_inv api ?d" "shut_down ?d" "idle_con ?d" "ledger ?d = ledger ?c @ map Some []"
    by (auto simp: con_unfolds shut_down_def idle_con_def)
  have "run_front api (pool P) = returns ?p'"
    using tasks a(2) by (simp add: run_front_def set_con_def)
  moreover have "pool_safe api (P\<lparr>pool := ?p1\<rparr>)" using pool_safe_task [OF safe tasks] by simp
  then have "pool_safe api (P\<lparr>pool := ?p'\<rparr>)"
    using conns_ok_con [of api ?p1 ?d a] kept_con [of "{}" ?p1 a ?d] d by (auto simp: pool_safe_def)
  moreover have "pool_queries ?p' = pool_queries (pool P)"
    using con_queries_con [of a ?p1 ?d "[]"] a(3) d(4) tasks by (simp add: pool_queries_def)
  moreover have "all_down (pool P) \<longrightarrow> all_down ?p'" using d(2) by (auto simp: all_down_def shut_down_def)
  ultimately show ?thesis by auto
qed

lemma run_front_ok:
  assumes "pool_inv api P" and "rows_have_width api"
    and "b \<Longrightarrow> gone P \<Longrightarrow> all_down (pool P) \<or> task_queries (loop_tasks (pool P)) = []"
  shows "pool_ok api b (in_pool P (run_front api (pool P)))"
proof (cases "loop_tasks (pool P)")
  case Nil
  with assms show ?thesis by (simp add: run_front_def in_pool_def)
next
  case (Cons t ts)
  have safe: "pool_safe api P" using assms(1) by (simp add: pool_inv_def)
  let ?P1 = "P\<lparr>pool := (pool P)\<lparr>loop_tasks := ts\<rparr>\<rparr>"
  show ?thesis
  proof (cases t)
    case (RunStartQuery a q)
    have a: "a < con_count (pool P)" "a \<notin> set (freed (pool P))"
      using safe Cons RunStartQuery by (auto simp: pool_safe_def conns_ok_def)
    have "pool_queries (pool ?P1) + mset (map Some (submitted [OpStartQuery q])) = mset (map Some (asked P))"
      using assms(1) Cons RunStartQuery by (simp add: pool_inv_def pool_queries_def)
    then have "pool_ok api b (in_pool ?P1 (on_con a (do_op api (OpStartQuery q)) (pool ?P1)))"
      using pool_safe_task [OF safe Cons] RunStartQuery assms(2,3) a Cons
      by (intro pool_con) (auto simp: all_down_def)
    then show ?thesis using Cons RunStartQuery a by (simp add: run_front_def in_pool_def on_con_def)
  next
    case (RunSyncClose a)
    with close_task [OF safe] Cons assms(1) show ?thesis by (auto simp: in_pool_def pool_inv_def)
  next
    case (RunCleanUp a ev to)
    with clean_up_task [OF safe] Cons assms(1) show ?thesis by (auto simp: in_pool_def pool_inv_def)
  qed
qed

lemma none_freed:
  assumes "pool_inv api P" and "\<not> gone P"
  shows "freed (pool P) = []"
  using assms by (cases "freed (pool P)") (auto simp: pool_inv_def pool_safe_def conns_ok_def)

lemma pend_ok:
  assumes "pool_inv api P" and "\<not> gone P"
  shows "\<exists>Q. do_pool api (PendOp q) P = returns Q \<and> pool_inv api Q \<and> \<not> gone Q"
proof -
  have ne: "connections_' (pool P) \<noteq> []" "set (connections_' (pool P)) \<inter> set (freed (pool P)) = {}"
    and in_pool: "set (connections_' (pool P)) = {..< con_count (pool P)}"
    using assms by (auto simp: pool_inv_def pool_safe_def conns_ok_def)
  define a where "a = connections_' (pool P) !
    (unat (scast (use_index_' (pool P) + 1) :: u64) mod length (connections_' (pool P)))"
  have mem: "a \<in> set (connections_' (pool P))" unfolding a_def using ne(1) by (intro nth_mem) simp
  have a: "a < con_count (pool P)" "a \<notin> set (freed (pool P))" using mem ne(2) in_pool by auto
  note eff = get_client_effect [OF ne, folded a_def] and free = none_freed [OF assms]
  show ?thesis
  proof (cases "ready_' (con_at (pool P) a)")
    case True
    with eff assms a free show ?thesis
      by (simp add: PendingQuery_def in_pool_def pool_inv_def pool_safe_def conns_ok_def pool_queries_def
          con_queries_def)
  next
    case False
    with eff assms free show ?thesis
      by (simp add: PendingQuery_def in_pool_def pool_inv_def pool_safe_def conns_ok_def pool_queries_def
          con_queries_def)
  qed
qed

lemma close_ok:
  assumes "pool_inv api P" and "\<not> gone P"
  shows "pool_inv api (P\<lparr>pool := ClientClose (pool P), shut := True\<rparr>)"
proof -
  have conns: "set (connections_' (pool P)) = {..< con_count (pool P)}"
    using assms by (auto simp: pool_inv_def pool_safe_def conns_ok_def)
  have "list_all (task_ok (con_count (pool P)) (freed (pool P))) (map RunSyncClose (connections_' (pool P)))"
    using conns none_freed [OF assms] by (auto simp: list_all_iff)
  with assms conns none_freed [OF assms] show ?thesis
    by (auto simp: ClientClose_def pool_inv_def pool_safe_def conns_ok_def kept_but_def pool_queries_def
        con_queries_def)
qed

lemma clear_ok:
  assumes "conns_ok api p" and "kept_but {} p" and "connections_' p = as" and "set as \<subseteq> {..< con_count p}"
  shows "\<exists>p'. clear_connections as p = returns p' \<and> conns_ok api p' \<and> kept_but {} p'
           \<and> connections_' p' = [] \<and> pool_queries p' = pool_queries p
           \<and> (all_down p \<longrightarrow> all_down p')
           \<and> filter (\<lambda>t. task_con t \<noteq> None) (loop_tasks p') = filter (\<lambda>t. task_con t \<noteq> None) (loop_tasks p)"
  using assms
proof (induction as arbitrary: p)
  case Nil
  then show ?case by (simp add: conns_ok_def kept_but_def pool_queries_def all_down_def)
next
  case (Cons a as)
  let ?p = "p\<lparr>connections_' := as\<rparr>"
  have ok: "conns_ok api ?p" and a: "a < con_count p" "a \<notin> set (freed p)" and new: "a \<notin> set as"
    using Cons.prems by (auto simp: conns_ok_def)
  have kept: "kept_but {a} ?p" using Cons.prems(2,3) by (auto simp: kept_but_def)
  have down: "shut_down (con_at p a) \<or> RunSyncClose a \<in> set (loop_tasks p)"
    using Cons.prems(2) a by (auto simp: kept_but_def)
  from release_ok [OF ok _ _ _ disjI2 [OF kept]] a down kept obtain p1 where
    p1: "release_con a ?p = returns p1" "conns_ok api p1" "pool_queries p1 = pool_queries ?p"
      "connections_' p1 = as" "con_count p1 = con_count p" "kept_but {} p1"
      "\<forall>b. shut_down (con_at p b) \<longrightarrow> shut_down (con_at p1 b)"
      "filter (\<lambda>t. task_con t \<noteq> None) (loop_tasks p1) = filter (\<lambda>t. task_con t \<noteq> None) (loop_tasks p)" by auto
  from Cons.IH [OF p1(2,6,4)] p1(5) Cons.prems(4) obtain p' where
    "clear_connections as p1 = returns p'" "conns_ok api p'" "kept_but {} p'" "connections_' p' = []"
    "pool_queries p' = pool_queries p1" "all_down p1 \<longrightarrow> all_down p'"
    "filter (\<lambda>t. task_con t \<noteq> None) (loop_tasks p') = filter (\<lambda>t. task_con t \<noteq> None) (loop_tasks p1)" by auto
  with p1 show ?case by (auto simp: pool_queries_def all_down_def)
qed

lemma pool_freed_frame [simp]:
  "conns_ok api (p\<lparr>pool_freed := b\<rparr>) = conns_ok api p"
  "kept_but X (p\<lparr>pool_freed := b\<rparr>) = kept_but X p"
  "all_down (p\<lparr>pool_freed := b\<rparr>) = all_down p"
  "pool_queries (p\<lparr>pool_freed := b\<rparr>) = pool_queries p"
  by (simp_all add: conns_ok_def kept_but_def all_down_def pool_queries_def con_queries_def)

lemma delete_ok:
  assumes "pool_inv api P" and "\<not> gone P" and "shut P"
  shows "\<exists>Q. do_pool api DeleteOp P = returns Q \<and> pool_inv api Q \<and> gone Q \<and> asked Q = asked P
           \<and> (all_down (pool P) \<longrightarrow> all_down (pool Q))
           \<and> task_queries (loop_tasks (pool Q)) = task_queries (loop_tasks (pool P))"
proof -
  have "conns_ok api (pool P)" "kept_but {} (pool P)" "set (connections_' (pool P)) \<subseteq> {..< con_count (pool P)}"
    using assms by (auto simp: pool_inv_def pool_safe_def)
  from clear_ok [OF this(1,2) refl this(3)] obtain p' where
    p': "clear_connections (connections_' (pool P)) (pool P) = returns p'" "conns_ok api p'" "kept_but {} p'"
    "connections_' p' = []" "pool_queries p' = pool_queries (pool P)" "all_down (pool P) \<longrightarrow> all_down p'"
    and tasks: "filter (\<lambda>t. task_con t \<noteq> None) (loop_tasks p') = filter (\<lambda>t. task_con t \<noteq> None) (loop_tasks (pool P))"
    by auto
  have "task_queries (loop_tasks p') = task_queries (loop_tasks (pool P))"
    using tasks task_queries_filter by metis
  with p' assms(1) show ?thesis
    by (auto simp: MysqlAsyncClientImpl_delete_def in_pool_def pool_inv_def pool_safe_def)
qed

lemma pool_safe_frame [simp]:
  "pool_safe api (P\<lparr>pool := (pool P)\<lparr>heap_of := h\<rparr>\<rparr>) = pool_safe api P"
  "pool_safe api (P\<lparr>pool := (pool P)\<lparr>here_tasks := hs, heap_of := h, done_here := ds\<rparr>\<rparr>) = pool_safe api P"
  by (simp_all add: pool_safe_def conns_ok_def kept_but_def)

lemma do_pool_ok:
  assumes "pool_inv api P" and "rows_have_width api" and "pool_enabled op P"
  shows "pool_ok api (gone P \<longrightarrow> all_down (pool P)) (do_pool api op P)"
proof (cases op)
  case (PendOp q)
  with pend_ok [OF assms(1), of q] assms(3) show ?thesis by auto
next
  case CloseOp
  with close_ok [OF assms(1)] assms(3) show ?thesis by simp
next
  case DeleteOp
  with delete_ok [OF assms(1)] assms(3) show ?thesis by auto
next
  case TaskOp
  with run_front_ok [OF assms(1,2), of "gone P \<longrightarrow> all_down (pool P)"] show ?thesis by simp
next
  case HereOp
  have "pool_inv api (P\<lparr>pool := run_here (pool P)\<rparr>)"
    using assms(1) by (auto simp: run_here_def pool_inv_def pool_queries_def split: list.splits prod.splits)
  with HereOp show ?thesis by simp
next
  case (WakeOp a w)
  with assms have en: "a < con_count (pool P)" "wakes w" "con_enabled w (con_at (pool P) a)"
    and safe: "pool_safe api P" by (auto simp: pool_inv_def)
  have live: "a \<notin> set (freed (pool P))"
    using safe en assms(3) WakeOp
    by (cases w) (auto simp: pool_safe_def conns_ok_def shut_down_def con_inv_def)
  have "submitted [w] = []" using en(2) by (cases w) simp_all
  then have "pool_ok api (gone P \<longrightarrow> all_down (pool P)) (in_pool P (on_con a (do_op api w) (pool P)))"
    using en assms(1) by (intro pool_con [OF safe en(1) live assms(2)]) (auto simp: pool_inv_def all_down_def)
  with WakeOp show ?thesis by simp
next
  case (WriteOp h)
  with assms(1) show ?thesis by (simp add: pool_inv_def pool_queries_def)
qed

section \<open>Starting the pool\<close>

text \<open>A pool as \<open>InitWithOption\<close> builds it: \<open>n\<close> connections, each started, ready and with no query.\<close>

definition built :: "('m, 'r) mysql_api \<Rightarrow> ('m, 'r) client_run \<Rightarrow> bool" where
  "built api p \<longleftrightarrow>
     connections_' p = [0 ..< con_count p] \<and> \<not> pool_freed p \<and> freed p = [] \<and> loop_tasks p = [] \<and> here_tasks p = []
     \<and> done_here p = []
     \<and> (\<forall>a < con_count p. con_started api (con_at p a) \<and> ready_' (con_at p a)
          \<and> current_state_' (con_at p a) = CONNECTION_IDLE)"

lemma init_connections_built:
  assumes "init_connections api junk opt n p = returns p'" and "built api p"
  shows "built api p' \<and> con_count p' = con_count p + n"
  using assms
proof (induction n arbitrary: p)
  case 0
  then show ?case by simp
next
  case (Suc n)
  obtain err0 state0 handle0 option0 where j: "junk (con_count p) = (err0, state0, handle0, option0)"
    by (cases "junk (con_count p)") auto
  let ?con = "MysqlAsyncConnect_new err0 state0 handle0 option0 True (heap_of p)"
  obtain c ok where c: "SyncConnect api (InitConnection api opt ?con) = (c, ok)" by fastforce
  let ?p = "p\<lparr>con_at := (con_at p)(con_count p := c), con_count := Suc (con_count p),
    connections_' := connections_' p @ [con_count p]\<rparr>"
  from Suc.prems(1) j c have ok: ok and rest: "init_connections api junk opt n ?p = returns p'"
    by (auto simp: Let_def split: if_splits)
  have "SyncConnect api (InitConnection api opt ?con) = (c, True)" using c ok by simp
  then have "con_started api c" unfolding con_started_def Let_def by blast
  moreover have "ready_' c" "current_state_' c = CONNECTION_IDLE"
    using c ok by (auto simp: SyncConnect_def emit_def Let_def split: prod.splits if_splits)
  ultimately have "built api ?p" using Suc.prems(2) by (auto simp: built_def less_Suc_eq)
  from Suc.IH [OF rest this] show ?case by simp
qed

lemma InitWithOption_built:
  assumes "InitWithOption api junk opt (MysqlAsyncClientImpl_new n index0 mem heap) = returns p"
  shows "built api p \<and> con_count p = nat n"
proof -
  have "built api (MysqlAsyncClientImpl_new n index0 mem heap)"
    by (simp add: built_def MysqlAsyncClientImpl_new_def)
  from init_connections_built [OF assms [unfolded InitWithOption_def] this] show ?thesis
    by (simp add: MysqlAsyncClientImpl_new_def)
qed

lemma pool_started_inv:
  assumes "pool_started api P"
  shows "pool_inv api P"
proof -
  from assms have P: "asked P = []" "\<not> shut P" and b: "built api (pool P)" "0 < con_count (pool P)"
    using InitWithOption_built by (fastforce simp: pool_started_def)+
  have "con_inv api (con_at (pool P) a)" "ledger (con_at (pool P) a) = []" if "a < con_count (pool P)" for a
  proof -
    have "con_started api (con_at (pool P) a)" using b that by (simp add: built_def)
    then show "con_inv api (con_at (pool P) a)" "ledger (con_at (pool P) a) = []"
      by (rule con_started_inv)+
  qed
  with P b show ?thesis
    by (auto simp: pool_inv_def pool_safe_def conns_ok_def pool_queries_def con_queries_def built_def)
qed

interpretation pool_life: invariant_system "pool_started api" "pool_step api"
  "\<lambda>P. rows_have_width api \<longrightarrow> pool_inv api P" for api :: "('m, 'r) mysql_api"
proof
  fix P :: "('m, 'r) pool_sys"
  assume "pool_started api P"
  then show "rows_have_width api \<longrightarrow> pool_inv api P" by (blast intro: pool_started_inv)
next
  fix P Q :: "('m, 'r) pool_sys"
  assume inv: "rows_have_width api \<longrightarrow> pool_inv api P" and "pool_step api P Q"
  from this(2) obtain op where "pool_enabled op P" "do_pool api op P = returns Q"
    by (auto elim: pool_step.cases)
  with inv show "rows_have_width api \<longrightarrow> pool_inv api Q" using do_pool_ok [of api P op] by auto
qed

section \<open>Deleting the pool when its connections are shut down\<close>

text \<open>Runs in which the pool is deleted once the closes it posted have run.\<close>

inductive careful_step :: "('m, 'r) mysql_api \<Rightarrow> ('m, 'r) pool_sys \<Rightarrow> ('m, 'r) pool_sys \<Rightarrow> bool"
  for api :: "('m, 'r) mysql_api" where
  op: "pool_enabled op P \<Longrightarrow> op \<noteq> DeleteOp \<or> all_down (pool P) \<Longrightarrow> do_pool api op P = returns Q \<Longrightarrow>
     careful_step api P Q"

lemma on_con_down:
  assumes "pool_inv api P" and "all_down (pool P)" and "a < con_count (pool P)"
    and "con_enabled op (con_at (pool P) a)" and "wakes op \<or> (\<exists>q. op = OpStartQuery q)"
    and "on_con a (do_op api op) (p\<lparr>loop_tasks := ts\<rparr>) = returns p'" and "p = pool P"
  shows "all_down p'"
proof -
  let ?c = "(con_at (pool P) a)\<lparr>sess := heap_of (pool P)\<rparr>"
  from assms(6,7) obtain d where d: "do_op api op ?c = returns d" and p': "p' = set_con a d (sess d) (p\<lparr>loop_tasks := ts\<rparr>)"
    by (auto simp: on_con_def set_con_def then_do_returns_iff split: if_splits)
  have "shut_down ?c" "con_inv api ?c"
    using assms(1-3) by (auto simp: pool_inv_def pool_safe_def conns_ok_def all_down_def)
  from shut_down_stays [OF this _ d assms(5)] assms(4) have "shut_down d" by simp
  with assms(2,7) p' show ?thesis by (simp add: all_down_def)
qed

lemma do_pool_down:
  assumes inv: "pool_inv api P" and down: "all_down (pool P)" and en: "pool_enabled op P" and run: "do_pool api op P = returns Q"
  shows "all_down (pool Q)"
proof (cases op)
  case (PendOp q)
  with en inv have "connections_' (pool P) \<noteq> []" "set (connections_' (pool P)) \<inter> set (freed (pool P)) = {}"
    by (auto simp: pool_inv_def pool_safe_def conns_ok_def)
  from get_client_effect [OF this] run PendOp down show ?thesis
    by (auto simp: in_pool_def PendingQuery_def then_do_returns_iff all_down_def split: if_splits)
next
  case DeleteOp
  with delete_ok [OF inv] en run down show ?thesis by auto
next
  case TaskOp
  have safe: "pool_safe api P" using inv by (simp add: pool_inv_def)
  show ?thesis
  proof (cases "loop_tasks (pool P)")
    case (Cons t ts)
    show ?thesis
    proof (cases t)
      case (RunStartQuery a q)
      with safe Cons have "a < con_count (pool P)" by (auto simp: pool_safe_def conns_ok_def)
      moreover have start: "do_op api (OpStartQuery q) = StartQuery api True (Some q)" by (rule ext) simp
      ultimately
      show ?thesis
        using on_con_down [OF inv down, of a "OpStartQuery q" ts "pool P"] run TaskOp Cons RunStartQuery
        by (auto simp: in_pool_def run_front_def then_do_returns_iff start)
    next
      case (RunSyncClose a)
      with close_task [OF safe, of a ts] Cons TaskOp run down show ?thesis by (auto simp: in_pool_def)
    next
      case (RunCleanUp a ev to)
      with clean_up_task [OF safe, of a ev to ts] Cons TaskOp run down show ?thesis by (auto simp: in_pool_def)
    qed
  qed (use run down TaskOp in \<open>simp add: in_pool_def run_front_def\<close>)
next
  case (WakeOp a w)
  with run obtain p' where "on_con a (do_op api w) (pool P) = returns p'" "pool Q = p'"
    by (auto simp: in_pool_def then_do_returns_iff)
  with on_con_down [OF inv down, of a w "loop_tasks (pool P)" "pool P"] en WakeOp show ?thesis by simp
qed (use run down in \<open>auto simp: all_down_def ClientClose_def run_here_def split: list.splits prod.splits\<close>)

lemma do_pool_gone: "do_pool api op P = returns Q \<Longrightarrow> pool_inv api P \<Longrightarrow> pool_enabled op P \<Longrightarrow>
    gone Q \<longleftrightarrow> gone P \<or> op = DeleteOp"
proof -
  assume run: "do_pool api op P = returns Q" and inv: "pool_inv api P" and en: "pool_enabled op P"
  have safe: "pool_safe api P" using inv by (simp add: pool_inv_def)
  have on: "on_con a f p = returns p' \<Longrightarrow> pool_freed p' = pool_freed p" for a f and p p' :: "('a, 'b) client_run"
    by (auto simp: on_con_def then_do_returns_iff split: if_splits)
  show ?thesis
  proof (cases op)
    case (PendOp q)
    with pend_ok [OF inv, of q] en run show ?thesis by auto
  next
    case DeleteOp
    with delete_ok [OF inv] en run show ?thesis by auto
  next
    case TaskOp
    show ?thesis
    proof (cases "loop_tasks (pool P)")
      case (Cons t ts)
      show ?thesis
      proof (cases t)
        case (RunStartQuery a q)
        with run TaskOp Cons show ?thesis
          by (auto simp: in_pool_def run_front_def then_do_returns_iff dest!: on)
      next
        case (RunSyncClose a)
        with close_task [OF safe, of a ts] Cons TaskOp run show ?thesis by (auto simp: in_pool_def)
      next
        case (RunCleanUp a ev to)
        with clean_up_task [OF safe, of a ev to ts] Cons TaskOp run show ?thesis by (auto simp: in_pool_def)
      qed
    qed (use run TaskOp in \<open>simp add: in_pool_def run_front_def\<close>)
  next
    case (WakeOp a w)
    with run show ?thesis by (auto simp: in_pool_def then_do_returns_iff dest!: on)
  qed (use run in \<open>auto simp: ClientClose_def run_here_def split: list.splits prod.splits\<close>)
qed

interpretation careful_life: invariant_system "pool_started api" "careful_step api"
  "\<lambda>P. rows_have_width api \<longrightarrow> pool_inv api P \<and> (gone P \<longrightarrow> all_down (pool P))" for api :: "('m, 'r) mysql_api"
proof
  fix P :: "('m, 'r) pool_sys"
  assume P: "pool_started api P"
  then have "\<not> gone P" using InitWithOption_built by (fastforce simp: pool_started_def built_def)
  with P show "rows_have_width api \<longrightarrow> pool_inv api P \<and> (gone P \<longrightarrow> all_down (pool P))"
    by (blast intro: pool_started_inv)
next
  fix P Q :: "('m, 'r) pool_sys"
  assume inv: "rows_have_width api \<longrightarrow> pool_inv api P \<and> (gone P \<longrightarrow> all_down (pool P))" and "careful_step api P Q"
  from this(2) obtain op where op: "pool_enabled op P" "op \<noteq> DeleteOp \<or> all_down (pool P)" "do_pool api op P = returns Q"
    by (auto elim: careful_step.cases)
  show "rows_have_width api \<longrightarrow> pool_inv api Q \<and> (gone Q \<longrightarrow> all_down (pool Q))"
  proof
    assume w: "rows_have_width api"
    with inv have P: "pool_inv api P" "gone P \<longrightarrow> all_down (pool P)" by auto
    from do_pool_ok [OF P(1) w op(1)] op(3) have "pool_inv api Q" by simp
    with do_pool_gone [OF op(3) P(1) op(1)] do_pool_down [OF P(1) _ op(1,3)] P(2) op(2)
    show "pool_inv api Q \<and> (gone Q \<longrightarrow> all_down (pool Q))" by blast
  qed
qed

section \<open>The loop runs empty\<close>

definition task_load :: "('m, 'r) client_run \<Rightarrow> nat" where
  "task_load p = length (filter (\<lambda>t. task_con t \<noteq> None) (loop_tasks p)) + length (loop_tasks p)"

text \<open>
  \<open>P\<close> gives the rest of the system, which the loop does not change. When the pool is deleted no query
  waits to be started, so that no connection calls the pool.
\<close>

definition drain_inv ::
  "('m, 'r) mysql_api \<Rightarrow> ('r \<Rightarrow> nat) \<Rightarrow> ('r \<Rightarrow> nat) \<Rightarrow> ('m, 'r) pool_sys \<Rightarrow> ('m, 'r) client_run \<Rightarrow> bool" where
  "drain_inv api rows cols P p \<longleftrightarrow>
     rows_have_width api \<and> result_sets_end api rows cols \<and> pool_inv api (P\<lparr>pool := p\<rparr>)
     \<and> pool_freed p = gone P \<and> (gone P \<longrightarrow> task_queries (loop_tasks p) = [])"

lemma front_runs:
  assumes inv: "drain_inv api rows cols P p" and tasks: "loop_tasks p = t # ts"
  shows "\<exists>p'. run_front api p = returns p' \<and> drain_inv api rows cols P p' \<and> task_load p' < task_load p"
proof -
  let ?P = "P\<lparr>pool := p\<rparr>"
  from inv have safe: "pool_safe api ?P" and w: "rows_have_width api" "result_sets_end api rows cols"
    and pinv: "pool_inv api ?P" by (auto simp: drain_inv_def pool_inv_def)
  have calm: "pool_freed p \<Longrightarrow> task_queries (loop_tasks p) = []" using inv by (simp add: drain_inv_def)
  have ok: "pool_ok api True (in_pool ?P (run_front api p))" using run_front_ok [OF pinv w(1), of True] calm by simp
  have "\<exists>p'. run_front api p = returns p' \<and> task_load p' < task_load p
      \<and> pool_freed p' = pool_freed p \<and> (pool_freed p' \<longrightarrow> task_queries (loop_tasks p') = [])"
  proof (cases t)
    case (RunStartQuery a q)
    let ?c = "(con_at p a)\<lparr>sess := heap_of p\<rparr>"
    have a: "a \<notin> set (freed p)" and c: "con_inv api ?c"
      using safe tasks RunStartQuery by (auto simp: pool_safe_def conns_ok_def)
    from do_op_returns [OF c w, of "OpStartQuery q"] obtain d where
      "StartQuery api True (Some q) ?c = returns d" by auto
    with a tasks RunStartQuery calm show ?thesis by (auto simp: run_front_def on_con_effect task_load_def)
  next
    case (RunSyncClose a)
    from close_task [OF safe, of a ts] tasks RunSyncClose obtain p' where
      p': "run_front api p = returns p'" "pool_freed p' = pool_freed p" "length (loop_tasks p') \<le> Suc (length ts)"
      and t: "filter (\<lambda>t. task_con t \<noteq> None) (loop_tasks p') = filter (\<lambda>t. task_con t \<noteq> None) ts" by auto
    have "task_queries (loop_tasks p') = task_queries ts" using t task_queries_filter by metis
    with p' t tasks RunSyncClose calm show ?thesis by (auto simp: task_load_def)
  next
    case (RunCleanUp a ev to)
    with clean_up_task [OF safe, of a ev to ts] tasks calm show ?thesis by (fastforce simp: task_load_def)
  qed
  with ok w inv show ?thesis by (auto simp: drain_inv_def in_pool_def)
qed

interpretation drain_end: measured_loop "drain_body api" "drain_inv api rows cols P"
  "measure task_load" for api :: "('m, 'r) mysql_api" and rows cols P
proof
  fix p p' :: "('m, 'r) client_run" and go
  assume inv: "drain_inv api rows cols P p" and run: "drain_body api p = returns (p', go)"
  show "drain_inv api rows cols P p'"
  proof (cases "loop_tasks p")
    case (Cons t ts)
    with front_runs [OF inv] run show ?thesis by (auto simp: drain_body_def)
  qed (use inv run in \<open>simp add: drain_body_def\<close>)
next
  fix p p' :: "('m, 'r) client_run"
  assume inv: "drain_inv api rows cols P p" and run: "drain_body api p = returns (p', True)"
  then show "(p', p) \<in> measure task_load"
    using front_runs [OF inv] by (cases "loop_tasks p") (auto simp: drain_body_def)
next
  fix p :: "('m, 'r) client_run" and f
  assume inv: "drain_inv api rows cols P p"
  then show "drain_body api p \<noteq> faults f" and "drain_body api p \<noteq> None"
    using front_runs [OF inv] by (cases "loop_tasks p"; auto simp: drain_body_def)+
qed simp

lemma drain_empty:
  assumes "drain_inv api rows cols P p"
  shows "\<exists>p'. drain api p = returns p' \<and> drain_inv api rows cols P p' \<and> loop_tasks p' = []"
proof -
  from drain_end.loop_returns [OF assms] obtain p' where p': "loop_while (drain_body api) p = returns p'" by blast
  from drain_end.loop_result [OF p' assms] obtain u where
    "drain_inv api rows cols P p'" "drain_body api u = returns (p', False)" by auto
  with p' show ?thesis by (auto simp: drain_def drain_body_def then_do_returns_iff split: if_splits)
qed

end
