(* ===== verification/Mysql_Results.thy ===== *)
theory Mysql_Results
  imports Mysql_System
begin

text \<open>
  What a query delivers: the rows and headers the state machine stores in the session are the
  ones the client library hands out, in order, with null cells written as the text \<open>NULL\<close>. The
  library's result set is described by the streams \<open>field_stream\<close> and \<open>row_stream\<close> it gives when
  asked.
\<close>

section \<open>Streams of a result set\<close>

text \<open>\<open>field_stream api r names r'\<close>: \<open>r\<close> describes the fields \<open>names\<close> and then ends as \<open>r'\<close>.\<close>

inductive field_stream :: "('m, 'r) mysql_api \<Rightarrow> 'r \<Rightarrow> string list \<Rightarrow> 'r \<Rightarrow> bool"
  for api :: "('m, 'r) mysql_api" where
  no_field: "mysql_fetch_field api r = (None, r') \<Longrightarrow> field_stream api r [] r'"
| a_field: "mysql_fetch_field api r = (Some name, r1) \<Longrightarrow> field_stream api r1 names r'
     \<Longrightarrow> field_stream api r (name # names) r'"

text \<open>
  \<open>row_stream api r m rows r' m'\<close>: asked row by row, \<open>r\<close> gives \<open>rows\<close> without waiting, each as wide
  as \<open>mysql_num_fields\<close> says, and then ends as \<open>r'\<close>.
\<close>

inductive row_stream ::
  "('m, 'r) mysql_api \<Rightarrow> 'r \<Rightarrow> 'm \<Rightarrow> string option list list \<Rightarrow> 'r \<Rightarrow> 'm \<Rightarrow> bool"
  for api :: "('m, 'r) mysql_api" where
  no_row: "\<forall>row. mysql_fetch_row_start api row r m = (0, None, r', m') \<Longrightarrow> row_stream api r m [] r' m'"
| a_row: "\<forall>row. mysql_fetch_row_start api row r m = (0, Some x, r1, m1)
     \<Longrightarrow> length x = unat (mysql_num_fields api r1) \<Longrightarrow> row_stream api r1 m1 rows r' m'
     \<Longrightarrow> row_stream api r m (x # rows) r' m'"

text \<open>A whole result set: its fields are described after the first row, if there is one.\<close>

fun result_stream ::
  "('m, 'r) mysql_api \<Rightarrow> 'r \<Rightarrow> 'm \<Rightarrow> string list \<Rightarrow> string option list list \<Rightarrow> 'r \<Rightarrow> 'm \<Rightarrow> bool" where
  "result_stream api r m names [] r' m' = row_stream api r m [] r' m'"
| "result_stream api r m names (x # rows) r' m' =
     (\<exists>r1 m1 r2. (\<forall>row. mysql_fetch_row_start api row r m = (0, Some x, r1, m1))
        \<and> field_stream api r1 names r2 \<and> length x = unat (mysql_num_fields api r2)
        \<and> row_stream api r2 m1 rows r' m')"

section \<open>The machine reads a stream\<close>

lemma ParseResultDesc_stream:
  assumes "field_stream api r names r'" and "result_' s = ResLive r"
  shows "ParseResultDesc api q s =
    returns (s\<lparr>result_' := ResLive r',
               sess := (sess s)(q := (sess s q)\<lparr>colum_names_' := colum_names_' (sess s q) @ names\<rparr>)\<rparr>)"
  using assms
proof (induction arbitrary: s rule: field_stream.induct)
  case (no_field r r')
  then have "ParseResultDesc_body api q s = returns (s\<lparr>result_' := ResLive r'\<rparr>, False)"
    by (simp add: ParseResultDesc_body_def)
  then show ?case by (simp add: ParseResultDesc_def)
next
  case (a_field r name r1 names r')
  let ?s1 = "on_session q (PushHeader name) (s\<lparr>result_' := ResLive r1\<rparr>)"
  have "ParseResultDesc_body api q s = returns (?s1, True)"
    using a_field by (simp add: ParseResultDesc_body_def)
  with a_field.IH [of ?s1] show ?case
    by (simp add: ParseResultDesc_def on_session_def PushHeader_def fun_upd_def cong: if_cong)
qed

lemma HandleState_go:
  "HandleState_body api in_loop ev s = returns (s1, True) \<Longrightarrow>
     HandleState api in_loop ev s = HandleState api in_loop ev s1"
  by (simp add: HandleState_def)

text \<open>The state after the last row of the current query, whose session is \<open>qs\<close> by then.\<close>

definition after_rows ::
  "('m, 'r) mysql_api \<Rightarrow> session_id \<Rightarrow> QuerySession \<Rightarrow> 'r \<Rightarrow> 'm \<Rightarrow> ('m, 'r) con_run \<Rightarrow> ('m, 'r) con_run" where
  "after_rows api q qs r m s =
     (let qs1 = SetResultRows (ucast (mysql_num_rows api r)) qs;
          m1 = mysql_free_result api r m;
          code = mysql_errno api m
      in s\<lparr>current_state_' := CONNECTION_IDLE, mysql_' := m1, result_' := ResFreed, result_row_' := None,
           sess := (sess s)(q := done_session api code
                      (if code \<noteq> 0 then Some (mysql_error api m) else None) m1 qs1),
           trace := trace s @ [QueryDone q (finish_callback_' qs)], in_process_' := None\<rparr>)"

lemma end_of_rows:
  assumes "in_process_' s = Some q" and "result_' s = ResLive r" and "result_row_' s = None"
    and "current_state_' s = FETCH_ROW_RESULT_READY"
  shows "HandleState api in_loop ev s =
    HandleState api in_loop ev (after_rows api q (sess s q) r (mysql_' s) s)"
proof (rule HandleState_go)
  show "HandleState_body api in_loop ev s = returns (after_rows api q (sess s q) r (mysql_' s) s, True)"
    using assms
    by (simp add: HandleState_body_def fetch_row_result_ready_def DoneCurrentQuery_effect Let_def
        after_rows_def on_session_def SetResultRows_def)
qed

lemma rows_read:
  assumes "row_stream api r m rows r' m'"
    and "in_process_' s = Some q" and "result_' s = ResLive r" and "mysql_' s = m"
    and "current_state_' s = FETCH_ROW_START" and "colum_names_' (sess s q) \<noteq> []"
  shows "HandleState api in_loop ev s = HandleState api in_loop ev
    (after_rows api q ((sess s q)\<lparr>results_' := results_' (sess s q) @ map (map copy_cell) rows\<rparr>) r' m' s)"
  using assms
proof (induction arbitrary: s rule: row_stream.induct)
  case (no_row r m r' m')
  let ?s1 = "s\<lparr>mysql_' := m', result_' := ResLive r', result_row_' := None,
               current_state_' := FETCH_ROW_RESULT_READY\<rparr>"
  have "HandleState_body api in_loop ev s = returns (?s1, True)"
    using no_row by (simp add: HandleState_body_def go_next_state_now)
  from HandleState_go [OF this] end_of_rows [of ?s1 q r' api in_loop ev] no_row show ?case
    by (simp add: after_rows_def)
next
  case (a_row r m x r1 m1 rows r' m')
  let ?s1 = "s\<lparr>mysql_' := m1, result_' := ResLive r1, result_row_' := Some x,
               current_state_' := FETCH_ROW_RESULT_READY\<rparr>"
  let ?s2 = "(on_session q (PendingRow (map copy_cell x)) ?s1)\<lparr>current_state_' := FETCH_ROW_START\<rparr>"
  have "HandleState_body api in_loop ev s = returns (?s1, True)"
    using a_row by (simp add: HandleState_body_def go_next_state_now)
  moreover have "HandleState_body api in_loop ev ?s1 = returns (?s2, True)"
    using a_row by (simp add: HandleState_body_def fetch_row_result_ready_def copy_row_def go_next_state_now)
  ultimately have "HandleState api in_loop ev s = HandleState api in_loop ev ?s2"
    by (simp add: HandleState_go)
  with a_row.IH [of ?s2] a_row.prems show ?case
    by (simp add: on_session_def PendingRow_def after_rows_def Let_def)
qed

lemma result_read:
  assumes "result_stream api r m names rows r' m'" and "names \<noteq> []"
    and "mysql_use_result api (mysql_' s) = (Some r, m)"
    and "in_process_' s = Some q" and "colum_names_' (sess s q) = []"
    and "current_state_' s = QUERY_RESULT_READY"
  shows "HandleState api in_loop ev s = HandleState api in_loop ev
    (after_rows api q ((sess s q)\<lparr>colum_names_' := (if rows = [] then [] else names),
                                  results_' := results_' (sess s q) @ map (map copy_cell) rows\<rparr>) r' m' s)"
proof -
  let ?s0 = "s\<lparr>mysql_' := m, result_' := ResLive r, current_state_' := FETCH_ROW_START\<rparr>"
  have start: "HandleState api in_loop ev s = HandleState api in_loop ev ?s0"
    by (rule HandleState_go) (use assms in \<open>simp add: HandleState_body_def go_next_state_now\<close>)
  show ?thesis
  proof (cases rows)
    case Nil
    have same: "(sess s q)\<lparr>colum_names_' := []\<rparr> = sess s q"
      by (rule QuerySession.equality) (simp_all add: assms)
    from Nil assms(1) have "\<forall>row. mysql_fetch_row_start api row r m = (0, None, r', m')"
      by (auto elim: row_stream.cases)
    then have "HandleState_body api in_loop ev ?s0 =
        returns (?s0\<lparr>mysql_' := m', result_' := ResLive r', result_row_' := None,
                     current_state_' := FETCH_ROW_RESULT_READY\<rparr>, True)"
      by (simp add: HandleState_body_def go_next_state_now)
    from HandleState_go [OF this] start Nil assms end_of_rows [of "?s0\<lparr>mysql_' := m', result_' := ResLive r',
        result_row_' := None, current_state_' := FETCH_ROW_RESULT_READY\<rparr>" q r' api in_loop ev]
    show ?thesis by (simp add: after_rows_def Let_def same)
  next
    case (Cons x xs)
    with assms(1) obtain r1 m1 r2 where
      first: "\<forall>row. mysql_fetch_row_start api row r m = (0, Some x, r1, m1)" and
      fs: "field_stream api r1 names r2" and len: "length x = unat (mysql_num_fields api r2)" and
      rest: "row_stream api r2 m1 xs r' m'" by auto
    let ?s1 = "?s0\<lparr>mysql_' := m1, result_' := ResLive r1, result_row_' := Some x,
                   current_state_' := FETCH_ROW_RESULT_READY\<rparr>"
    let ?s2 = "?s1\<lparr>result_' := ResLive r2, current_state_' := FETCH_ROW_START,
        sess := (sess s)(q := (sess s q)\<lparr>colum_names_' := names,
                                         results_' := results_' (sess s q) @ [map copy_cell x]\<rparr>)\<rparr>"
    have "HandleState_body api in_loop ev ?s0 = returns (?s1, True)"
      using first by (simp add: HandleState_body_def go_next_state_now)
    moreover have "HandleState_body api in_loop ev ?s1 = returns (?s2, True)"
      using assms(4,5) len ParseResultDesc_stream [OF fs, of ?s1 q]
      by (simp add: HandleState_body_def fetch_row_result_ready_def copy_row_def go_next_state_now
          on_session_def PendingRow_def)
    ultimately have "HandleState api in_loop ev s = HandleState api in_loop ev ?s2"
      using start by (simp add: HandleState_go)
    with rows_read [OF rest, of ?s2 q in_loop ev] assms Cons show ?thesis
      by (simp add: after_rows_def Let_def)
  qed
qed

end
