(* ===== verification/Mysql_Theorems.thy ===== *)
theory Mysql_Theorems
  imports Mysql_Results
begin

text \<open>
  The properties of a \<open>MysqlAsyncConnect\<close>. Each is followed by its instance at a small client
  library, \<open>sample_api\<close>: one result set of two rows, given without waiting once the query was
  sent, for which the socket must be readable first.
\<close>

section \<open>A sample client library\<close>

type_synonym sample_res = "string option list list \<times> string list \<times> u32"

definition pad_row :: "nat \<Rightarrow> string option list \<Rightarrow> string option list" where
  "pad_row n x = take n (x @ replicate n None)"

lemma length_pad_row [simp]: "length (pad_row n x) = n"
  by (simp add: pad_row_def)

fun sample_fetch_row :: "sample_res \<Rightarrow> nat \<Rightarrow> u32 \<times> MYSQL_ROW \<times> sample_res \<times> nat" where
  "sample_fetch_row ([], fs, w) m = (0, None, ([], fs, w), m)"
| "sample_fetch_row (x # xs, fs, w) m = (0, Some (pad_row (unat w) x), (xs, fs, w), m)"

fun sample_fetch_field :: "sample_res \<Rightarrow> string option \<times> sample_res" where
  "sample_fetch_field (xs, [], w) = (None, (xs, [], w))"
| "sample_fetch_field (xs, f # fs, w) = (Some f, (xs, fs, w))"

definition sample_api :: "(nat, sample_res) mysql_api" where
  "sample_api =
     \<lparr>mysql_init = (\<lambda>m. 0),
      mysql_options = (\<lambda>opt m. m),
      mysql_real_connect = (\<lambda>h u p d port m. (True, m)),
      mysql_real_connect_start = (\<lambda>ret h u p d port m. (1, ret, m)),
      mysql_real_connect_cont = (\<lambda>ret ev m. (0, True, m)),
      mysql_select_db_start = (\<lambda>db m. (0, 0, m)),
      mysql_select_db_cont = (\<lambda>ev m. (0, 0, m)),
      mysql_real_query_start = (\<lambda>sql m. (9, 0, m)),
      mysql_real_query_cont = (\<lambda>ev m. (0, if m = 0 then 0 else 1064, m)),
      mysql_use_result = (\<lambda>m. (Some ([[Some ''1'', None], [Some ''2'', Some ''x'']], [''id'', ''name''], 2), m)),
      mysql_fetch_row_start = (\<lambda>row r m. sample_fetch_row r m),
      mysql_fetch_row_cont = (\<lambda>row ev r m. sample_fetch_row r m),
      mysql_fetch_field = sample_fetch_field,
      mysql_num_fields = (\<lambda>(xs, fs, w). w),
      mysql_num_rows = (\<lambda>r. 2),
      mysql_free_result = (\<lambda>r m. m),
      mysql_affected_rows = (\<lambda>m. - 1),
      mysql_errno = (\<lambda>m. 0),
      mysql_error = (\<lambda>m. ''''),
      mysql_close_start = (\<lambda>m. (0, m)),
      mysql_close_cont = (\<lambda>ev m. (0, m)),
      mysql_close = (\<lambda>m. m),
      mysql_ping = (\<lambda>m. (0, m)),
      mysql_get_socket = (\<lambda>m. 7),
      mysql_get_timeout_value = (\<lambda>m. 5),
      MYSQL_WAIT_READ = 1, MYSQL_WAIT_WRITE = 2, MYSQL_WAIT_EXCEPT = 4, MYSQL_WAIT_TIMEOUT = 8,
      LT_EVENT_READ = 1, LT_EVENT_WRITE = 2, LT_EVENT_ERROR = 4,
      CR_UNKNOWN_ERROR = 2000, CR_SERVER_GONE_ERROR = 2006,
      CR_OUT_OF_MEMORY = 2008, CR_SERVER_LOST = 2013,
      IsAttached = timer_after False\<rparr>"

lemma sample_sel [simp]:
  "mysql_fetch_row_start sample_api row r m = sample_fetch_row r m"
  "mysql_fetch_row_cont sample_api row ev r m = sample_fetch_row r m"
  "mysql_fetch_field sample_api = sample_fetch_field"
  "mysql_num_fields sample_api r = snd (snd r)"
  "mysql_real_query_start sample_api sql m = (9, 0, m)"
  "mysql_real_query_cont sample_api ev m = (0, if m = 0 then 0 else 1064, m)"
  "mysql_use_result sample_api m =
     (Some ([[Some ''1'', None], [Some ''2'', Some ''x'']], [''id'', ''name''], 2), m)"
  "mysql_num_rows sample_api r = 2"
  "mysql_free_result sample_api r m = m"
  "mysql_affected_rows sample_api m = - 1"
  "mysql_errno sample_api m = 0"
  "mysql_get_socket sample_api m = 7"
  "mysql_get_timeout_value sample_api m = 5"
  "mysql_real_connect sample_api h u p d n m = (True, m)"
  "mysql_init sample_api m = 0"
  "mysql_options sample_api opt m = m"
  "MYSQL_WAIT_READ sample_api = 1" "MYSQL_WAIT_WRITE sample_api = 2"
  "MYSQL_WAIT_EXCEPT sample_api = 4" "MYSQL_WAIT_TIMEOUT sample_api = 8"
  "LT_EVENT_READ sample_api = 1" "LT_EVENT_WRITE sample_api = 2" "LT_EVENT_ERROR sample_api = 4"
  "IsAttached sample_api = timer_after False"
  by (simp_all add: sample_api_def case_prod_beta)

definition sample_options :: MysqlOptions where
  "sample_options = \<lparr>host = ''db'', port = 3306, user = ''root'', passwd = '''', dbname = ''mysql'',
     query_timeout = 5000\<rparr>"

definition sample_heap :: "session_id \<Rightarrow> QuerySession" where
  "sample_heap q = Then (Some (40 + q)) (Query ''select'' New)"

definition sample_start :: "(nat, sample_res) con_run" where
  "sample_start = fst (SyncConnect sample_api (InitConnection sample_api sample_options
     (MysqlAsyncConnect_new 0 STATE_NONE 0 sample_options True sample_heap)))"

lemma sample_row_cases:
  "sample_fetch_row r m = (st, row, r1, m1) \<Longrightarrow> st = 0 \<and> (case row of
      None \<Rightarrow> r1 = r \<and> fst r = []
    | Some x \<Rightarrow> length x = unat (snd (snd r1)) \<and> fst r \<noteq> [] \<and> fst r1 = tl (fst r))"
  by (induction r m rule: sample_fetch_row.induct) auto

lemma sample_field_width: "snd (snd (snd (sample_fetch_field r))) = snd (snd r)"
  by (induction r rule: sample_fetch_field.induct) simp_all

lemma sample_width: "rows_have_width sample_api"
  unfolding rows_have_width_def sample_sel
  using sample_row_cases sample_field_width by fastforce

lemma sample_ends:
  "result_sets_end sample_api (\<lambda>r. length (fst r)) (\<lambda>r. length (fst (snd r)))"
proof -
  have "sample_fetch_field r = (x, r1) \<Longrightarrow> length (fst r1) \<le> length (fst r)
      \<and> (x \<noteq> None \<longrightarrow> length (fst (snd r1)) < length (fst (snd r)))" for r x r1
    by (induction r rule: sample_fetch_field.induct) auto
  moreover have "sample_fetch_row r m = (0, x, r1, m1) \<Longrightarrow>
      if x = None then length (fst r1) \<le> length (fst r) else length (fst r1) < length (fst r)" for r m x r1 m1
    by (induction r m rule: sample_fetch_row.induct) auto
  ultimately show ?thesis unfolding result_sets_end_def sample_sel by blast
qed

lemma sample_started: "con_started sample_api sample_start"
proof -
  let ?c = "InitConnection sample_api sample_options
     (MysqlAsyncConnect_new 0 STATE_NONE 0 sample_options True sample_heap)"
  have "SyncConnect sample_api ?c = (sample_start, True)"
    by (simp add: sample_start_def SyncConnect_def Let_def)
  then show ?thesis unfolding con_started_def Let_def by blast
qed

lemma sample_reachable: "reachable (con_started sample_api) (con_step sample_api) sample_start"
  by (rule reachable.start) (rule sample_started)

section \<open>Safety and progress\<close>



text \<open>C2: Every operation on such a connection returns, and leaves it in a state where the
  machine's assumptions hold again, provided result sets end.\<close>

theorem connection_ops_return:
  assumes "rows_have_width api" and "result_sets_end api rows cols"
    and "reachable (con_started api) (con_step api) s"
    and "con_enabled op s"
  shows "\<exists>t. do_op api op s = returns t \<and> con_inv api t"
proof -
  from con_sys.reachable_inv [OF assms(3)] assms(1) have inv: "con_inv api s" by blast
  from do_op_returns [OF inv assms(1,2,4)] do_op_ok [OF inv assms(1,4)] show ?thesis by auto
qed

theorem connection_ops_return_witness:
  "rows_have_width sample_api
   \<and> (\<exists>t. do_op sample_api (OpStartQuery 3) sample_start = returns t \<and> con_inv sample_api t)"
  using connection_ops_return [OF sample_width sample_ends sample_reachable,
      of "OpStartQuery 3"] sample_width by simp

text \<open>C6: The state machine run on a wake-up returns, and where it returns it waits for the
  socket, or is idle with no query left and no close scheduled, or has closed and dropped its
  queue.\<close>

theorem machine_comes_to_rest:
  assumes "rows_have_width api" and "result_sets_end api rows cols" and "con_inv api s"
  shows "\<exists>t. HandleState api True ev s = returns t \<and> con_inv api t \<and> at_rest t"
proof -
  obtain t where t: "HandleState api True ev s = returns t"
    using HandleState_returns [OF assms(3,1,2)] by blast
  from HandleState_result [OF assms(3,1) t] t show ?thesis by auto
qed

theorem machine_comes_to_rest_witness:
  "con_inv sample_api sample_start
   \<and> (\<exists>t. HandleState sample_api True 0 sample_start = returns t \<and> con_inv sample_api t \<and> at_rest t)"
  using machine_comes_to_rest [OF sample_width sample_ends con_started_inv(1) [OF sample_started], of 0]
    con_started_inv(1) [OF sample_started] by simp

section \<open>Order and completion of queries\<close>

text \<open>C3: Queries are served in the order they were submitted, none lost and none served twice:
  in every run, the sessions finished so far, then the one in process, then the queue, are the
  sessions submitted, in order.\<close>

theorem queries_served_in_order:
  assumes "rows_have_width api" and "con_started api s" and "run_ops api ops s = returns t"
  shows "map Some (served (trace t)) @ current t @ query_list_' t = map Some (submitted ops)"
  using run_ops_ok [OF con_started_inv(1) [OF assms(2)] assms(1), of ops] assms(3)
    con_started_inv(2) [OF assms(2)] by (simp add: ledger_def)

lemma sample_start_eq:
  "sample_start =
     \<lparr>err_no_' = 0, current_state_' = CONNECTION_IDLE, mysql_' = 0, mysql_ret_' = True,
      result_' = ResNull, result_row_' = None, option_' = sample_options, client_' = True,
      fd_event_' = False, timeout_' = True, ready_' = True, schedule_close_' = False,
      last_selected_db_' = '''', in_process_' = None, query_list_' = [],
      sess = sample_heap, trace = [NewTimeoutEvent 5000, StartChecker 60000]\<rparr>"
  by (simp add: sample_start_def SyncConnect_def emit_def Let_def InitConnection_def
      MysqlAsyncConnect_new_def sample_options_def)

definition sample_waiting :: "(nat, sample_res) con_run" where
  "sample_waiting = sample_start\<lparr>in_process_' := Some 3, current_state_' := QUERY_WAIT, fd_event_' := True,
     trace := [NewTimeoutEvent 5000, StartChecker 60000, InstallFdEvent 7, EnableReading, DisableWriting,
               UpdateInterval 5000, AddTimeoutEvent]\<rparr>"

lemma sample_query: "StartQuery sample_api True (Some 3) sample_start = returns sample_waiting"
proof -
  let ?s1 = "sample_start\<lparr>in_process_' := Some 3, current_state_' := QUERY_START\<rparr>"
  have "HandleState_body sample_api True 0 (sample_start\<lparr>query_list_' := [Some 3]\<rparr>) = returns (?s1, True)"
    by (simp add: HandleState_body_def HandleStateIDLE_def sample_start_eq sample_heap_def session_defs)
  moreover have "HandleState_body sample_api True 0 ?s1 = returns (sample_waiting, False)"
    by (simp add: HandleState_body_def sample_start_eq sample_heap_def session_defs sample_waiting_def
        go_next_state_def WaitMysqlStatus_def emit_def)
  ultimately show ?thesis
    by (simp add: StartQuery_def HandleState_def sample_start_eq)
qed

lemma sample_run: "run_ops sample_api [OpStartQuery 3] sample_start = returns sample_waiting"
  by (simp add: sample_query)

theorem queries_served_in_order_witness:
  "run_ops sample_api [OpStartQuery 3] sample_start = returns sample_waiting
   \<and> map Some (served (trace sample_waiting)) @ current sample_waiting @ query_list_' sample_waiting = [Some 3]"
  using queries_served_in_order [OF sample_width sample_started sample_run] sample_run by simp

lemma callbacks_run_unserved: "q \<notin> set (served es) \<Longrightarrow> callbacks_run q es = 0"
  by (induction q es rule: callbacks_run.induct) (auto simp: served_def)

text \<open>C4: A session's callback runs exactly when the session is finished, and once: over a run in
  which no user writes to the sessions, the callbacks run for a session are the one it was
  submitted with if it has been finished (even if it was submitted several times), else none.\<close>

theorem callback_exactly_once:
  assumes "rows_have_width api" and "con_started api s" and "run_ops api ops s = returns t"
    and "\<forall>op \<in> set ops. \<not> user_op op"
  shows "callbacks_run q (trace t) = (if q \<in> set (served (trace t)) then armed (sess s q) else 0)"
proof -
  have "callbacks t q = armed (sess s q)" and "settled t"
    using run_ops_callbacks [OF con_started_inv(1) [OF assms(2)] assms(1,4,3)]
      con_started_inv(3,4) [OF assms(2)] by auto
  then show ?thesis by (auto simp: callbacks_def settled_def callbacks_run_unserved)
qed

lemma sample_close:
  "SyncClose sample_api True sample_waiting = returns (sample_waiting
     \<lparr>sess := sample_heap(3 := closed_session (sample_heap 3)),
      trace := trace sample_waiting @ [RemoveFdEvent, RemoveTimeoutEvent, QueryDone 3 (Some 43)],
      in_process_' := None, fd_event_' := False, ready_' := False, current_state_' := CLOSE_DONE\<rparr>)"
  by (subst SyncClose_effect)
    (simp_all add: sample_waiting_def sample_start_eq current_def sample_heap_def session_defs
      sample_api_def)

theorem callback_exactly_once_witness:
  "\<exists>t. run_ops sample_api [OpStartQuery 3, OpSyncClose] sample_start = returns t
     \<and> callbacks_run 3 (trace t) = 1"
proof -
  obtain t where t: "SyncClose sample_api True sample_waiting = returns t"
    and "served (trace t) = [3]"
    using sample_close by (auto simp: sample_waiting_def sample_start_eq)
  then have run: "run_ops sample_api [OpStartQuery 3, OpSyncClose] sample_start = returns t"
    by (simp add: sample_query)
  from callback_exactly_once [OF sample_width sample_started run, of 3] \<open>served (trace t) = [3]\<close>
  have "callbacks_run 3 (trace t) = 1"
    by (simp add: sample_start_eq sample_heap_def session_defs armed_def)
  with run show ?thesis by blast
qed

lemma close_heap_closed:
  "Some q \<in> set qs \<Longrightarrow> None \<notin> set qs \<Longrightarrow>
     code_' (close_heap qs h q) = - 1 \<and> err_message_' (close_heap qs h q) = ''closed''"
proof (induction qs h rule: close_heap.induct)
  case (3 p qs h)
  show ?case
  proof (cases "Some q \<in> set qs")
    case True
    with 3 show ?thesis by (simp add: fun_upd_def)
  next
    case False
    have "close_heap qs h' q = h' q" for h'
      using False by (induction qs h' rule: close_heap.induct) auto
    with 3 False show ?thesis by (simp add: closed_session_def SetCode_def)
  qed
qed auto





text \<open>Destroying a connection finishes every session it still holds, in order, with code -1
  and message \<open>closed\<close>, and stops its checker.\<close>

theorem delete_finishes_everything:
  assumes "None \<notin> set (query_list_' s)"
  shows "\<exists>t. MysqlAsyncConnect_delete s = returns t
           \<and> map Some (served (trace t)) = ledger s
           \<and> (\<forall>q. Some q \<in> set (current s @ query_list_' s) \<longrightarrow>
                code_' (sess t q) = - 1 \<and> err_message_' (sess t q) = ''closed'')
           \<and> last (trace t) = StopChecker"
proof -
  have "None \<notin> set (current s @ query_list_' s)"
    using assms by (auto simp: current_def split: option.splits)
  from close_heap_closed [OF _ this] close_log_ledger [OF assms] show ?thesis
    by (simp add: MysqlAsyncConnect_delete_def close_all_sessions_effect [OF assms] Let_def emit_def
        ledger_def)
qed

theorem delete_finishes_everything_witness:
  "\<exists>t. MysqlAsyncConnect_delete sample_waiting = returns t \<and> served (trace t) = [3]"
  using delete_finishes_everything [of sample_waiting]
  by (fastforce simp: sample_waiting_def sample_start_eq ledger_def current_def)

section \<open>Results and errors of a query\<close>




text \<open>C8: A query the server refuses at once is finished with the library's code and message, its
  callback runs, and the connection is closed exactly for the four fatal client errors; on any
  other error it goes back to idle.\<close>

theorem refused_query_is_reported:
  assumes "current_state_' s = QUERY_START" and "in_process_' s = Some q" and "query_' (sess s q) \<noteq> ''''"
    and "mysql_real_query_start api (query_' (sess s q)) (mysql_' s) = (status, err, m)" and "err \<noteq> 0"
  shows "\<exists>t. HandleState_body api in_loop ev s = returns (t, True)
           \<and> code_' (sess t q) = err \<and> err_message_' (sess t q) = mysql_error api m
           \<and> in_process_' t = None \<and> query_list_' t = query_list_' s
           \<and> trace t = trace s @ [QueryDone q (finish_callback_' (sess s q))]
           \<and> current_state_' t =
               (if err \<in> {CR_SERVER_LOST api, CR_UNKNOWN_ERROR api, CR_OUT_OF_MEMORY api, CR_SERVER_GONE_ERROR api}
                then CLOSE_START else CONNECTION_IDLE)"
  using assms
  by (simp add: HandleState_body_def query_failed_effect done_session_def session_defs IsFatalError_def Let_def)

definition refusing_api :: "(nat, sample_res) mysql_api" where
  "refusing_api = sample_api\<lparr>mysql_real_query_start := (\<lambda>sql m. (0, 2006, m))\<rparr>"

theorem refused_query_is_reported_witness:
  "\<exists>t. HandleState_body refusing_api True 0 (sample_waiting\<lparr>current_state_' := QUERY_START\<rparr>) = returns (t, True)
     \<and> code_' (sess t 3) = 2006 \<and> current_state_' t = CLOSE_START"
  using refused_query_is_reported [of "sample_waiting\<lparr>current_state_' := QUERY_START\<rparr>" 3 refusing_api 0 2006 0 True 0]
  by (auto simp: sample_waiting_def sample_start_eq sample_heap_def session_defs refusing_api_def sample_api_def)



text \<open>C10: \<open>Close\<close> on a reachable connection only records the wish: it never runs the state
  machine, so a connection that is idle with an empty queue stays open. (The test asks for a
  query about to start with no query in process, which never happens.)\<close>

theorem close_never_closes:
  assumes "rows_have_width api" and "reachable (con_started api) (con_step api) s"
  shows "Close api True s = returns (s\<lparr>schedule_close_' := True\<rparr>)"
  using con_sys.reachable_inv [OF assms(2)] assms(1) Close_effect by blast

theorem close_never_closes_witness:
  "Close sample_api True sample_start = returns (sample_start\<lparr>schedule_close_' := True\<rparr>)
   \<and> current_state_' sample_start = CONNECTION_IDLE"
  using close_never_closes [OF sample_width sample_reachable] by (simp add: sample_start_eq)

section \<open>Waiting and status words\<close>

text \<open>What the last calls left as the interest in reading, and in writing.\<close>

fun read_after :: "bool \<Rightarrow> con_event list \<Rightarrow> bool" where
  "read_after a [] = a"
| "read_after a (EnableReading # es) = read_after True es"
| "read_after a (DisableReading # es) = read_after False es"
| "read_after a (DisableAll # es) = read_after False es"
| "read_after a (_ # es) = read_after a es"

fun write_after :: "bool \<Rightarrow> con_event list \<Rightarrow> bool" where
  "write_after a [] = a"
| "write_after a (EnableWriting # es) = write_after True es"
| "write_after a (DisableWriting # es) = write_after False es"
| "write_after a (DisableAll # es) = write_after False es"
| "write_after a (_ # es) = write_after a es"

lemma read_after_append [simp]: "read_after a (es @ fs) = read_after (read_after a es) fs"
  by (induction a es rule: read_after.induct) simp_all

lemma write_after_append [simp]: "write_after a (es @ fs) = write_after (write_after a es) fs"
  by (induction a es rule: write_after.induct) simp_all

text \<open>A wait asks the pump for exactly what the library asked for: reading and writing are
  on or off as the status word says, whatever they were before; when the word asks for a
  timeout the timer is added, with the library's seconds as milliseconds; and the socket event
  is installed.\<close>

theorem wait_registers_the_status:
  assumes "timeout_' s" and "fd_event_' s = socket_after False (trace s)"
  shows "\<exists>t. WaitMysqlStatus api status s = returns t
           \<and> read_after False (trace t) = (status AND MYSQL_WAIT_READ api \<noteq> 0)
           \<and> write_after False (trace t) = (status AND MYSQL_WAIT_WRITE api \<noteq> 0)
           \<and> socket_after False (trace t) \<and> fd_event_' t
           \<and> (status AND MYSQL_WAIT_TIMEOUT api \<noteq> 0 \<longrightarrow>
                timer_after False (trace t)
                \<and> UpdateInterval (1000 * mysql_get_timeout_value api (mysql_' s)) \<in> set (trace t))"
proof -
  note t = WaitMysqlStatus_effect [OF assms(1), of api status]
  have "read_after a (wait_calls api status s) = (status AND MYSQL_WAIT_READ api \<noteq> 0)"
    "write_after a (wait_calls api status s) = (status AND MYSQL_WAIT_WRITE api \<noteq> 0)" for a
    by (simp_all add: wait_calls_def Let_def)
  moreover have "status AND MYSQL_WAIT_TIMEOUT api \<noteq> 0 \<Longrightarrow> timer_after a (wait_calls api status s)
      \<and> UpdateInterval (1000 * mysql_get_timeout_value api (mysql_' s)) \<in> set (wait_calls api status s)" for a
    by (simp add: wait_calls_def Let_def)
  ultimately show ?thesis using t assms(2) by simp
qed

theorem wait_registers_the_status_witness:
  "\<exists>t. WaitMysqlStatus sample_api 9 sample_start = returns t
     \<and> read_after False (trace t) \<and> \<not> write_after False (trace t) \<and> timer_after False (trace t)"
  using wait_registers_the_status [of sample_start sample_api 9] by (auto simp: sample_start_eq)

text \<open>The status word made from the pump's events carries each condition exactly when the
  event does, and never a timeout, when the library's flags are disjoint.\<close>

theorem event_status_translation:
  assumes "MYSQL_WAIT_READ api \<noteq> 0" and "MYSQL_WAIT_WRITE api \<noteq> 0" and "MYSQL_WAIT_EXCEPT api \<noteq> 0"
    and "MYSQL_WAIT_READ api AND MYSQL_WAIT_WRITE api = 0"
    and "MYSQL_WAIT_READ api AND MYSQL_WAIT_EXCEPT api = 0"
    and "MYSQL_WAIT_WRITE api AND MYSQL_WAIT_EXCEPT api = 0"
    and "(MYSQL_WAIT_READ api OR MYSQL_WAIT_WRITE api OR MYSQL_WAIT_EXCEPT api) AND MYSQL_WAIT_TIMEOUT api = 0"
  shows "(LtEvToMysqlStatus api event AND MYSQL_WAIT_READ api \<noteq> 0) = (event AND LT_EVENT_READ api \<noteq> 0)
         \<and> (LtEvToMysqlStatus api event AND MYSQL_WAIT_WRITE api \<noteq> 0) = (event AND LT_EVENT_WRITE api \<noteq> 0)
         \<and> (LtEvToMysqlStatus api event AND MYSQL_WAIT_EXCEPT api \<noteq> 0) = (event AND LT_EVENT_ERROR api \<noteq> 0)
         \<and> LtEvToMysqlStatus api event AND MYSQL_WAIT_TIMEOUT api = 0"
proof -
  have "MYSQL_WAIT_WRITE api AND MYSQL_WAIT_READ api = 0" "MYSQL_WAIT_EXCEPT api AND MYSQL_WAIT_READ api = 0"
    "MYSQL_WAIT_EXCEPT api AND MYSQL_WAIT_WRITE api = 0"
    using assms(4-6) by (simp_all add: and.commute)
  moreover have "MYSQL_WAIT_READ api AND MYSQL_WAIT_TIMEOUT api = 0"
    "MYSQL_WAIT_WRITE api AND MYSQL_WAIT_TIMEOUT api = 0"
    "MYSQL_WAIT_EXCEPT api AND MYSQL_WAIT_TIMEOUT api = 0"
    using assms(7) by (simp_all add: bit.conj_disj_distrib2 or_eq_0_iff)
  ultimately show ?thesis
    using assms by (simp add: LtEvToMysqlStatus_def bit.conj_disj_distrib2 or_eq_0_iff)
qed

theorem event_status_translation_witness:
  "LtEvToMysqlStatus sample_api 5 AND MYSQL_WAIT_READ sample_api \<noteq> 0
   \<and> LtEvToMysqlStatus sample_api 5 AND MYSQL_WAIT_WRITE sample_api = 0"
  using event_status_translation [of sample_api 5] by simp

lemma sint_ucast_below: "uint n < 2 ^ 31 \<Longrightarrow> sint (ucast n :: u32) = uint n" for n :: u64
proof -
  assume n: "uint n < 2 ^ 31"
  have "sint (ucast n :: u32) = signed_take_bit 31 (uint n)" by transfer simp
  also have "\<dots> = uint n"
    by (rule signed_take_bit_int_eq_self [OF order_trans [OF _ unsigned_greater_eq] n]) simp
  finally show ?thesis .
qed

text \<open>The affected-row count of a finished session is the library's 64-bit count cut to the
  32-bit field: exact below two to the 31, and -1 for the library's error value.\<close>

theorem affected_rows_as_stored:
  assumes "in_process_' s = Some q"
  shows "(uint (mysql_affected_rows api (mysql_' s)) < 2 ^ 31 \<longrightarrow>
            sint (affected_rows_' (sess (DoneCurrentQuery api code msg s) q))
              = uint (mysql_affected_rows api (mysql_' s)))
         \<and> (mysql_affected_rows api (mysql_' s) = - 1 \<longrightarrow>
            sint (affected_rows_' (sess (DoneCurrentQuery api code msg s) q)) = - 1)"
proof -
  have "affected_rows_' (sess (DoneCurrentQuery api code msg s) q) = ucast (mysql_affected_rows api (mysql_' s))"
    using assms by (simp add: DoneCurrentQuery_effect done_session_def session_defs Let_def)
  moreover have "uint n < 2 ^ 31 \<Longrightarrow> sint (ucast n :: u32) = uint n" for n :: u64
    by (rule sint_ucast_below)
  moreover have "sint (ucast (- 1 :: u64) :: u32) = - 1" by transfer (simp add: mask_eq_exp_minus_1 signed_take_bit_eq_take_bit_shift take_bit_eq_mod)
  ultimately show ?thesis by simp
qed

theorem affected_rows_as_stored_witness:
  "sint (affected_rows_' (sess (DoneCurrentQuery sample_api 0 None sample_waiting) 3)) = - 1"
  using affected_rows_as_stored [of sample_waiting 3 sample_api 0 None]
  by (simp add: sample_waiting_def sample_start_eq)

end
