(* ===== verification/Mysql_Pool_Theorems.thy ===== *)
theory Mysql_Pool_Theorems
  imports Mysql_Pool Mysql_Theorems
begin

text \<open>
  The properties of the connection pool \<open>MysqlAsyncClientImpl\<close>, each with its instance at a pool of
  connections to the sample client library.
\<close>

section \<open>A sample pool\<close>

definition sample_junk :: "nat \<Rightarrow> int \<times> State \<times> nat \<times> MysqlOptions" where
  "sample_junk a = (0, STATE_NONE, 0, sample_options)"

definition sample_pool :: "nat \<Rightarrow> (nat, sample_res) client_run" where
  "sample_pool n =
     \<lparr>count_' = int n, use_index_' = 0, connections_' = [0 ..< n], pool_freed = False,
      con_at = (\<lambda>a. sample_start), con_count = n, freed = [], heap_of = sample_heap, loop_tasks = [],
      here_tasks = [], done_here = []\<rparr>"

definition sample_sys :: "(nat, sample_res) pool_sys" where
  "sample_sys = \<lparr>pool = sample_pool 2, asked = [], shut = False\<rparr>"

fun pend_all :: "bool \<Rightarrow> session_id list \<Rightarrow> ('m, 'r) client_run \<Rightarrow> ('m, 'r) client_run outcome" where
  "pend_all here [] p = returns p"
| "pend_all here (q # qs) p = then_do (PendingQuery here q 0 p) (pend_all here qs)"

lemma sample_pool_sel [simp]:
  "connections_' (sample_pool n) = [0 ..< n]" "con_at (sample_pool n) a = sample_start"
  "freed (sample_pool n) = []" "\<not> pool_freed (sample_pool n)" "use_index_' (sample_pool n) = 0" "loop_tasks (sample_pool n) = []"
  "here_tasks (sample_pool n) = []" "heap_of (sample_pool n) = sample_heap"
  by (simp_all add: sample_pool_def)

lemma sample_ready [simp]: "ready_' sample_start"
  by (simp add: sample_start_eq)

lemma sample_init:
  "init_connections sample_api sample_junk sample_options k
     ((sample_pool n)\<lparr>count_' := i\<rparr>) = returns ((sample_pool (n + k))\<lparr>count_' := i\<rparr>)"
proof (induction k arbitrary: n)
  case 0
  then show ?case by simp
next
  case (Suc k)
  have c: "SyncConnect sample_api (InitConnection sample_api sample_options
      (MysqlAsyncConnect_new 0 STATE_NONE 0 sample_options True sample_heap)) = (sample_start, True)"
    by (simp add: sample_start_def SyncConnect_def Let_def)
  have "(sample_pool n)\<lparr>count_' := i, con_at := (con_at (sample_pool n))(n := sample_start),
      con_count := Suc n, connections_' := connections_' (sample_pool n) @ [n]\<rparr>
      = (sample_pool (Suc n))\<lparr>count_' := i\<rparr>"
    by (simp add: sample_pool_def fun_upd_idem)
  with Suc [of "Suc n"] c show ?case by (simp add: sample_junk_def Let_def) (simp add: sample_pool_def)
qed

lemma sample_pool_started: "pool_started sample_api sample_sys"
proof -
  have "MysqlAsyncClientImpl_new 2 0 (\<lambda>a. sample_start) sample_heap = (sample_pool 0)\<lparr>count_' := 2\<rparr>"
    by (simp add: MysqlAsyncClientImpl_new_def sample_pool_def)
  moreover have "sample_pool 2 = (sample_pool (0 + 2))\<lparr>count_' := 2\<rparr>" by (simp add: sample_pool_def numeral_2_eq_2)
  ultimately have "InitWithOption sample_api sample_junk sample_options
      (MysqlAsyncClientImpl_new 2 0 (\<lambda>a. sample_start) sample_heap) = returns (sample_pool 2)"
    using sample_init [where k = 2 and n = 0 and i = 2] by (simp add: InitWithOption_def)
  then show ?thesis
    unfolding pool_started_def by (intro conjI exI) (auto simp: sample_sys_def)
qed

lemma sample_pool_reachable:
  "reachable (pool_started sample_api) (pool_step sample_api) sample_sys"
  by (rule reachable.start) (rule sample_pool_started)

lemma sample_pool_careful:
  "reachable (pool_started sample_api) (careful_step sample_api) sample_sys"
  by (rule reachable.start) (rule sample_pool_started)

lemma sample_pend:
  "do_pool sample_api (PendOp 5) sample_sys = returns
     (sample_sys\<lparr>pool := (sample_pool 2)\<lparr>use_index_' := 1, loop_tasks := [RunStartQuery 1 5]\<rparr>, asked := [5]\<rparr>)"
proof -
  have "unat (scast (1 :: u32) :: u64) mod 2 = 1" by simp
  moreover have "ready_' sample_start" by (simp add: sample_start_eq)
  ultimately have "get_client (sample_pool 2) = returns ((sample_pool 2)\<lparr>use_index_' := 1\<rparr>, Some 1)"
    using get_client_effect [of "sample_pool 2"] by (simp add: sample_pool_def numeral_2_eq_2)
  then show ?thesis
    by (simp add: sample_sys_def in_pool_def PendingQuery_def)
qed

section \<open>Lifetime and accounting\<close>

text \<open>C12: From a pool \<open>InitWithOption\<close> started, whatever order queries are pended in, the loops run their
  tasks, the pump, the timers and the checkers wake the connections, and the pool is closed and,
  when the closes it posted have run, deleted, no operation ends in a fault: in particular no task,
  wake-up or destructor touches a deleted connection, although \<open>StartQuery\<close> tasks hold raw pointers,
  and no connection calls the deleted pool.\<close>

theorem pool_never_faults:
  assumes "rows_have_width api" and "reachable (pool_started api) (careful_step api) P" and "pool_enabled op P"
  shows "do_pool api op P \<noteq> faults f"
  using do_pool_ok [OF _ assms(1,3)] careful_life.reachable_inv [OF assms(2)] assms(1) by fastforce

theorem pool_never_faults_witness:
  "do_pool sample_api (PendOp 5) sample_sys \<noteq> faults UseAfterFree"
  by (rule pool_never_faults [OF sample_width sample_pool_careful]) (simp add: sample_sys_def)

text \<open>When the pool is deleted right after \<open>Close\<close>, the calls of the deleted pool are the only fault there can be,
  and only as long as a connection is not shut down yet.\<close>

theorem only_the_deleted_pool_is_misused:
  assumes "rows_have_width api" and "reachable (pool_started api) (pool_step api) P" and "pool_enabled op P"
    and "do_pool api op P = faults f"
  shows "f = UseAfterFree \<and> gone P \<and> \<not> all_down (pool P)"
  using do_pool_ok [OF _ assms(1,3)] pool_life.reachable_inv [OF assms(2)] assms(1,4) by fastforce

text \<open>C13: At any time every query handed to the pool is in exactly one place, counted with its
  multiplicity: posted and not yet started, with one connection (served, in process or queued), or
  turned away and left to the caller's loop.\<close>

theorem pool_accounts_for_queries:
  assumes "rows_have_width api" and "reachable (pool_started api) (pool_step api) P"
  shows "(\<Sum>a < con_count (pool P). mset (ledger (con_at (pool P) a)))
           + mset (map Some (task_queries (loop_tasks (pool P))))
           + mset (map Some (here_tasks (pool P) @ map fst (done_here (pool P))))
         = mset (map Some (asked P))"
  using pool_life.reachable_inv [OF assms(2)] assms(1)
  by (simp add: pool_inv_def pool_queries_def con_queries_def ac_simps)

theorem pool_accounts_for_queries_witness:
  "(\<Sum>a < 2. mset (ledger (con_at (pool sample_sys) a))) = {#}"
  using pool_accounts_for_queries [OF sample_width sample_pool_reachable]
  by (simp add: sample_sys_def sample_pool_def)

lemma closed_pool_served_all:
  assumes inv: "pool_inv api P" and "gone P" and "loop_tasks (pool P) = []"
  shows "(\<forall>a < con_count (pool P). a \<in> set (freed (pool P)))
         \<and> mset (map Some (asked P)) = (\<Sum>a < con_count (pool P). mset (map Some (served (trace (con_at (pool P) a)))))
             + mset (map Some (here_tasks (pool P) @ map fst (done_here (pool P))))"
proof -
  have freed: "\<forall>a < con_count (pool P). a \<in> set (freed (pool P))"
    using assms by (auto simp: pool_inv_def pool_safe_def kept_but_def)
  with inv have "\<forall>a < con_count (pool P). ledger (con_at (pool P) a) = map Some (served (trace (con_at (pool P) a)))"
    by (auto simp: pool_inv_def pool_safe_def conns_ok_def idle_con_def ledger_def current_def)
  then have "con_queries (pool P) = (\<Sum>a < con_count (pool P). mset (map Some (served (trace (con_at (pool P) a)))))"
    by (simp add: con_queries_def)
  with assms freed show ?thesis by (simp add: pool_inv_def pool_queries_def)
qed

text \<open>C11: Closing the pool, letting the loop run its tasks, deleting the pool and letting the loop run again
  always comes to an end without a fault, with every connection deleted and every query that was
  ever pended finished: either a connection served it (called it back) or it was turned away to the
  caller's loop.\<close>

theorem pool_shutdown_finishes_everything:
  assumes "rows_have_width api" and "result_sets_end api rows cols"
    and "reachable (pool_started api) (pool_step api) P" and "\<not> gone P"
  shows "\<exists>p1 p2 p3. drain api (ClientClose (pool P)) = returns p1 \<and> MysqlAsyncClientImpl_delete p1 = returns p2
           \<and> drain api p2 = returns p3
           \<and> (\<forall>a < con_count p3. a \<in> set (freed p3)) \<and> loop_tasks p3 = []
           \<and> mset (map Some (asked P)) = (\<Sum>a < con_count p3. mset (map Some (served (trace (con_at p3 a)))))
               + mset (map Some (here_tasks p3 @ map fst (done_here p3)))"
proof -
  let ?Q = "P\<lparr>pool := ClientClose (pool P), shut := True\<rparr>"
  have inv: "pool_inv api P" using pool_life.reachable_inv [OF assms(3)] assms(1) by simp
  have same: "?Q\<lparr>pool := ClientClose (pool P)\<rparr> = ?Q" by (cases P) simp
  have "drain_inv api rows cols ?Q (ClientClose (pool P))"
    unfolding drain_inv_def same using close_ok [OF inv assms(4)] assms by (simp add: ClientClose_def)
  from drain_empty [OF this] obtain p1 where
    p1: "drain api (ClientClose (pool P)) = returns p1" "loop_tasks p1 = []"
    and inv1: "pool_inv api (?Q\<lparr>pool := p1\<rparr>)" and live: "pool_freed p1 = pool_freed (pool P)"
    by (auto simp: drain_inv_def ClientClose_def)
  from delete_ok [OF inv1] live assms(4) obtain R where
    R: "do_pool api DeleteOp (?Q\<lparr>pool := p1\<rparr>) = returns R" "pool_inv api R" "gone R" "asked R = asked P"
      "task_queries (loop_tasks (pool R)) = task_queries (loop_tasks p1)" by auto
  then have del: "MysqlAsyncClientImpl_delete p1 = returns (pool R)"
    by (auto simp: in_pool_def then_do_returns_iff)
  have "drain_inv api rows cols R (pool R)" using R p1 assms by (simp add: drain_inv_def)
  from drain_empty [OF this] obtain p2 where
    p2: "drain api (pool R) = returns p2" "loop_tasks p2 = []" "pool_freed p2 = pool_freed (pool R)"
    and inv2: "pool_inv api (R\<lparr>pool := p2\<rparr>)" by (auto simp: drain_inv_def)
  from closed_pool_served_all [OF inv2] R p1 p2 del show ?thesis by auto
qed

lemma sample_pend_reachable:
  "reachable (pool_started sample_api) (pool_step sample_api)
     (sample_sys\<lparr>pool := (sample_pool 2)\<lparr>use_index_' := 1, loop_tasks := [RunStartQuery 1 5]\<rparr>, asked := [5]\<rparr>)"
  by (rule reachable.step [OF sample_pool_reachable], rule pool_step.op [OF _ sample_pend])
    (simp add: sample_sys_def)

theorem pool_shutdown_finishes_everything_witness:
  "\<exists>p1 p2 p3. drain sample_api (ClientClose ((sample_pool 2)\<lparr>use_index_' := 1, loop_tasks := [RunStartQuery 1 5]\<rparr>))
       = returns p1 \<and> MysqlAsyncClientImpl_delete p1 = returns p2
     \<and> drain sample_api p2 = returns p3 \<and> loop_tasks p3 = []"
  using pool_shutdown_finishes_everything [OF sample_width sample_ends sample_pend_reachable]
  by (fastforce simp: sample_sys_def)

text \<open>Without \<open>Close\<close>, deleting the pool while a query is posted deletes the connection under it: the
  task that runs next uses the deleted connection.\<close>

theorem delete_without_close_uses_freed:
  assumes "\<not> pool_freed p" and "connections_' p = [a]" and "con_inv api (con_at p a)" and "a \<notin> set (freed p)"
    and "loop_tasks p = RunStartQuery a q # ts" and "RunSyncClose a \<notin> set ts"
  shows "\<exists>p1. MysqlAsyncClientImpl_delete p = returns p1 \<and> run_front api p1 = faults UseAfterFree"
proof -
  let ?c = "(con_at p a)\<lparr>sess := heap_of p\<rparr>"
  have "None \<notin> set (query_list_' ?c)" using assms(3) by (simp add: con_inv_def)
  from close_all_sessions_effect [OF this] obtain d where
    "MysqlAsyncConnect_delete ?c = returns d" by (simp add: MysqlAsyncConnect_delete_def Let_def)
  with assms show ?thesis
    by (simp add: MysqlAsyncClientImpl_delete_def release_con_def on_con_def run_front_def)
qed

theorem delete_without_close_uses_freed_witness:
  "\<exists>p1. MysqlAsyncClientImpl_delete ((sample_pool 1)\<lparr>loop_tasks := [RunStartQuery 0 5]\<rparr>) = returns p1
     \<and> run_front sample_api p1 = faults UseAfterFree"
  by (rule delete_without_close_uses_freed [where ts = "[]"])
    (simp_all add: sample_pool_def con_started_inv(1) [OF sample_started])

text \<open>
  The first call the machine makes on the library for a query it starts: selecting the query's database,
  or else the query itself.
\<close>

definition first_call :: "('m, 'r) mysql_api \<Rightarrow> QuerySession \<Rightarrow> ('m, 'r) con_run \<Rightarrow> u32 \<times> int \<times> 'm" where
  "first_call api qs s =
     (if db_name_' qs \<noteq> '''' \<and> db_name_' qs \<noteq> last_selected_db_' s
      then mysql_select_db_start api (c_str (db_name_' qs)) (mysql_' s)
      else mysql_real_query_start api (query_' qs) (mysql_' s))"

lemma first_call_sess [simp]: "first_call api qs (s\<lparr>sess := h\<rparr>) = first_call api qs s"
  by (simp add: first_call_def)

text \<open>A query refused with a fatal error on an idle connection closes the connection, which tells its client.\<close>

lemma refused_query_closes:
  assumes idle: "current_state_' s = CONNECTION_IDLE" "in_process_' s = None" "query_list_' s = []"
    and client: "client_' s" and query: "query_' (sess s q) \<noteq> ''''"
    and refused: "first_call api (sess s q) s = (status, err, m)" "err \<noteq> 0" "IsFatalError api err" and close: "mysql_close_start api m = (0, m')"
  shows "\<exists>d es. StartQuery api True (Some q) s = returns d \<and> trace d = trace s @ es @ [ConnectionClosed]"
proof -
  let ?s0 = "s\<lparr>query_list_' := [Some q]\<rparr>"
  let ?st = "if db_name_' (sess s q) \<noteq> '''' \<and> db_name_' (sess s q) \<noteq> last_selected_db_' s
    then SELECT_DB_START else QUERY_START"
  let ?s1 = "s\<lparr>in_process_' := Some q, current_state_' := ?st\<rparr>"
  let ?s2 = "query_failed api err (?s1\<lparr>mysql_' := m\<rparr>)"
  let ?s3 = "?s2\<lparr>mysql_' := m', current_state_' := CLOSE_DONE\<rparr>"
  have s2: "current_state_' ?s2 = CLOSE_START" "mysql_' ?s2 = m" "in_process_' ?s2 = None" "query_list_' ?s2 = []"
    "client_' ?s2" "fd_event_' ?s2 = fd_event_' s" "trace ?s2 = trace s @ [QueryDone q (finish_callback_' (sess s q))]"
    using idle client refused by (simp_all add: query_failed_effect)
  have "?s0\<lparr>in_process_' := Some q, query_list_' := [], current_state_' := ?st\<rparr> = ?s1"
    using idle by simp
  then have "HandleState_body api True 0 ?s0 = returns (?s1, True)"
    using idle query by (simp add: HandleState_body_def HandleStateIDLE_def Let_def)
  moreover have "HandleState_body api True 0 ?s1 = returns (?s2, True)"
    using refused query
    by (cases "db_name_' (sess s q) \<noteq> '''' \<and> db_name_' (sess s q) \<noteq> last_selected_db_' s")
      (auto simp: first_call_def HandleState_body_def HandleStateSelectDB_def Let_def)
  moreover have "HandleState_body api True 0 ?s2 = returns (?s3, True)"
    using s2 close by (simp add: HandleState_body_def HandleStateConnect_def go_next_state_now)
  ultimately have "HandleState api True 0 ?s0 = HandleState api True 0 ?s3" by (simp add: HandleState_go)
  moreover have "\<exists>d es. HandleState_body api True 0 ?s3 = returns (d, False) \<and> trace d = trace s @ es @ [ConnectionClosed]"
    using s2 by (simp add: HandleState_body_def HandleStateConnect_def clean_up_effect current_def emit_def Let_def)
  ultimately show ?thesis using idle by (auto simp: StartQuery_def Let_def HandleState_def)
qed

text \<open>A connection that closes while it starts a posted query calls the pool.\<close>

lemma closing_calls_pool:
  assumes "pool_freed p" and "a \<notin> set (freed p)" and "loop_tasks p = RunStartQuery a q # ts"
    and d: "StartQuery api True (Some q) ((con_at p a)\<lparr>sess := heap_of p\<rparr>) = returns d"
      "trace d = trace (con_at p a) @ es @ [ConnectionClosed]"
  shows "run_front api p = faults UseAfterFree"
proof -
  have "calls_client (con_at p a) d" using d(2) by simp
  with d(1) assms(1-3) show ?thesis by (simp add: run_front_def on_con_def)
qed

text \<open>C17: Deleting the pool right after \<open>Close\<close> is too early: the connections live on until their posted close
  has run, with a pointer to the deleted pool. A query posted before that the server refuses with a
  fatal error closes the connection, which then calls the deleted pool back.\<close>

theorem deleted_pool_is_called_back:
  assumes "pool_freed p" and "a \<notin> set (freed p)" and "loop_tasks p = RunStartQuery a q # ts"
    and "current_state_' (con_at p a) = CONNECTION_IDLE" "in_process_' (con_at p a) = None"
    and "query_list_' (con_at p a) = []" "client_' (con_at p a)" "query_' (heap_of p q) \<noteq> ''''"
    and "first_call api (heap_of p q) (con_at p a) = (status, err, m)" "err \<noteq> 0" "IsFatalError api err" "mysql_close_start api m = (0, m')"
  shows "run_front api p = faults UseAfterFree"
proof -
  from refused_query_closes [of "(con_at p a)\<lparr>sess := heap_of p\<rparr>" q api status err m m'] assms obtain d es where
    "StartQuery api True (Some q) ((con_at p a)\<lparr>sess := heap_of p\<rparr>) = returns d"
    "trace d = trace (con_at p a) @ es @ [ConnectionClosed]" by auto
  with assms(1-3) show ?thesis by (rule closing_calls_pool)
qed

theorem deleted_pool_is_called_back_witness:
  "\<exists>p1. MysqlAsyncClientImpl_delete (ClientClose ((sample_pool 1)\<lparr>loop_tasks := [RunStartQuery 0 3]\<rparr>)) = returns p1
     \<and> run_front refusing_api p1 = faults UseAfterFree"
proof -
  let ?p = "(sample_pool 1)\<lparr>loop_tasks := [RunStartQuery 0 3, RunSyncClose 0], connections_' := [], pool_freed := True\<rparr>"
  have "run_front refusing_api ?p = faults UseAfterFree"
    by (rule deleted_pool_is_called_back [where a = 0 and q = 3 and ts = "[RunSyncClose 0]" and err = 2006])
      (simp_all add: sample_start_eq sample_heap_def session_defs refusing_api_def sample_api_def IsFatalError_def
        first_call_def)
  then show ?thesis by (simp add: ClientClose_def MysqlAsyncClientImpl_delete_def release_con_def)
qed

text \<open>C14: The pool is well formed at all times: its connections are distinct, exist and are not deleted, they are
  all the connections there are until the pool is deleted, what is deleted existed and holds no query,
  and every posted task that uses a connection names one that exists and is not deleted.\<close>

theorem pool_stays_well_formed:
  assumes "rows_have_width api" and "reachable (pool_started api) (pool_step api) P"
  defines "p \<equiv> pool P"
  shows "distinct (connections_' p) \<and> set (connections_' p) = (if gone P then {} else {..< con_count p})
         \<and> set (freed p) \<subseteq> {..< con_count p} \<and> set (connections_' p) \<inter> set (freed p) = {}
         \<and> (\<forall>a \<in> set (freed p). in_process_' (con_at p a) = None \<and> query_list_' (con_at p a) = [])
         \<and> (\<forall>t \<in> set (loop_tasks p). \<forall>a. task_con t = Some a \<longrightarrow> a < con_count p \<and> a \<notin> set (freed p))"
proof -
  have "pool_inv api P" using pool_life.reachable_inv [OF assms(2)] assms(1) by simp
  then have ok: "conns_ok api p" and con: "set (connections_' p) = (if gone P then {} else {..< con_count p})"
    by (auto simp: pool_inv_def pool_safe_def p_def)
  have "a < con_count p \<and> a \<notin> set (freed p)" if "t \<in> set (loop_tasks p)" "task_con t = Some a" for t a
    using ok that by (cases t) (auto simp: conns_ok_def list_all_iff)
  with ok con show ?thesis by (auto simp: conns_ok_def idle_con_def)
qed

theorem pool_stays_well_formed_witness:
  "set (connections_' (pool sample_sys)) = {..< con_count (pool sample_sys)}"
  using pool_stays_well_formed [OF sample_width sample_pool_reachable] by (simp add: sample_sys_def)

section \<open>Starting the pool and choosing a connection\<close>

text \<open>C16: \<open>InitWithOption\<close> gives exactly \<open>count_\<close> connections, each started, ready and idle, when the server
  accepts them (none for a count that is not positive), and stops the program when it does not.\<close>

theorem init_with_option_builds_pool:
  assumes "\<forall>m. fst (mysql_real_connect api (c_str (host opt)) (c_str (user opt)) (c_str (passwd opt))
                      (c_str (dbname opt)) (port opt) m) = up"
  shows "if up \<or> n \<le> 0
         then \<exists>p. InitWithOption api junk opt (MysqlAsyncClientImpl_new n index0 mem heap) = returns p
                \<and> built api p \<and> length (connections_' p) = nat n
         else InitWithOption api junk opt (MysqlAsyncClientImpl_new n index0 mem heap) = faults LogFatal"
proof -
  have sync: "snd (SyncConnect api (InitConnection api opt c)) = up" for c
    using assms by (auto simp: SyncConnect_def InitConnection_def Let_def emit_def split: prod.splits)
      (metis fst_conv)+
  have step: "\<exists>p'. init_connections api junk opt k p = returns p'" if up for k p
  proof (induction k arbitrary: p)
    case (Suc k)
    then show ?case using sync that by (auto simp: Let_def split: prod.splits) (metis snd_conv)
  qed simp
  let ?p0 = "MysqlAsyncClientImpl_new n index0 mem heap"
  show ?thesis
  proof (cases "up \<or> n \<le> 0")
    case True
    then obtain p where p: "InitWithOption api junk opt ?p0 = returns p"
      using step by (auto simp: InitWithOption_def MysqlAsyncClientImpl_new_def)
    from InitWithOption_built [OF this] p True show ?thesis by (auto simp: built_def)
  next
    case False
    then have "nat n = Suc (nat (n - 1))" by arith
    with False sync show ?thesis
      by (auto simp: InitWithOption_def MysqlAsyncClientImpl_new_def Let_def split: prod.splits)
        (metis snd_conv)+
  qed
qed

theorem init_with_option_builds_pool_witness:
  "\<exists>p. InitWithOption sample_api sample_junk sample_options
         (MysqlAsyncClientImpl_new 3 7 (\<lambda>a. sample_start) sample_heap) = returns p
     \<and> length (connections_' p) = 3"
  using init_with_option_builds_pool [of sample_api sample_options True 3 sample_junk 7 "\<lambda>a. sample_start" sample_heap]
  by auto

text \<open>The connections the next \<open>k\<close> queries go to, while all are ready.\<close>

primrec picks :: "nat list \<Rightarrow> u32 \<Rightarrow> nat \<Rightarrow> nat list" where
  "picks as i 0 = []"
| "picks as i (Suc k) = as ! (unat (scast (i + 1) :: u64) mod length as) # picks as (i + 1) k"

lemma pend_all_effect:
  assumes "connections_' p \<noteq> []" and "set (connections_' p) \<inter> set (freed p) = {}"
    and "\<forall>a \<in> set (connections_' p). ready_' (con_at p a)"
  shows "\<exists>p'. pend_all here qs p = returns p' \<and> connections_' p' = connections_' p
           \<and> loop_tasks p' = loop_tasks p @ map2 RunStartQuery (picks (connections_' p) (use_index_' p) (length qs)) qs"
  using assms
proof (induction qs arbitrary: p)
  case Nil
  then show ?case by simp
next
  case (Cons q qs)
  define a where "a = connections_' p ! (unat (scast (use_index_' p + 1) :: u64) mod length (connections_' p))"
  have "a \<in> set (connections_' p)" unfolding a_def using Cons.prems(1) by (intro nth_mem) simp
  with Cons.prems(3) get_client_effect [OF Cons.prems(1,2), folded a_def]
  have pend: "PendingQuery here q 0 p = returns (p\<lparr>use_index_' := use_index_' p + 1,
      loop_tasks := loop_tasks p @ [RunStartQuery a q]\<rparr>)"
    by (simp add: PendingQuery_def)
  let ?p = "p\<lparr>use_index_' := use_index_' p + 1, loop_tasks := loop_tasks p @ [RunStartQuery a q]\<rparr>"
  from Cons.IH [of ?p] Cons.prems pend show ?case by (auto simp: a_def)
qed

lemma index_below: "unat i < 2 ^ 31 \<Longrightarrow> unat (scast i :: u64) = unat i" for i :: u32
proof -
  assume a: "unat i < 2 ^ 31"
  from a have "int (unat i) < int (2 ^ 31)" unfolding of_nat_less_iff .
  then have i: "uint i < 2 ^ 31" by simp
  have "uint (scast i :: u64) = take_bit 64 (signed_take_bit 31 (uint i))"
    by transfer (simp add: signed_take_bit_take_bit)
  also have "signed_take_bit 31 (uint i) = uint i"
    by (rule signed_take_bit_int_eq_self [OF order_trans [OF _ unsigned_greater_eq] i]) simp
  also have "take_bit 64 (uint i) = uint i"
    by (rule take_bit_int_eq_self [OF unsigned_greater_eq less_trans [OF i]]) simp
  finally show ?thesis unfolding unat_eq_nat_uint by (rule arg_cong)
qed

lemma unat_suc: "unat i + 1 < 2 ^ 31 \<Longrightarrow> unat (i + 1) = unat i + 1" for i :: u32
  by (subst unat_add_lem [THEN iffD1]) simp_all

lemma picks_eq:
  "unat i + k < 2 ^ 31 \<Longrightarrow> picks as i k = map (\<lambda>j. as ! ((unat i + 1 + j) mod length as)) [0 ..< k]"
proof (induction k arbitrary: i)
  case (Suc k)
  have i: "unat (i + 1) = unat i + 1" by (rule unat_suc) (use Suc.prems in simp)
  have "unat (scast (i + 1) :: u64) = unat i + 1"
    using index_below [of "i + 1"] Suc.prems i by simp
  moreover have "picks as (i + 1) k = map (\<lambda>j. as ! ((unat i + 2 + j) mod length as)) [0 ..< k]"
    using Suc.IH [of "i + 1"] Suc.prems i by simp
  ultimately show ?case by (simp add: upt_conv_Cons map_Suc_upt [symmetric] del: upt_Suc)
qed simp

text \<open>C15: While all connections are ready and the counter is not negative, as many queries in a row as
  there are connections go to each connection exactly once, starting after the one the counter is
  at; nothing else is posted.\<close>

theorem round_robin_is_fair:
  assumes "\<forall>a \<in> set (connections_' p). a \<notin> set (freed p) \<and> ready_' (con_at p a)"
    and "length qs = length (connections_' p)" and "connections_' p \<noteq> []"
    and "unat (use_index_' p) + length qs < 2 ^ 31"
  shows "\<exists>p' as. pend_all here qs p = returns p' \<and> as = rotate (unat (use_index_' p) + 1) (connections_' p)
           \<and> loop_tasks p' = loop_tasks p @ map2 RunStartQuery as qs \<and> mset as = mset (connections_' p)"
proof -
  have "set (connections_' p) \<inter> set (freed p) = {}" using assms(1) by blast
  from pend_all_effect [OF assms(3) this] assms(1) obtain p' where
    p': "pend_all here qs p = returns p'"
      "loop_tasks p' = loop_tasks p @ map2 RunStartQuery (picks (connections_' p) (use_index_' p) (length qs)) qs"
    by blast
  have "picks (connections_' p) (use_index_' p) (length qs) = rotate (unat (use_index_' p) + 1) (connections_' p)"
    unfolding picks_eq [OF assms(4)] using assms(2)
    by (intro nth_equalityI) (simp_all add: nth_rotate del: rotate_Suc)
  moreover have "mset (rotate n as) = mset as" for n and as :: "nat list"
  proof (induction n)
    case (Suc n)
    then show ?case by (cases "rotate n as") simp_all
  qed simp
  ultimately show ?thesis using p' by metis
qed

theorem round_robin_is_fair_witness:
  "\<exists>p'. pend_all False [5, 6, 7] (sample_pool 3) = returns p'
     \<and> loop_tasks p' = [RunStartQuery 1 5, RunStartQuery 2 6, RunStartQuery 0 7]"
proof -
  have "rotate (unat (0 :: u32) + 1) [0 ..< 3] = [1, 2, 0 :: nat]" by (simp add: upt_rec)
  with round_robin_is_fair [of "sample_pool 3" "[5, 6, 7]"] show ?thesis by auto
qed

text \<open>\<open>get_client\<close> looks at one connection only: when that one is not ready, the query is turned away
  with code -1 and \<open>connection not ready\<close>, however many of the others are ready; and on a thread
  without a message loop turning it away dereferences a null pointer.\<close>

theorem pending_query_tries_one_connection:
  assumes "connections_' p \<noteq> []" and "set (connections_' p) \<inter> set (freed p) = {}"
    and "\<not> ready_' (con_at p (connections_' p !
             (unat (scast (use_index_' p + 1) :: u64) mod length (connections_' p))))"
  shows "PendingQuery False q timeout p = faults NullDeref
         \<and> (\<exists>p'. PendingQuery True q timeout p = returns p' \<and> loop_tasks p' = loop_tasks p
           \<and> here_tasks p' = here_tasks p @ [q]
           \<and> code_' (heap_of p' q) = - 1 \<and> err_message_' (heap_of p' q) = ''connection not ready''
           \<and> con_at p' = con_at p \<and> connections_' p' = connections_' p)"
  using get_client_effect [OF assms(1,2)] assms(3)
  by (simp add: PendingQuery_def SetCode_def)

theorem pending_query_tries_one_connection_witness:
  "\<exists>p'. PendingQuery True 5 0 ((sample_pool 2)\<lparr>con_at := (\<lambda>a. sample_start)(1 := sample_start\<lparr>ready_' := False\<rparr>)\<rparr>) = returns p'
     \<and> loop_tasks p' = [] \<and> code_' (heap_of p' 5) = - 1 \<and> ready_' (con_at p' 0) \<and> 0 \<in> set (connections_' p')"
  using pending_query_tries_one_connection
    [of "(sample_pool 2)\<lparr>con_at := (\<lambda>a. sample_start)(1 := sample_start\<lparr>ready_' := False\<rparr>)\<rparr>" 5 0]
  by (auto simp: numeral_2_eq_2)

text \<open>A pool with no connection divides by zero on the first query.\<close>

theorem empty_pool_divides_by_zero:
  "connections_' p = [] \<Longrightarrow> PendingQuery here q timeout p = faults DivByZero"
  by (simp add: PendingQuery_def get_client_def get_client_body_def Let_def)

theorem empty_pool_divides_by_zero_witness:
  "PendingQuery True 5 0 (sample_pool 0) = faults DivByZero"
  by (rule empty_pool_divides_by_zero) (simp add: sample_pool_def)

end
