(* ===== verification/Mysql_Shell.thy ===== *)
theory Mysql_Shell
  imports Mysql_Pool_Theorems
begin

text \<open>
  The program \<open>src/examples/async_mysql/asyncmysql_test.cc\<close>, which uses the pool: it pends every line of
  the standard input as a query, until the line \<open>exit\<close>, at which it closes and deletes the pool.

  The thread of \<open>main\<close> and the message loop that runs the connections interleave; a step of the relation
  \<open>shell_step\<close> is a round of the loop in \<open>main\<close>, or an operation of the message loop on the pool of
  \<open>Mysql_Pool\<close>. The thread of \<open>main\<close> has no message loop of its own.
\<close>

section \<open>Standard input\<close>

abbreviation newline :: char where
  "newline \<equiv> CHR 0x0A"

text \<open>
  \<open>std::getline\<close>: the rest of the input and whether the stream is good, before and after, and the string
  that is read into. On a stream that is not good it leaves the string as it is.
\<close>

definition getline :: "string \<times> bool \<Rightarrow> string \<Rightarrow> (string \<times> bool) \<times> string" where
  "getline inp content =
     (case inp of
        (s, good) \<Rightarrow>
          if \<not> good then (inp, content)
          else let l = takeWhile (\<lambda>c. c \<noteq> newline) s
               in if newline \<in> set s then ((tl (dropWhile (\<lambda>c. c \<noteq> newline) s), True), l)
                  else (([], False), l))"

text \<open>The strings read from a good stream until it is not good any more.\<close>

function input_lines :: "string \<Rightarrow> string list" where
  "input_lines s =
     (let l = takeWhile (\<lambda>c. c \<noteq> newline) s
      in if newline \<in> set s then l # input_lines (tl (dropWhile (\<lambda>c. c \<noteq> newline) s)) else [l])"
  by pat_completeness auto
termination
proof (relation "measure length", simp)
  fix s :: string and l
  assume "newline \<in> set s"
  then have "dropWhile (\<lambda>c. c \<noteq> newline) s \<noteq> []" by (simp add: dropWhile_eq_Nil_conv)
  then have "length (tl (dropWhile (\<lambda>c. c \<noteq> newline) s)) < length (dropWhile (\<lambda>c. c \<noteq> newline) s)" by simp
  with length_dropWhile_le [of "\<lambda>c. c \<noteq> newline" s]
  show "(tl (dropWhile (\<lambda>c. c \<noteq> newline) s), s) \<in> measure length" by (simp del: length_tl)
qed

declare input_lines.simps [simp del]

lemma getline_lines:
  "getline (s, True) content = ((s', True), l) \<Longrightarrow> input_lines s = l # input_lines s'"
  "getline (s, True) content = ((s', False), l) \<Longrightarrow> input_lines s = [l]"
  "getline (s, False) content = ((s, False), content)"
  by (subst input_lines.simps, auto simp: getline_def Let_def split: if_splits)+

section \<open>The program\<close>

definition shell_options :: "string \<Rightarrow> MysqlOptions" where
  "shell_options FLAGS_host =
     (let opt = \<lparr>host = ''127.0.0.1'', port = 3306, user = ''root'', passwd = '''', dbname = ''mysql'',
                 query_timeout = 5000\<rparr>
      in if FLAGS_host \<noteq> '''' then opt\<lparr>host := FLAGS_host\<rparr> else opt)"

text \<open>\<open>qs->UseDB("mysql").Query(content).Then(std::bind(callback, qs))\<close>; the callback is named by its session.\<close>

definition shell_session :: "string \<Rightarrow> session_id \<Rightarrow> QuerySession" where
  "shell_session content qs = Then (Some qs) (Query content (UseDB ''mysql'' New))"

text \<open>
  \<open>sys\<close>: the pool in its world. \<open>cin\<close>: the standard input. \<open>typed\<close>: the contents pended so far; the session
  of the \<open>n\<close>-th is \<open>n\<close>. \<open>ended\<close>: the loop of \<open>main\<close> is through.
\<close>

record ('m, 'r) shell =
  sys :: "('m, 'r) pool_sys"
  cin :: "string \<times> bool"
  content :: string
  typed :: "string list"
  ended :: bool

definition shell_started ::
  "('m, 'r) mysql_api \<Rightarrow> string \<Rightarrow> string \<Rightarrow> ('m, 'r) shell \<Rightarrow> bool" where
  "shell_started api FLAGS_host inp S \<longleftrightarrow>
     (\<exists>index0 mem heap junk.
        InitWithOption api junk (shell_options FLAGS_host) (MysqlAsyncClientImpl_new 1 index0 mem heap)
          = returns (pool (sys S)))
     \<and> asked (sys S) = [] \<and> \<not> shut (sys S)
     \<and> cin S = (inp, True) \<and> content S = '''' \<and> typed S = [] \<and> \<not> ended S"

text \<open>A round of the loop of \<open>main\<close>.\<close>

definition shell_round :: "('m, 'r) shell \<Rightarrow> ('m, 'r) shell outcome" where
  "shell_round S =
     (case getline (cin S) (content S) of
        (inp, c) \<Rightarrow>
          if c \<noteq> ''exit''
          then let qs = length (typed S);
                   p = (pool (sys S))\<lparr>heap_of := (heap_of (pool (sys S)))(qs := shell_session c qs)\<rparr>
               in then_do (PendingQuery False qs 0 p)
                    (\<lambda>p1. returns (S\<lparr>sys := (sys S)\<lparr>pool := p1, asked := asked (sys S) @ [qs], shut := False\<rparr>,
                                     cin := inp, content := c, typed := typed S @ [c]\<rparr>))
          else then_do (MysqlAsyncClientImpl_delete (ClientClose (pool (sys S))))
                 (\<lambda>p1. returns (S\<lparr>sys := (sys S)\<lparr>pool := p1, shut := True\<rparr>,
                                  cin := inp, content := c, ended := True\<rparr>)))"

fun loop_op :: "pool_op \<Rightarrow> bool" where
  "loop_op TaskOp = True" | "loop_op (WakeOp a op) = True" | "loop_op _ = False"

inductive shell_step :: "('m, 'r) mysql_api \<Rightarrow> ('m, 'r) shell \<Rightarrow> ('m, 'r) shell \<Rightarrow> bool"
  for api :: "('m, 'r) mysql_api" where
  round: "content S \<noteq> ''exit'' \<Longrightarrow> shell_round S = returns S' \<Longrightarrow> shell_step api S S'"
| loop: "loop_op op \<Longrightarrow> pool_enabled op (sys S) \<Longrightarrow> do_pool api op (sys S) = returns Q \<Longrightarrow>
    shell_step api S (S\<lparr>sys := Q\<rparr>)"

inductive_cases shell_stepE: "shell_step api S S'"

section \<open>The pool underneath\<close>

lemma PendingQuery_off_loop:
  "PendingQuery False q t p = returns p' \<Longrightarrow>
     PendingQuery True q t p = returns p' \<and> here_tasks p' = here_tasks p \<and> done_here p' = done_here p
     \<and> pool_freed p' = pool_freed p"
proof -
  assume ok: "PendingQuery False q t p = returns p'"
  then obtain p1 a where "get_client p = returns (p1, Some a)"
    "p' = p1\<lparr>loop_tasks := loop_tasks p1 @ [RunStartQuery a q]\<rparr>"
    by (auto simp: PendingQuery_def then_do_returns_iff split: option.splits)
  moreover have "here_tasks p1 = here_tasks p \<and> done_here p1 = done_here p \<and> pool_freed p1 = pool_freed p" if "get_client p = returns (p1, x)" for p1 x
    using that by (auto simp: get_client_def loop_while.simps get_client_body_def Let_def then_do_returns_iff
        split: if_splits)
  ultimately show ?thesis by (simp add: PendingQuery_def)
qed

lemma on_con_here:
  "on_con a f p = returns p' \<Longrightarrow> here_tasks p' = here_tasks p \<and> done_here p' = done_here p \<and> pool_freed p' = pool_freed p"
  by (auto simp: on_con_def then_do_returns_iff split: if_splits)

lemma release_con_here:
  assumes "release_con a p = returns p'"
  shows "here_tasks p' = here_tasks p \<and> done_here p' = done_here p \<and> pool_freed p' = pool_freed p"
proof (cases "a \<in> set (connections_' p) \<or> RunSyncClose a \<in> set (loop_tasks p)")
  case False
  with assms obtain p1 where "on_con a MysqlAsyncConnect_delete p = returns p1"
    and "\<exists>fs ts. p' = p1\<lparr>freed := fs, loop_tasks := ts\<rparr>"
    unfolding release_con_def then_do_returns_iff by (auto simp: then_do_returns_iff Let_def)
  with on_con_here show ?thesis by fastforce
qed (use assms in \<open>simp add: release_con_def\<close>)

lemma run_task_here:
  "run_task api t p = returns p' \<Longrightarrow> here_tasks p' = here_tasks p \<and> done_here p' = done_here p \<and> pool_freed p' = pool_freed p"
  by (cases t) (auto simp: then_do_returns_iff dest!: on_con_here release_con_here)

lemma clear_connections_here:
  "clear_connections as p = returns p' \<Longrightarrow> here_tasks p' = here_tasks p \<and> done_here p' = done_here p \<and> pool_freed p' = pool_freed p"
  by (induction as arbitrary: p) (auto simp: then_do_returns_iff dest!: release_con_here)

lemmas here_frame = on_con_here release_con_here run_task_here clear_connections_here

lemma loop_op_frame:
  assumes "loop_op op" and "do_pool api op P = returns Q"
  shows "asked Q = asked P \<and> gone Q = gone P \<and> here_tasks (pool Q) = here_tasks (pool P)
         \<and> done_here (pool Q) = done_here (pool P)"
  using assms
  by (cases op) (auto simp: in_pool_def then_do_returns_iff run_front_def dest!: here_frame split: list.splits)

section \<open>The invariant\<close>

text \<open>
  The input: while the stream is good, the contents pended and the lines still to come are the lines of
  the input; once \<open>main\<close> has ended, the contents pended are the lines before \<open>exit\<close>.
\<close>

definition input_ok :: "string \<Rightarrow> ('m, 'r) shell \<Rightarrow> bool" where
  "input_ok inp S \<longleftrightarrow>
     ended S = (content S = ''exit'') \<and> ''exit'' \<notin> set (typed S)
     \<and> (if ended S then \<exists>rest. input_lines inp = typed S @ ''exit'' # rest
        else if snd (cin S) then input_lines inp = typed S @ input_lines (fst (cin S))
        else ''exit'' \<notin> set (input_lines inp) \<and> content S = last (input_lines inp)
          \<and> (\<exists>k. typed S = input_lines inp @ replicate k (content S)))"

definition shell_inv :: "('m, 'r) mysql_api \<Rightarrow> string \<Rightarrow> ('m, 'r) shell \<Rightarrow> bool" where
  "shell_inv api inp S \<longleftrightarrow>
     reachable (pool_started api) (pool_step api) (sys S)
     \<and> asked (sys S) = [0 ..< length (typed S)] \<and> here_tasks (pool (sys S)) = [] \<and> done_here (pool (sys S)) = []
     \<and> gone (sys S) = ended S \<and> input_ok inp S"

lemma round_input:
  assumes inv: "input_ok inp S" and go: "content S \<noteq> ''exit''" and line: "getline (cin S) (content S) = (i, c)"
  shows "if c = ''exit'' then input_ok inp (S\<lparr>sys := Q, cin := i, content := c, ended := True\<rparr>)
         else input_ok inp (S\<lparr>sys := Q, cin := i, content := c, typed := typed S @ [c]\<rparr>)"
proof -
  obtain s where s: "cin S = (s, snd (cin S))" by (metis prod.collapse)
  show ?thesis
  proof (cases "snd (cin S)")
    case True
    have lines: "input_lines inp = typed S @ input_lines s" and no: "''exit'' \<notin> set (typed S)" "\<not> ended S"
      using inv go True arg_cong [OF s, of fst] by (simp_all add: input_ok_def)
    obtain s' g where i: "i = (s', g)" by fastforce
    from line s True i have g: "getline (s, True) (content S) = ((s', g), c)" by simp
    show ?thesis
    proof (cases g)
      case True
      with g have "input_lines s = c # input_lines s'" using getline_lines(1) [of s "content S" s' c] by simp
      with lines no i True show ?thesis by (auto simp: input_ok_def)
    next
      case False
      with g have "input_lines s = [c]" using getline_lines(2) [of s "content S" s' c] by simp
      with lines no i False show ?thesis
        by (auto simp: input_ok_def intro: exI [of _ 0])
    qed
  next
    case False
    with s have "getline (cin S) (content S) = ((s, False), content S)" using getline_lines(3) by metis
    with line have c: "i = (s, False)" "c = content S" by simp_all
    with inv go False obtain k where "typed S = input_lines inp @ replicate k c" "''exit'' \<notin> set (input_lines inp)"
      by (auto simp: input_ok_def)
    moreover from this have "typed S @ [c] = input_lines inp @ replicate (Suc k) c"
      by (simp add: replicate_append_same)
    ultimately show ?thesis using inv go False c by (auto simp: input_ok_def intro!: exI [of _ "Suc k"])
  qed
qed

lemma shell_started_inv: "shell_started api FLAGS_host inp S \<Longrightarrow> shell_inv api inp S"
proof -
  assume S: "shell_started api FLAGS_host inp S"
  then obtain index0 mem heap junk where
    init: "InitWithOption api junk (shell_options FLAGS_host) (MysqlAsyncClientImpl_new 1 index0 mem heap)
             = returns (pool (sys S))" by (auto simp: shell_started_def)
  then have "\<exists>n index0 mem heap junk opt. 0 < n
      \<and> InitWithOption api junk opt (MysqlAsyncClientImpl_new n index0 mem heap) = returns (pool (sys S))"
    using zero_less_one by blast
  with S have "pool_started api (sys S)" by (simp add: pool_started_def shell_started_def)
  then have "reachable (pool_started api) (pool_step api) (sys S)" by (rule reachable.start)
  moreover have "here_tasks p = [] \<and> done_here p = [] \<and> \<not> pool_freed p"
    if "init_connections api junk opt n q = returns p" "here_tasks q = [] \<and> done_here q = [] \<and> \<not> pool_freed q" for n opt q p
    using that by (induction n arbitrary: q) (auto simp: Let_def split: prod.splits if_splits)
  from this [of "shell_options FLAGS_host" 1 "MysqlAsyncClientImpl_new 1 index0 mem heap"]
  have "here_tasks (pool (sys S)) = [] \<and> done_here (pool (sys S)) = [] \<and> \<not> gone (sys S)"
    using init by (simp add: InitWithOption_def MysqlAsyncClientImpl_new_def)
  ultimately show ?thesis using S by (simp add: shell_inv_def shell_started_def input_ok_def)
qed

lemma round_query_inv:
  assumes inv: "shell_inv api inp S" and go: "content S \<noteq> ''exit''"
    and line: "getline (cin S) (content S) = (i, c)" and c: "c \<noteq> ''exit''"
    and round: "shell_round S = returns S'"
  shows "shell_inv api inp S'"
proof -
  let ?qs = "length (typed S)"
  let ?h = "(heap_of (pool (sys S)))(?qs := shell_session c ?qs)"
  let ?W = "(sys S)\<lparr>pool := (pool (sys S))\<lparr>heap_of := ?h\<rparr>\<rparr>"
  from round line c obtain p1 where p1: "PendingQuery False ?qs 0 (pool ?W) = returns p1"
    and S': "S' = S\<lparr>sys := (sys S)\<lparr>pool := p1, asked := asked (sys S) @ [?qs], shut := False\<rparr>,
                   cin := i, content := c, typed := typed S @ [c]\<rparr>"
    by (auto simp: shell_round_def then_do_returns_iff Let_def)
  have "\<not> gone (sys S)" using inv go by (auto simp: shell_inv_def input_ok_def)
  have "pool_step api (sys S) ?W" by (rule pool_step.op [of "WriteOp ?h"]) simp_all
  with inv have "reachable (pool_started api) (pool_step api) ?W"
    unfolding shell_inv_def by (blast intro: reachable.step)
  moreover have "pool_step api ?W (sys S')"
    using PendingQuery_off_loop [OF p1] \<open>\<not> gone (sys S)\<close> S'
    by (intro pool_step.op [of "PendOp ?qs"]) (simp_all add: in_pool_def)
  ultimately have "reachable (pool_started api) (pool_step api) (sys S')" by (rule reachable.step)
  with inv S' PendingQuery_off_loop [OF p1] round_input [OF _ go line, of inp "sys S'"] c show ?thesis
    by (simp add: shell_inv_def)
qed

lemma round_exit_inv:
  assumes inv: "shell_inv api inp S" and go: "content S \<noteq> ''exit''"
    and line: "getline (cin S) (content S) = (i, ''exit'')" and round: "shell_round S = returns S'"
  shows "shell_inv api inp S'"
proof -
  let ?C = "(sys S)\<lparr>pool := ClientClose (pool (sys S)), shut := True\<rparr>"
  from round line obtain p1 where p1: "MysqlAsyncClientImpl_delete (ClientClose (pool (sys S))) = returns p1"
    and S': "S' = S\<lparr>sys := (sys S)\<lparr>pool := p1, shut := True\<rparr>,
                   cin := i, content := ''exit'', ended := True\<rparr>"
    by (auto simp: shell_round_def then_do_returns_iff)
  have "\<not> gone (sys S)" using inv go by (auto simp: shell_inv_def input_ok_def)
  then have "pool_step api (sys S) ?C" by (intro pool_step.op [of CloseOp]) simp_all
  with inv have "reachable (pool_started api) (pool_step api) ?C"
    unfolding shell_inv_def by (blast intro: reachable.step)
  moreover have "pool_step api ?C (sys S')"
    using p1 \<open>\<not> gone (sys S)\<close> S' by (intro pool_step.op [of DeleteOp]) (simp_all add: in_pool_def ClientClose_def)
  ultimately have "reachable (pool_started api) (pool_step api) (sys S')" by (rule reachable.step)
  moreover have "here_tasks p1 = here_tasks (pool (sys S)) \<and> done_here p1 = done_here (pool (sys S)) \<and> pool_freed p1"
    using clear_connections_here p1
    by (fastforce simp: MysqlAsyncClientImpl_delete_def ClientClose_def then_do_returns_iff)
  ultimately show ?thesis
    using inv S' round_input [OF _ go line, of inp "sys S'"] by (simp add: shell_inv_def)
qed

lemma shell_step_inv:
  assumes "shell_inv api inp S" and "shell_step api S S'"
  shows "shell_inv api inp S'"
  using assms(2)
proof cases
  case round
  obtain i c where line: "getline (cin S) (content S) = (i, c)" by fastforce
  show ?thesis
  proof (cases "c = ''exit''")
    case True
    with round_exit_inv [OF assms(1) round(1)] line round(2) show ?thesis by blast
  next
    case False
    with round_query_inv [OF assms(1) round(1) line] round(2) show ?thesis by blast
  qed
next
  case (loop op Q)
  from loop(3,4) have "pool_step api (sys S) Q" by (rule pool_step.op)
  with assms(1) have "reachable (pool_started api) (pool_step api) Q"
    unfolding shell_inv_def by (blast intro: reachable.step)
  moreover have "input_ok inp (S\<lparr>sys := Q\<rparr>) = input_ok inp S" by (simp add: input_ok_def)
  ultimately show ?thesis using assms(1) loop_op_frame [OF loop(2,4)] loop(1) by (simp add: shell_inv_def)
qed

interpretation shell: invariant_system "shell_started api FLAGS_host inp" "shell_step api" "shell_inv api inp"
  for api :: "('m, 'r) mysql_api" and FLAGS_host inp
  by unfold_locales (auto intro: shell_started_inv shell_step_inv)

section \<open>Properties\<close>



definition sample_shell :: "(nat, sample_res) shell" where
  "sample_shell = \<lparr>sys = \<lparr>pool = sample_pool 1, asked = [], shut = False\<rparr>,
     cin = (''a'' @ [newline] @ ''exit'', True), content = '''', typed = [], ended = False\<rparr>"

lemma sample_shell_started: "shell_started sample_api ''db'' (''a'' @ [newline] @ ''exit'') sample_shell"
proof -
  have "shell_options ''db'' = sample_options" by (simp add: shell_options_def sample_options_def)
  moreover have "MysqlAsyncClientImpl_new 1 0 (\<lambda>a. sample_start) sample_heap = (sample_pool 0)\<lparr>count_' := 1\<rparr>"
    by (simp add: MysqlAsyncClientImpl_new_def sample_pool_def)
  moreover have "sample_pool 1 = (sample_pool (0 + 1))\<lparr>count_' := 1\<rparr>" by (simp add: sample_pool_def)
  ultimately have "InitWithOption sample_api sample_junk (shell_options ''db'')
      (MysqlAsyncClientImpl_new 1 0 (\<lambda>a. sample_start) sample_heap) = returns (sample_pool 1)"
    using sample_init [where k = 1 and n = 0 and i = 1] by (simp add: InitWithOption_def)
  then have "\<exists>index0 mem heap junk. InitWithOption sample_api junk (shell_options ''db'')
      (MysqlAsyncClientImpl_new 1 index0 mem heap) = returns (sample_pool 1)" by blast
  then show ?thesis by (simp add: shell_started_def sample_shell_def)
qed

definition sample_typed :: "(nat, sample_res) shell" where
  "sample_typed = \<lparr>sys = \<lparr>pool = (sample_pool 1)\<lparr>use_index_' := 1, heap_of := sample_heap(0 := shell_session ''a'' 0),
       loop_tasks := [RunStartQuery 0 0]\<rparr>, asked = [0], shut = False\<rparr>,
     cin = (''exit'', True), content = ''a'', typed = [''a''], ended = False\<rparr>"

lemma sample_shell_query: "shell_round sample_shell = returns sample_typed"
proof -
  let ?p = "(sample_pool 1)\<lparr>heap_of := sample_heap(0 := shell_session ''a'' 0)\<rparr>"
  have "get_client ?p = returns (?p\<lparr>use_index_' := 1\<rparr>, Some 0)"
    using get_client_effect [of ?p] by (simp add: sample_pool_def)
  then show ?thesis
    by (simp add: shell_round_def getline_def sample_shell_def sample_typed_def PendingQuery_def)
qed




text \<open>Without a line \<open>exit\<close> the program never ends: at the end of the input the string keeps its last value,
  which is pended as a query over and over.\<close>

theorem shell_needs_exit:
  assumes "''exit'' \<notin> set (input_lines inp)"
    and "reachable (shell_started api FLAGS_host inp) (shell_step api) S"
  shows "\<not> ended S
         \<and> (if snd (cin S) then \<exists>rest. input_lines inp = typed S @ rest
            else \<exists>k. typed S = input_lines inp @ replicate k (last (input_lines inp)))"
proof -
  have "input_ok inp S" using shell.reachable_inv [OF assms(2)] by (simp add: shell_inv_def)
  with assms(1) show ?thesis by (auto simp: input_ok_def)
qed

theorem shell_needs_exit_witness:
  "\<not> ended (sample_shell\<lparr>cin := (''a'', True)\<rparr>)"
proof -
  have "reachable (shell_started sample_api ''db'' ''a'') (shell_step sample_api) (sample_shell\<lparr>cin := (''a'', True)\<rparr>)"
    using sample_shell_started by (intro reachable.start) (simp add: shell_started_def)
  from shell_needs_exit [OF _ this] show ?thesis by (simp add: input_lines.simps)
qed

text \<open>A line is pended exactly when the connection whose turn it is is ready; when it is not, the program
  dereferences the null pointer \<open>MessageLoop::Current()\<close> returns on the thread of \<open>main\<close>.\<close>

theorem shell_query_outcome:
  assumes "rows_have_width api" and "reachable (shell_started api FLAGS_host inp) (shell_step api) S"
    and "\<not> ended S" and "getline (cin S) (content S) = (i, c)" and "c \<noteq> ''exit''"
  defines "p \<equiv> pool (sys S)"
  shows "if ready_' (con_at p (connections_' p ! (unat (scast (use_index_' p + 1) :: u64) mod length (connections_' p))))
         then \<exists>S'. shell_round S = returns S' \<and> typed S' = typed S @ [c]
                \<and> query_' (heap_of (pool (sys S')) (length (typed S))) = c
         else shell_round S = faults NullDeref"
proof -
  have inv: "shell_inv api inp S" using assms(2) by (rule shell.reachable_inv)
  then have "pool_inv api (sys S)" using pool_life.reachable_inv assms(1) unfolding shell_inv_def by blast
  with inv assms(3) have con: "connections_' p \<noteq> []" "set (connections_' p) \<inter> set (freed p) = {}"
    by (auto simp: shell_inv_def pool_inv_def pool_safe_def conns_ok_def p_def)
  let ?h = "(heap_of p)(length (typed S) := shell_session c (length (typed S)))"
  from get_client_effect [of "p\<lparr>heap_of := ?h\<rparr>"] con assms(4,5) show ?thesis
    by (simp add: shell_round_def PendingQuery_def p_def [symmetric] Let_def)
      (simp add: shell_session_def Then_def Query_def)
qed

theorem shell_query_outcome_witness:
  "\<exists>S'. shell_round sample_shell = returns S' \<and> typed S' = [''a''] \<and> query_' (heap_of (pool (sys S')) 0) = ''a''"
proof -
  have "reachable (shell_started sample_api ''db'' (''a'' @ [newline] @ ''exit'')) (shell_step sample_api) sample_shell"
    using sample_shell_started by (rule reachable.start)
  from shell_query_outcome [OF sample_width this, of "(''exit'', True)" "''a''"] show ?thesis
    by (simp add: sample_shell_def getline_def)
qed

section \<open>The pool is deleted too early\<close>

text \<open>Before \<open>exit\<close> the message loop does not fault. After it, it can only by calling the deleted pool.\<close>

theorem shell_loop_fault:
  assumes "rows_have_width api" and "reachable (shell_started api FLAGS_host inp) (shell_step api) S"
    and "pool_enabled op (sys S)" and "do_pool api op (sys S) = faults f"
  shows "f = UseAfterFree \<and> ended S"
proof -
  have inv: "shell_inv api inp S" using assms(2) by (rule shell.reachable_inv)
  then have "pool_inv api (sys S)" using pool_life.reachable_inv assms(1) unfolding shell_inv_def by blast
  from do_pool_ok [OF this assms(1,3)] assms(4) inv show ?thesis by (simp add: shell_inv_def)
qed

text \<open>A server that is gone when the program selects its database.\<close>

definition gone_api :: "(nat, sample_res) mysql_api" where
  "gone_api = sample_api\<lparr>mysql_select_db_start := (\<lambda>db m. (0, 2006, m))\<rparr>"

lemma gone_api_start: "shell_started gone_api FLAGS_host inp S \<longleftrightarrow> shell_started sample_api FLAGS_host inp S"
proof -
  have "SyncConnect gone_api (InitConnection gone_api opt c) = SyncConnect sample_api (InitConnection sample_api opt c)"
    for opt and c :: "(nat, sample_res) con_run"
    by (simp add: gone_api_def SyncConnect_def InitConnection_def)
  then have "init_connections gone_api junk opt n p = init_connections sample_api junk opt n p" for junk opt n p
    by (induction n arbitrary: p) (simp_all add: Let_def split: prod.splits)
  then show ?thesis by (simp add: shell_started_def InitWithOption_def)
qed

text \<open>
  The program reads a line and then \<open>exit\<close> before the message loop has started the query: the connection,
  which the server refuses, calls the pool that \<open>client.reset()\<close> has deleted.
\<close>

theorem shell_calls_deleted_pool:
  "\<exists>S. reachable (shell_started gone_api ''db'' (''a'' @ [newline] @ ''exit'')) (shell_step gone_api) S
     \<and> ended S \<and> do_pool gone_api TaskOp (sys S) = faults UseAfterFree"
proof -
  let ?R = "reachable (shell_started gone_api ''db'' (''a'' @ [newline] @ ''exit'')) (shell_step gone_api)"
  note run = reachable.step [of "shell_started gone_api ''db'' (''a'' @ [newline] @ ''exit'')" "shell_step gone_api"]
  let ?p = "(pool (sys sample_typed))\<lparr>loop_tasks := [RunStartQuery 0 0, RunSyncClose 0], connections_' := [], pool_freed := True\<rparr>"
  let ?S = "sample_typed\<lparr>sys := (sys sample_typed)\<lparr>pool := ?p, shut := True\<rparr>, cin := ([], False), content := ''exit'', ended := True\<rparr>"
  have "?R sample_shell" using sample_shell_started by (intro reachable.start) (simp add: gone_api_start)
  moreover have "content sample_shell \<noteq> ''exit''" "content sample_typed \<noteq> ''exit''"
    by (simp_all add: sample_shell_def sample_typed_def)
  ultimately have "?R sample_typed" using run shell_step.round sample_shell_query by blast
  moreover have "shell_round sample_typed = returns ?S"
    by (simp add: shell_round_def getline_def sample_typed_def ClientClose_def MysqlAsyncClientImpl_delete_def
        release_con_def)
  ultimately have "?R ?S" using run shell_step.round \<open>content sample_typed \<noteq> ''exit''\<close> by blast
  moreover have "\<exists>d es. StartQuery gone_api True (Some 0) ((con_at ?p 0)\<lparr>sess := heap_of ?p\<rparr>) = returns d
      \<and> trace d = trace ((con_at ?p 0)\<lparr>sess := heap_of ?p\<rparr>) @ es @ [ConnectionClosed]"
    by (rule refused_query_closes [where status = 0 and err = 2006 and m = 0 and m' = 0])
      (simp_all add: sample_typed_def sample_start_eq shell_session_def session_defs gone_api_def IsFatalError_def
        sample_api_def first_call_def)
  then obtain d es where "StartQuery gone_api True (Some 0) ((con_at ?p 0)\<lparr>sess := heap_of ?p\<rparr>) = returns d"
    "trace d = trace (con_at ?p 0) @ es @ [ConnectionClosed]" by auto
  from closing_calls_pool [OF _ _ _ this] have "run_front gone_api ?p = faults UseAfterFree"
    by (simp add: sample_typed_def)
  then have "do_pool gone_api TaskOp (sys ?S) = faults UseAfterFree" by (simp add: in_pool_def)
  ultimately show ?thesis by (intro exI [of _ ?S]) simp
qed

end
