(* ===== verification/Call_Context.thy ===== *)
theory Call_Context
  imports Prelude
begin

text \<open>
  \<open>CallContext\<close> of \<open>src/content/etcdv3/context/call_context.h\<close> and \<open>call_context.cc\<close>: how a coroutine
  waits for the completion of an asynchronous call that happens on another thread.

  A coroutine is a number. Calling its resumer is recorded in \<open>resumed\<close>; the coroutine library
  schedules the coroutine for each such call, so a coroutine that yields goes on when its
  resumer is called, before or after the yield. \<open>co_yield\<close> says so: a coroutine whose resumer
  is never called does not go on.

  The operations are given twice: as a whole, and as the atomic steps of two threads that
  interleave.
\<close>

section \<open>Operations\<close>

record CallContext =
  success_' :: bool
  cancel_' :: bool
  done_' :: bool
  resumer_' :: "nat option"
  resumed :: "nat list"

definition CallContext_new :: CallContext where
  "CallContext_new = \<lparr>success_' = False, cancel_' = False, done_' = False, resumer_' = None, resumed = []\<rparr>"

definition call_resumer :: "('x) CallContext_scheme \<Rightarrow> 'x CallContext_scheme" where
  "call_resumer c = (case resumer_' c of None \<Rightarrow> c | Some co \<Rightarrow> c\<lparr>resumed := resumed c @ [co]\<rparr>)"

definition ResumeContext :: "bool \<Rightarrow> 'x CallContext_scheme \<Rightarrow> 'x CallContext_scheme" where
  "ResumeContext ok c = call_resumer (c\<lparr>success_' := ok, done_' := True\<rparr>)"

text \<open>\<open>co\<close> is the running coroutine, \<open>None\<close> outside one.\<close>

definition LockContext ::
  "nat option \<Rightarrow> 'x CallContext_scheme \<Rightarrow> ('x CallContext_scheme \<times> bool) outcome" where
  "LockContext co c =
     CHECK (co \<noteq> None)
       (let c1 = c\<lparr>resumer_' := co\<rparr> in returns (c1, done_' c1))"

definition Cancel :: "'x CallContext_scheme \<Rightarrow> 'x CallContext_scheme" where
  "Cancel c = c\<lparr>cancel_' := True\<rparr>"

definition Canceled :: "'x CallContext_scheme \<Rightarrow> bool" where
  "Canceled c = cancel_' c"

definition Success :: "'x CallContext_scheme \<Rightarrow> bool" where
  "Success c = success_' c"

definition Done :: "'x CallContext_scheme \<Rightarrow> bool" where
  "Done c = done_' c"

definition Reset :: "'x CallContext_scheme \<Rightarrow> 'x CallContext_scheme" where
  "Reset c = c\<lparr>success_' := False, done_' := False, cancel_' := False, resumer_' := None\<rparr>"

text \<open>
  \<open>CO_YIELD\<close> of the coroutine \<open>co\<close>, whose wake-ups all come from the context \<open>c\<close>: it goes on by one of the
  calls of its resumer, and uses it up.
\<close>

definition co_yield :: "nat option \<Rightarrow> 'x CallContext_scheme \<Rightarrow> ('x CallContext_scheme \<Rightarrow> 'b outcome) \<Rightarrow> 'b outcome" where
  "co_yield co c k =
     (case co of None \<Rightarrow> faults CheckFailed
      | Some i \<Rightarrow> if i \<in> set (resumed c) then k (c\<lparr>resumed := remove1 i (resumed c)\<rparr>) else None)"

lemmas context_defs = ResumeContext_def LockContext_def Cancel_def Canceled_def Success_def Done_def
  call_resumer_def

section \<open>Two threads\<close>

text \<open>
  The statements of \<open>LockContext\<close> (the waiting coroutine \<open>co\<close>) and of \<open>ResumeContext\<close> (the completing
  thread) one by one; \<open>mu\<close> is the spin lock, held or not. \<open>WaitDone r\<close>: \<open>LockContext\<close> returned \<open>r\<close>.
\<close>

datatype wait_pc = WaitLock | WaitSet | WaitUnlock | WaitLoad | WaitDone bool

datatype resume_pc = ResumeSuccess | ResumeStore | ResumeLock | ResumeCall | ResumeUnlock | ResumeDone

record handshake =
  ctx :: CallContext
  mu :: bool
  wait_at :: wait_pc
  resume_at :: resume_pc

inductive hs_step :: "nat \<Rightarrow> bool \<Rightarrow> handshake \<Rightarrow> handshake \<Rightarrow> bool" for co :: nat and ok :: bool where
  wait_lock: "wait_at h = WaitLock \<Longrightarrow> \<not> mu h \<Longrightarrow> hs_step co ok h (h\<lparr>mu := True, wait_at := WaitSet\<rparr>)"
| wait_set: "wait_at h = WaitSet \<Longrightarrow>
    hs_step co ok h (h\<lparr>ctx := (ctx h)\<lparr>resumer_' := Some co\<rparr>, wait_at := WaitUnlock\<rparr>)"
| wait_unlock: "wait_at h = WaitUnlock \<Longrightarrow> hs_step co ok h (h\<lparr>mu := False, wait_at := WaitLoad\<rparr>)"
| wait_load: "wait_at h = WaitLoad \<Longrightarrow> hs_step co ok h (h\<lparr>wait_at := WaitDone (done_' (ctx h))\<rparr>)"
| resume_success: "resume_at h = ResumeSuccess \<Longrightarrow>
    hs_step co ok h (h\<lparr>ctx := (ctx h)\<lparr>success_' := ok\<rparr>, resume_at := ResumeStore\<rparr>)"
| resume_store: "resume_at h = ResumeStore \<Longrightarrow>
    hs_step co ok h (h\<lparr>ctx := (ctx h)\<lparr>done_' := True\<rparr>, resume_at := ResumeLock\<rparr>)"
| resume_lock: "resume_at h = ResumeLock \<Longrightarrow> \<not> mu h \<Longrightarrow>
    hs_step co ok h (h\<lparr>mu := True, resume_at := ResumeCall\<rparr>)"
| resume_call: "resume_at h = ResumeCall \<Longrightarrow>
    hs_step co ok h (h\<lparr>ctx := call_resumer (ctx h), resume_at := ResumeUnlock\<rparr>)"
| resume_unlock: "resume_at h = ResumeUnlock \<Longrightarrow>
    hs_step co ok h (h\<lparr>mu := False, resume_at := ResumeDone\<rparr>)"

inductive_cases hs_stepE: "hs_step co ok h h'"

definition hs_init :: "handshake \<Rightarrow> bool" where
  "hs_init h \<longleftrightarrow> (\<exists>c. ctx h = Reset c \<and> resumed c = []) \<and> \<not> mu h \<and> wait_at h = WaitLock
     \<and> resume_at h = ResumeSuccess"

definition hs_finished :: "handshake \<Rightarrow> bool" where
  "hs_finished h \<longleftrightarrow> (\<exists>r. wait_at h = WaitDone r) \<and> resume_at h = ResumeDone"

text \<open>
  The invariant: who holds the lock, what is set by when, and the heart of it: once the resumer is
  set, either it was called, or the completing thread has still to look at it, or the flag was
  stored before the waiter set its resumer and the waiter will see it.
\<close>

fun wait_in :: "wait_pc \<Rightarrow> bool" where
  "wait_in WaitSet = True" | "wait_in WaitUnlock = True" | "wait_in _ = False"

fun resume_in :: "resume_pc \<Rightarrow> bool" where
  "resume_in ResumeCall = True" | "resume_in ResumeUnlock = True" | "resume_in _ = False"

fun resumer_set :: "wait_pc \<Rightarrow> bool" where
  "resumer_set WaitLock = False" | "resumer_set WaitSet = False" | "resumer_set _ = True"

fun flag_set :: "resume_pc \<Rightarrow> bool" where
  "flag_set ResumeSuccess = False" | "flag_set ResumeStore = False" | "flag_set _ = True"

fun called :: "resume_pc \<Rightarrow> bool" where
  "called ResumeUnlock = True" | "called ResumeDone = True" | "called _ = False"

definition hs_inv :: "nat \<Rightarrow> bool \<Rightarrow> handshake \<Rightarrow> bool" where
  "hs_inv co ok h \<longleftrightarrow>
     (mu h \<longleftrightarrow> wait_in (wait_at h) \<or> resume_in (resume_at h))
     \<and> \<not> (wait_in (wait_at h) \<and> resume_in (resume_at h))
     \<and> resumer_' (ctx h) = (if resumer_set (wait_at h) then Some co else None)
     \<and> done_' (ctx h) = flag_set (resume_at h)
     \<and> (resume_at h \<noteq> ResumeSuccess \<longrightarrow> success_' (ctx h) = ok)
     \<and> (resumed (ctx h) = [] \<or> resumed (ctx h) = [co] \<and> called (resume_at h))
     \<and> (wait_at h = WaitDone False \<and> called (resume_at h) \<longrightarrow> resumed (ctx h) = [co])
     \<and> (wait_at h = WaitDone True \<longrightarrow> flag_set (resume_at h))"

lemma hs_init_inv: "hs_init h \<Longrightarrow> hs_inv co ok h"
  by (auto simp: hs_init_def hs_inv_def Reset_def)

lemma hs_step_inv: "hs_inv co ok h \<Longrightarrow> hs_step co ok h h' \<Longrightarrow> hs_inv co ok h'"
  by (erule hs_stepE; cases "wait_at h"; cases "resume_at h") (auto simp: hs_inv_def call_resumer_def)

interpretation handshakes: invariant_system hs_init "hs_step co ok" "hs_inv co ok" for co ok
  by unfold_locales (auto intro: hs_init_inv hs_step_inv)

text \<open>The steps left to both threads.\<close>

fun wait_left :: "wait_pc \<Rightarrow> nat" where
  "wait_left WaitLock = 4" | "wait_left WaitSet = 3" | "wait_left WaitUnlock = 2"
| "wait_left WaitLoad = 1" | "wait_left (WaitDone r) = 0"

fun resume_left :: "resume_pc \<Rightarrow> nat" where
  "resume_left ResumeSuccess = 5" | "resume_left ResumeStore = 4" | "resume_left ResumeLock = 3"
| "resume_left ResumeCall = 2" | "resume_left ResumeUnlock = 1" | "resume_left ResumeDone = 0"

lemma hs_step_left:
  "hs_step co ok h h' \<Longrightarrow>
     wait_left (wait_at h') + resume_left (resume_at h') < wait_left (wait_at h) + resume_left (resume_at h)"
  by (erule hs_stepE) simp_all

lemma hs_not_stuck:
  assumes "hs_inv co ok h" and "\<not> hs_finished h"
  shows "\<exists>h'. hs_step co ok h h'"
proof (cases "wait_at h")
  case WaitLock
  with assms show ?thesis
    by (cases "resume_at h") (auto simp: hs_inv_def intro: hs_step.intros)
next
  case (WaitDone r)
  with assms show ?thesis
    by (cases "resume_at h") (auto simp: hs_inv_def hs_finished_def intro: hs_step.intros)
qed (use hs_step.intros in blast)+

section \<open>Properties\<close>

definition sample_handshake :: handshake where
  "sample_handshake = \<lparr>ctx = CallContext_new, mu = False, wait_at = WaitLock, resume_at = ResumeSuccess\<rparr>"

lemma sample_hs_init: "hs_init sample_handshake"
  by (auto simp: hs_init_def sample_handshake_def CallContext_new_def Reset_def intro!: exI [of _ CallContext_new])

text \<open>C18: No wake-up is lost, whatever way the steps of \<open>LockContext\<close> and \<open>ResumeContext\<close> interleave: as long
  as one of the two has steps left a step can be taken, every step brings the end nearer, and when
  both are through, the waiter knows the outcome and, unless \<open>LockContext\<close> told it not to wait, its
  resumer was called exactly once.\<close>

theorem no_lost_wakeup:
  assumes "reachable hs_init (hs_step co ok) h"
  shows "(\<not> hs_finished h \<longrightarrow> (\<exists>h'. hs_step co ok h h'))
         \<and> (\<forall>h'. hs_step co ok h h' \<longrightarrow>
              wait_left (wait_at h') + resume_left (resume_at h') < wait_left (wait_at h) + resume_left (resume_at h))
         \<and> (hs_finished h \<longrightarrow> success_' (ctx h) = ok
              \<and> (wait_at h = WaitDone True \<or> resumed (ctx h) = [co]))"
proof -
  have inv: "hs_inv co ok h" using assms by (rule handshakes.reachable_inv)
  then have "hs_finished h \<longrightarrow> success_' (ctx h) = ok \<and> (wait_at h = WaitDone True \<or> resumed (ctx h) = [co])"
    by (auto simp: hs_inv_def hs_finished_def)
  with hs_not_stuck [OF inv] hs_step_left show ?thesis by blast
qed

theorem no_lost_wakeup_witness:
  "\<exists>h'. hs_step 7 True sample_handshake h'"
proof -
  have "reachable hs_init (hs_step 7 True) sample_handshake" by (rule reachable.start) (rule sample_hs_init)
  from no_lost_wakeup [OF this] show ?thesis by (simp add: hs_finished_def sample_handshake_def)
qed

text \<open>The run in which the completing thread stores its flag, and then the waiter goes through.\<close>

definition late_waiter :: handshake where
  "late_waiter = \<lparr>ctx = CallContext_new\<lparr>success_' := True, done_' := True, resumer_' := Some 7, resumed := [7]\<rparr>,
     mu = False, wait_at = WaitDone True, resume_at = ResumeDone\<rparr>"

text \<open>\<open>LockContext\<close> can return true and the resumer be called nevertheless: a waiter that goes on at
  once, as \<open>KeepAliveContext::Wait\<close> does, leaves a wake-up behind that hits its next yield.\<close>

theorem wakeup_left_behind:
  "\<exists>h. reachable hs_init (hs_step 7 True) h \<and> hs_finished h \<and> wait_at h = WaitDone True \<and> resumed (ctx h) = [7]"
proof -
  note run = reachable.step [of hs_init "hs_step 7 True"]
  let ?h = "sample_handshake" and ?c = "CallContext_new"
  have "reachable hs_init (hs_step 7 True) ?h" by (rule reachable.start) (rule sample_hs_init)
  from run [OF this resume_success] have "reachable hs_init (hs_step 7 True)
      (?h\<lparr>ctx := ?c\<lparr>success_' := True\<rparr>, resume_at := ResumeStore\<rparr>)" by (simp add: sample_handshake_def)
  from run [OF this resume_store] have "reachable hs_init (hs_step 7 True)
      (?h\<lparr>ctx := ?c\<lparr>success_' := True, done_' := True\<rparr>, resume_at := ResumeLock\<rparr>)"
    by (simp add: sample_handshake_def)
  from run [OF this wait_lock] have "reachable hs_init (hs_step 7 True)
      (?h\<lparr>ctx := ?c\<lparr>success_' := True, done_' := True\<rparr>, resume_at := ResumeLock, mu := True, wait_at := WaitSet\<rparr>)"
    by (simp add: sample_handshake_def)
  from run [OF this wait_set] have "reachable hs_init (hs_step 7 True)
      (?h\<lparr>ctx := ?c\<lparr>success_' := True, done_' := True, resumer_' := Some 7\<rparr>, resume_at := ResumeLock,
         mu := True, wait_at := WaitUnlock\<rparr>)" by (simp add: sample_handshake_def)
  from run [OF this wait_unlock] have "reachable hs_init (hs_step 7 True)
      (?h\<lparr>ctx := ?c\<lparr>success_' := True, done_' := True, resumer_' := Some 7\<rparr>, resume_at := ResumeLock,
         wait_at := WaitLoad\<rparr>)" by (simp add: sample_handshake_def)
  from run [OF this wait_load] have "reachable hs_init (hs_step 7 True)
      (?h\<lparr>ctx := ?c\<lparr>success_' := True, done_' := True, resumer_' := Some 7\<rparr>, resume_at := ResumeLock,
         wait_at := WaitDone True\<rparr>)" by (simp add: sample_handshake_def)
  from run [OF this resume_lock] have "reachable hs_init (hs_step 7 True)
      (?h\<lparr>ctx := ?c\<lparr>success_' := True, done_' := True, resumer_' := Some 7\<rparr>, resume_at := ResumeCall,
         mu := True, wait_at := WaitDone True\<rparr>)" by (simp add: sample_handshake_def)
  from run [OF this resume_call] have "reachable hs_init (hs_step 7 True)
      (late_waiter\<lparr>mu := True, resume_at := ResumeUnlock\<rparr>)"
    by (simp add: sample_handshake_def late_waiter_def call_resumer_def CallContext_new_def)
  from run [OF this resume_unlock] have "reachable hs_init (hs_step 7 True) late_waiter"
    by (simp add: late_waiter_def)
  then show ?thesis by (rule exI [of _ late_waiter, OF conjI]) (auto simp: hs_finished_def late_waiter_def)
qed

end
