(* ===== verification/Etcd_Client.thy ===== *)
theory Etcd_Client
  imports Call_Context "HOL-Library.Char_ord" "HOL-Library.List_Lexorder" "HOL-Library.Sublist"
begin

text \<open>
  \<open>EtcdClientV3\<close> of \<open>src/content/etcdv3/etcd_client.h\<close> and \<open>etcd_client.cc\<close>, with the template
  \<open>ResponseCallContext\<close> of \<open>context/call_context.h\<close> it makes its calls in.

  The etcd server behind gRPC is a parameter: the record \<open>etcd_api\<close> has one function per remote
  call, from the request to the status and the response the call completes with. A message is the
  record of the fields the code reads or writes. The result \<open>None\<close> of an operation is a coroutine
  that yields and is never resumed.
\<close>

section \<open>Messages and calls\<close>

record grpc_status =
  status_ok :: bool
  error_message :: string

definition OK_status :: grpc_status where
  "OK_status = \<lparr>status_ok = True, error_message = ''''\<rparr>"

record KeyValue =
  kv_key :: string
  kv_value :: string
  kv_lease :: int

record PutRequest =
  put_key :: string
  put_value :: string
  put_lease :: int

record PutResponse =
  header_revision :: int

datatype SortOrder = SORT_NONE | ASCEND | DESCEND

datatype SortTarget = SORT_KEY | SORT_VERSION | SORT_CREATE | SORT_MOD | SORT_VALUE

text \<open>The default of a protobuf enum is its first value, for \<open>SortTarget\<close> that is \<open>KEY\<close>.\<close>

record RangeRequest =
  range_key :: string
  range_end :: string
  sort_order :: SortOrder
  sort_target :: SortTarget

record RangeResponse =
  kvs :: "KeyValue list"

record LeaseGrantResponse =
  grant_id :: int

record LeaseTimeToLiveResponse =
  live_ttl :: int

record etcd_api =
  rpc_put :: "PutRequest \<Rightarrow> grpc_status \<times> PutResponse"
  rpc_range :: "RangeRequest \<Rightarrow> grpc_status \<times> RangeResponse"
  rpc_lease_grant :: "int \<Rightarrow> grpc_status \<times> LeaseGrantResponse"
  rpc_time_to_live :: "int \<Rightarrow> grpc_status \<times> LeaseTimeToLiveResponse"

section \<open>Contexts with a response\<close>

record 'r ResponseCallContext = CallContext +
  response_' :: 'r
  status_' :: grpc_status

definition ResponseCallContext_new :: "'r \<Rightarrow> 'r ResponseCallContext" where
  "ResponseCallContext_new blank =
     \<lparr>success_' = False, cancel_' = False, done_' = False, resumer_' = None, resumed = [],
      response_' = blank, status_' = OK_status\<rparr>"

definition DumpStatusMessage :: "'r ResponseCallContext \<Rightarrow> string" where
  "DumpStatusMessage c = error_message (status_' c)"

definition IsStatusOK :: "'r ResponseCallContext \<Rightarrow> bool" where
  "IsStatusOK c = status_ok (status_' c)"

definition GetResponse :: "'r ResponseCallContext \<Rightarrow> 'r" where
  "GetResponse c = response_' c"

section \<open>The client\<close>

text \<open>The channel and the stubs: set or null.\<close>

record EtcdClientV3 =
  channel_' :: bool
  kv_stub_' :: bool
  lease_stub_' :: bool

definition EtcdClientV3_new :: EtcdClientV3 where
  "EtcdClientV3_new = \<lparr>channel_' = False, kv_stub_' = False, lease_stub_' = False\<rparr>"

text \<open>\<open>channel\<close>, \<open>kv\<close> and \<open>lease\<close>: did gRPC make them?\<close>

definition Initilize :: "bool \<Rightarrow> bool \<Rightarrow> bool \<Rightarrow> EtcdClientV3 \<Rightarrow> EtcdClientV3 outcome" where
  "Initilize channel kv lease cl =
     CHECK channel
       (CHECK kv
          (CHECK lease (returns (cl\<lparr>channel_' := channel, kv_stub_' := kv, lease_stub_' := lease\<rparr>))))"

definition Finalize :: "EtcdClientV3 \<Rightarrow> EtcdClientV3" where
  "Finalize cl = cl"

text \<open>\<open>co\<close> is the running coroutine.\<close>

definition Put_request ::
  "EtcdClientV3 \<Rightarrow> etcd_api \<Rightarrow> nat option \<Rightarrow> PutRequest \<Rightarrow> int outcome" where
  "Put_request cl api co request =
     CHECK (co \<noteq> None)
       (then_do (LockContext co (ResponseCallContext_new \<lparr>header_revision = 0\<rparr>))
          (\<lambda>(ctx, _).
             if \<not> kv_stub_' cl then faults NullDeref
             else case rpc_put api request of
               (st, response) \<Rightarrow>
                 let ctx1 = ctx\<lparr>response_' := response\<rparr>;
                     ctx2 = ResumeContext (status_ok st) (ctx1\<lparr>status_' := st\<rparr>)
                 in co_yield co ctx2
                      (\<lambda>c. if IsStatusOK c then returns (header_revision (GetResponse c)) else returns (- 1))))"

definition Put :: "EtcdClientV3 \<Rightarrow> etcd_api \<Rightarrow> nat option \<Rightarrow> KeyValue \<Rightarrow> int outcome" where
  "Put cl api co kv =
     Put_request cl api co
       \<lparr>put_key = kv_key kv, put_value = kv_value kv, put_lease = kv_lease kv\<rparr>"

text \<open>
  \<open>range_end.back() = ascii + 1\<close>: the last byte goes up by one and wraps; the last byte of an empty
  string does not exist. The same lines stand in \<open>EtcdWatcher::Watch\<close>.
\<close>

definition byte_succ :: "char \<Rightarrow> char" where
  "byte_succ c = char_of ((of_char c + 1 :: nat) mod 256)"

definition prefix_end :: "string \<Rightarrow> string outcome" where
  "prefix_end key =
     (if key = '''' then faults OutOfBounds
      else returns (butlast key @ [byte_succ (last key)]))"

definition range_request :: "string \<Rightarrow> bool \<Rightarrow> RangeRequest outcome" where
  "range_request key with_prefix =
     (let req = \<lparr>range_key = key, range_end = '''', sort_order = SORT_NONE, sort_target = SORT_KEY\<rparr>
      in if with_prefix
         then then_do (prefix_end key)
                (\<lambda>e. returns (req\<lparr>range_end := e, sort_target := SORT_KEY, sort_order := ASCEND\<rparr>))
         else returns req)"

definition Range_kvs ::
  "EtcdClientV3 \<Rightarrow> etcd_api \<Rightarrow> nat option \<Rightarrow> string \<Rightarrow> bool \<Rightarrow> KeyValue list outcome" where
  "Range_kvs cl api co key with_prefix =
     CHECK (co \<noteq> None)
       (then_do (range_request key with_prefix)
          (\<lambda>get_request.
             then_do (LockContext co (ResponseCallContext_new \<lparr>kvs = []\<rparr>))
               (\<lambda>(ctx, _).
                  if \<not> kv_stub_' cl then faults NullDeref
                  else case rpc_range api get_request of
                    (st, response) \<Rightarrow>
                      let ctx1 = ctx\<lparr>response_' := response\<rparr>;
                          ctx2 = ResumeContext (status_ok st) ctx1
                      in co_yield co ctx2
                           (\<lambda>c. if \<not> IsStatusOK c then returns [] else returns (kvs (GetResponse c))))))"

definition LeaseGrant :: "EtcdClientV3 \<Rightarrow> etcd_api \<Rightarrow> nat option \<Rightarrow> int \<Rightarrow> int outcome" where
  "LeaseGrant cl api co ttl =
     CHECK (co \<noteq> None)
       (then_do (LockContext co (ResponseCallContext_new \<lparr>grant_id = 0\<rparr>))
          (\<lambda>(ctx, _).
             if \<not> lease_stub_' cl then faults NullDeref
             else case rpc_lease_grant api ttl of
               (st, response) \<Rightarrow>
                 let ctx1 = ctx\<lparr>response_' := response\<rparr>;
                     ctx2 = ResumeContext (status_ok st) ctx1
                 in co_yield co ctx2 (\<lambda>c. returns (grant_id (GetResponse c)))))"

definition TimeToAlive :: "EtcdClientV3 \<Rightarrow> etcd_api \<Rightarrow> nat option \<Rightarrow> int \<Rightarrow> int outcome" where
  "TimeToAlive cl api co lease_id =
     CHECK (co \<noteq> None)
       (let ctx = ResponseCallContext_new \<lparr>live_ttl = 0\<rparr>
        in if \<not> lease_stub_' cl then faults NullDeref
           else case rpc_time_to_live api lease_id of
             (st, response) \<Rightarrow>
               let ctx1 = ctx\<lparr>response_' := response\<rparr>;
                   ctx2 = ResumeContext (status_ok st) ctx1
               in co_yield co ctx2 (\<lambda>c. returns (live_ttl (GetResponse c))))"

section \<open>What the code relies on from etcd\<close>

text \<open>
  The range a request selects: one key, all keys from \<open>key\<close> on (the end is a single zero byte), or
  the keys from \<open>key\<close> up to the end, in the order of their bytes.
\<close>

definition in_range :: "RangeRequest \<Rightarrow> string \<Rightarrow> bool" where
  "in_range req k \<longleftrightarrow>
     (if range_end req = '''' then k = range_key req
      else if range_end req = [CHR 0x00] then range_key req \<le> k
      else range_key req \<le> k \<and> k < range_end req)"

definition serves_range :: "etcd_api \<Rightarrow> KeyValue list \<Rightarrow> bool" where
  "serves_range api store \<longleftrightarrow>
     (\<forall>req. sort_target req = SORT_KEY \<longrightarrow> sort_order req \<noteq> DESCEND \<longrightarrow>
        rpc_range api req = (OK_status, \<lparr>kvs = sort_key kv_key (filter (\<lambda>kv. in_range req (kv_key kv)) store)\<rparr>))"

text \<open>A call that fails leaves the response as it was made.\<close>

definition failures_are_empty :: "etcd_api \<Rightarrow> bool" where
  "failures_are_empty api \<longleftrightarrow>
     (\<forall>req st r. rpc_range api req = (st, r) \<longrightarrow> \<not> status_ok st \<longrightarrow> r = \<lparr>kvs = []\<rparr>)
     \<and> (\<forall>ttl st r. rpc_lease_grant api ttl = (st, r) \<longrightarrow> \<not> status_ok st \<longrightarrow> r = \<lparr>grant_id = 0\<rparr>)"

section \<open>Prefixes as ranges\<close>

lemma less_char_nat: "(c < d) = (of_char c < (of_char d :: nat))" for c d :: char
  by (simp add: less_char_def)

lemma le_char_nat: "(c \<le> d) = (of_char c \<le> (of_char d :: nat))" for c d :: char
  by (simp add: less_eq_char_def)

lemma of_char_below: "(of_char c :: nat) < 256"
  by simp

lemma of_byte_succ: "c \<noteq> CHR 0xFF \<Longrightarrow> of_char (byte_succ c) = (of_char c + 1 :: nat)"
proof -
  assume "c \<noteq> CHR 0xFF"
  then have "of_char c \<noteq> (of_char (CHR 0xFF) :: nat)" by (metis char_of_char)
  then have "of_char c \<noteq> (255 :: nat)" by simp
  with of_char_below [of c] have "(of_char c + 1 :: nat) < 256" by linarith
  then show ?thesis by (simp add: byte_succ_def)
qed

lemma last_byte_range:
  assumes "c \<noteq> CHR 0xFF"
  shows "[c] \<le> k \<and> k < [byte_succ c] \<longleftrightarrow> (\<exists>r. k = c # r)"
proof (cases k)
  case (Cons d r)
  have "d < byte_succ c \<longleftrightarrow> d \<le> c"
    using of_byte_succ [OF assms] by (simp add: less_char_nat le_char_nat less_Suc_eq_le)
  with Cons show ?thesis by auto
qed simp

lemma prefix_range:
  "c \<noteq> CHR 0xFF \<Longrightarrow> p @ [c] \<le> k \<and> k < p @ [byte_succ c] \<longleftrightarrow> prefix (p @ [c]) k"
proof (induction p arbitrary: k)
  case Nil
  then show ?case using last_byte_range [of c k] by (auto simp: prefix_def)
next
  case (Cons x p)
  note IH = Cons.IH [OF Cons.prems]
  show ?case
  proof (cases k)
    case (Cons y r)
    then show ?thesis using IH [of r] by (cases "x = y") auto
  qed simp
qed

lemma prefix_end_range:
  assumes "key \<noteq> ''''" and "last key \<noteq> CHR 0xFF"
  shows "\<exists>e. prefix_end key = returns e \<and> e \<noteq> '''' \<and> e \<noteq> [CHR 0x00] \<and> (\<forall>k. key \<le> k \<and> k < e \<longleftrightarrow> prefix key k)"
proof -
  let ?e = "butlast key @ [byte_succ (last key)]"
  have "byte_succ (last key) \<noteq> CHR 0x00"
  proof
    assume "byte_succ (last key) = CHR 0x00"
    then have "of_char (byte_succ (last key)) = (0 :: nat)" by simp
    with of_byte_succ [OF assms(2)] show False by simp
  qed
  moreover have "key \<le> k \<and> k < ?e \<longleftrightarrow> prefix key k" for k
    using prefix_range [OF assms(2), of "butlast key" k] assms(1) by simp
  ultimately show ?thesis using assms(1) by (auto simp: prefix_end_def append_eq_Cons_conv)
qed

section \<open>Properties\<close>

definition sample_client :: EtcdClientV3 where
  "sample_client = \<lparr>channel_' = True, kv_stub_' = True, lease_stub_' = True\<rparr>"

definition sample_store :: "KeyValue list" where
  "sample_store =
     [\<lparr>kv_key = ''/b'', kv_value = ''2'', kv_lease = 0\<rparr>, \<lparr>kv_key = ''/a/y'', kv_value = ''1'', kv_lease = 0\<rparr>,
      \<lparr>kv_key = ''/a/x'', kv_value = ''0'', kv_lease = 0\<rparr>]"

definition sample_etcd :: etcd_api where
  "sample_etcd =
     \<lparr>rpc_put = (\<lambda>req. (\<lparr>status_ok = put_lease req \<noteq> 9, error_message = ''no such lease''\<rparr>, \<lparr>header_revision = 42\<rparr>)),
      rpc_range = (\<lambda>req. (OK_status, \<lparr>kvs = sort_key kv_key (filter (\<lambda>kv. in_range req (kv_key kv)) sample_store)\<rparr>)),
      rpc_lease_grant = (\<lambda>ttl. if ttl > 0 then (OK_status, \<lparr>grant_id = 77\<rparr>)
                              else (\<lparr>status_ok = False, error_message = ''bad ttl''\<rparr>, \<lparr>grant_id = 0\<rparr>)),
      rpc_time_to_live = (\<lambda>i. (OK_status, \<lparr>live_ttl = 10\<rparr>))\<rparr>"

lemma sample_serves: "serves_range sample_etcd sample_store"
  by (simp add: serves_range_def sample_etcd_def)

text \<open>C20: A prefix request selects exactly the keys that have the prefix: for a key that is not empty and
  does not end in the byte 255, a key lies between it and the computed end, in the order of
  the bytes, exactly when it starts with it.\<close>

theorem prefix_end_selects_prefix:
  assumes "key \<noteq> ''''" and "last key \<noteq> CHR 0xFF"
  shows "\<exists>req. range_request key True = returns req \<and> range_key req = key
           \<and> (\<forall>k. in_range req k \<longleftrightarrow> prefix key k)"
  using prefix_end_range [OF assms] by (auto simp: range_request_def in_range_def)

theorem prefix_end_selects_prefix_witness:
  "\<exists>req. range_request ''/a'' True = returns req \<and> in_range req ''/a/x'' \<and> \<not> in_range req ''/b''"
  using prefix_end_selects_prefix [of "''/a''"] by auto

lemma Range_kvs_effect:
  assumes "serves_range api store" and "kv_stub_' cl" and "co \<noteq> None"
    and "with_prefix \<longrightarrow> key \<noteq> '''' \<and> last key \<noteq> CHR 0xFF"
  shows "Range_kvs cl api co key with_prefix = returns (sort_key kv_key
           (filter (\<lambda>kv. if with_prefix then prefix key (kv_key kv) else kv_key kv = key) store))"
proof -
  obtain req where req: "range_request key with_prefix = returns req" "sort_target req = SORT_KEY"
    "sort_order req \<noteq> DESCEND" "\<forall>k. in_range req k \<longleftrightarrow> (if with_prefix then prefix key k else k = key)"
    using prefix_end_range [of key] assms(4)
    by (cases with_prefix) (auto simp: range_request_def in_range_def)
  let ?r = "\<lparr>kvs = sort_key kv_key (filter (\<lambda>kv. in_range req (kv_key kv)) store)\<rparr>"
  have rpc: "rpc_range api req = (OK_status, ?r)" using assms(1) req(2,3) by (simp add: serves_range_def)
  have "Range_kvs cl api co key with_prefix = returns (kvs ?r)"
    using assms(2,3) req(1) rpc
    by (auto simp: Range_kvs_def co_yield_def context_defs IsStatusOK_def GetResponse_def ResponseCallContext_new_def
        OK_status_def)
  with req(4) show ?thesis by simp
qed

text \<open>C19: \<open>Range\<close> with a prefix, on a server that answers range requests, returns exactly the stored
  pairs whose key has the prefix, in ascending order of the keys; without one, the pairs of
  that key.\<close>

theorem range_returns_matching_pairs:
  assumes "serves_range api store" and "kv_stub_' cl" and "co \<noteq> None"
    and "with_prefix \<longrightarrow> key \<noteq> '''' \<and> last key \<noteq> CHR 0xFF"
  shows "Range_kvs cl api co key with_prefix = returns (sort_key kv_key
           (filter (\<lambda>kv. if with_prefix then prefix key (kv_key kv) else kv_key kv = key) store))"
  using assms by (rule Range_kvs_effect)

theorem range_returns_matching_pairs_witness:
  "Range_kvs sample_client sample_etcd (Some 1) ''/a'' True = returns
     [\<lparr>kv_key = ''/a/x'', kv_value = ''0'', kv_lease = 0\<rparr>, \<lparr>kv_key = ''/a/y'', kv_value = ''1'', kv_lease = 0\<rparr>]"
  using range_returns_matching_pairs [OF sample_serves, of sample_client "Some 1" True "''/a''"]
  by (simp add: sample_client_def sample_store_def prefix_def)

text \<open>C28: When the last byte is 255 the end wraps to a zero byte, and the range holds no key with the
  prefix, unless the key is that one byte.\<close>

theorem prefix_end_wraps:
  assumes "last key = CHR 0xFF" and "1 < length key"
  shows "\<exists>req. range_request key True = returns req \<and> (\<forall>k. prefix key k \<longrightarrow> \<not> in_range req k)"
proof -
  have "\<not> (p @ [CHR 0xFF] @ r < p @ [CHR 0x00])" for p r :: string
    by (induction p) (simp_all add: less_char_nat)
  then have above: "\<not> k < butlast key @ [CHR 0x00]" if "prefix (butlast key @ [CHR 0xFF]) k" for k
    using that by (auto simp: prefix_def)
  have ne: "key \<noteq> []" using assms(2) by auto
  moreover have "butlast key @ [CHR 0xFF] = key" using append_butlast_last_id [OF ne] assms(1) by simp
  moreover have "butlast key \<noteq> []"
  proof
    assume "butlast key = []"
    then have "length (butlast key) = 0" by simp
    with assms(2) show False by simp
  qed
  moreover have "byte_succ (CHR 0xFF) = CHR 0x00" by (simp add: byte_succ_def char_of_def)
  ultimately show ?thesis using assms(1) above
    by (simp add: range_request_def prefix_end_def in_range_def append_eq_Cons_conv)
qed

theorem prefix_end_wraps_witness:
  "\<exists>req. range_request [CHR 0x61, CHR 0xFF] True = returns req \<and> \<not> in_range req [CHR 0x61, CHR 0xFF, CHR 0x62]"
  using prefix_end_wraps [of "[CHR 0x61, CHR 0xFF]"] by (auto simp: prefix_def)

text \<open>A prefix query for the empty key reads the byte before the string.\<close>

theorem empty_prefix_out_of_bounds:
  "Range_kvs cl api (Some co) '''' True = faults OutOfBounds"
  by (simp add: Range_kvs_def range_request_def prefix_end_def)

text \<open>\<open>Put\<close> sends the key, the value and the lease of the pair and returns the revision of the answer,
  or -1 when the call failed.\<close>

theorem put_returns_revision:
  assumes "kv_stub_' cl" and "co \<noteq> None"
    and "rpc_put api \<lparr>put_key = kv_key kv, put_value = kv_value kv, put_lease = kv_lease kv\<rparr> = (st, r)"
  shows "Put cl api co kv = returns (if status_ok st then header_revision r else - 1)"
  using assms by (auto simp: Put_def Put_request_def co_yield_def context_defs IsStatusOK_def GetResponse_def)

theorem put_returns_revision_witness:
  "Put sample_client sample_etcd (Some 1) \<lparr>kv_key = ''/c'', kv_value = ''v'', kv_lease = 9\<rparr> = returns (- 1)"
  using put_returns_revision [of sample_client "Some 1" sample_etcd "\<lparr>kv_key = ''/c'', kv_value = ''v'', kv_lease = 9\<rparr>"]
  by (simp add: sample_client_def sample_etcd_def)

text \<open>\<open>Range\<close> and \<open>LeaseGrant\<close> do not look at the status of the call, which their callbacks do not
  store: a failed range is an empty list by way of its empty response, and a lease that was not
  granted is the lease 0, which etcd reads as no lease.\<close>

theorem failed_calls_look_like_answers:
  assumes "kv_stub_' cl" and "lease_stub_' cl" and "failures_are_empty api" and "co \<noteq> None"
    and "rpc_lease_grant api ttl = (st, g)" and "\<not> status_ok st"
    and "range_request key with_prefix = returns req" and "rpc_range api req = (st', r)"
  shows "LeaseGrant cl api co ttl = returns 0 \<and> Range_kvs cl api co key with_prefix = returns (kvs r)"
proof -
  have "grant_id g = 0" using assms(3,5,6) unfolding failures_are_empty_def by fastforce
  with assms show ?thesis
    by (auto simp: LeaseGrant_def Range_kvs_def co_yield_def context_defs IsStatusOK_def GetResponse_def
        ResponseCallContext_new_def OK_status_def)
qed

theorem failed_calls_look_like_answers_witness:
  "LeaseGrant sample_client sample_etcd (Some 1) 0 = returns 0"
  using failed_calls_look_like_answers [of sample_client sample_etcd "Some 1" 0
      "\<lparr>status_ok = False, error_message = ''bad ttl''\<rparr>" "\<lparr>grant_id = 0\<rparr>" "''k''" False
      "\<lparr>range_key = ''k'', range_end = '''', sort_order = SORT_NONE, sort_target = SORT_KEY\<rparr>" OK_status "\<lparr>kvs = []\<rparr>"]
  by (simp add: sample_client_def sample_etcd_def failures_are_empty_def range_request_def OK_status_def
      in_range_def sample_store_def)

text \<open>\<open>TimeToAlive\<close> never returns: it yields without having set a resumer, so the completed call has
  nobody to wake.\<close>

theorem time_to_alive_never_returns:
  "lease_stub_' cl \<Longrightarrow> TimeToAlive cl api (Some co) lease_id = None"
  by (auto simp: TimeToAlive_def co_yield_def context_defs ResponseCallContext_new_def split: prod.split)

theorem time_to_alive_never_returns_witness:
  "TimeToAlive sample_client sample_etcd (Some 1) 77 = None"
  by (rule time_to_alive_never_returns) (simp add: sample_client_def)

end
