(* ===== verification/Keepalive.thy ===== *)
theory Keepalive
  imports Etcd_Client
begin

text \<open>
  \<open>KeepAliveContext\<close> of \<open>src/content/etcdv3/context/keepalive_ctx.h\<close> and \<open>keepalive_ctx.cc\<close>: the
  bidirectional stream that keeps a lease alive. The calls it makes on gRPC and on the message
  loop are recorded in \<open>calls\<close>, in the order it makes them; the completions gRPC reports and the
  delayed task the loop runs are the steps of \<open>keep_step\<close>.
\<close>

section \<open>The context\<close>

datatype keep_call =
    LeaseKeepAlive
  | StartCall
  | StartWrite int
  | StartRead
  | StartWritesDone
  | PostDelayWrite int

record KeepAliveContext = CallContext +
  lease_id_' :: int
  interval_' :: int
  request_' :: int
  calls :: "keep_call list"

text \<open>The constructor; \<open>lease_id_'\<close> and \<open>interval_'\<close> have no initialiser. \<open>loop_ok\<close>: the loop is not null.\<close>

definition KeepAliveContext_new :: "int \<Rightarrow> int \<Rightarrow> bool \<Rightarrow> KeepAliveContext outcome" where
  "KeepAliveContext_new lease0 interval0 loop_ok =
     CHECK loop_ok
       (returns \<lparr>success_' = False, cancel_' = False, done_' = False, resumer_' = None, resumed = [],
                 lease_id_' = lease0, interval_' = interval0, request_' = 0, calls = []\<rparr>)"

definition call :: "keep_call \<Rightarrow> KeepAliveContext \<Rightarrow> KeepAliveContext" where
  "call e k = k\<lparr>calls := calls k @ [e]\<rparr>"

definition Start_keepalive :: "int \<Rightarrow> int \<Rightarrow> KeepAliveContext \<Rightarrow> KeepAliveContext \<times> bool" where
  "Start_keepalive lease interval k =
     (let k1 = k\<lparr>lease_id_' := lease, interval_' := interval\<rparr>;
          k2 = call StartCall (call LeaseKeepAlive k1);
          k3 = k2\<lparr>request_' := lease\<rparr>
      in (call (StartWrite (request_' k3)) k3, True))"

text \<open>\<open>meanwhile\<close> is what the stream does to the context while the coroutine is suspended.\<close>

definition Wait ::
  "(KeepAliveContext \<Rightarrow> KeepAliveContext) \<Rightarrow> nat option \<Rightarrow> KeepAliveContext \<Rightarrow> KeepAliveContext outcome" where
  "Wait meanwhile co k =
     then_do (LockContext co k) (\<lambda>(k1, b). if b then returns k1 else co_yield co (meanwhile k1) returns)"

definition OnDone :: "grpc_status \<Rightarrow> KeepAliveContext \<Rightarrow> KeepAliveContext" where
  "OnDone s k = ResumeContext (status_ok s) k"

definition OnReadDone :: "bool \<Rightarrow> KeepAliveContext \<Rightarrow> KeepAliveContext" where
  "OnReadDone ok k =
     (let k1 = (if \<not> ok then ResumeContext False k else k)
      in if Canceled k1 then call StartWritesDone k1
         else call (PostDelayWrite (interval_' k1)) k1)"

text \<open>The delayed task \<open>next\<close>.\<close>

definition next_write :: "KeepAliveContext \<Rightarrow> KeepAliveContext" where
  "next_write k = call (StartWrite (request_' k)) k"

definition OnWriteDone :: "bool \<Rightarrow> KeepAliveContext \<Rightarrow> KeepAliveContext" where
  "OnWriteDone ok k = (if ok then call StartRead k else ResumeContext False k)"

definition OnWritesDoneDone :: "bool \<Rightarrow> KeepAliveContext \<Rightarrow> KeepAliveContext" where
  "OnWritesDoneDone ok k = k"

text \<open>\<open>EtcdClientV3::LeaseKeepalive\<close>: make a context and start it.\<close>

definition LeaseKeepalive ::
  "bool \<Rightarrow> nat option \<Rightarrow> int \<Rightarrow> int \<Rightarrow> int \<Rightarrow> int \<Rightarrow> KeepAliveContext outcome" where
  "LeaseKeepalive loop_ok co lease0 interval0 lease interval =
     CHECK (co \<noteq> None)
       (then_do (KeepAliveContext_new lease0 interval0 loop_ok)
          (\<lambda>ctx. case Start_keepalive lease interval ctx of (ctx1, ok) \<Rightarrow> CHECK ok (returns ctx1)))"

lemmas keep_defs = call_def OnDone_def OnReadDone_def OnWriteDone_def OnWritesDoneDone_def next_write_def
  context_defs

section \<open>The stream\<close>

text \<open>The context with the number of writes, reads, delayed tasks and closings that completed.\<close>

record keep_sys =
  keep :: KeepAliveContext
  wrote :: nat
  read :: nat
  delayed :: nat
  closed :: nat

definition made :: "keep_call \<Rightarrow> KeepAliveContext \<Rightarrow> nat" where
  "made e k = count_list (calls k) e"

definition writes_made :: "KeepAliveContext \<Rightarrow> nat" where
  "writes_made k = length (filter (\<lambda>e. \<exists>n. e = StartWrite n) (calls k))"

definition delays_made :: "KeepAliveContext \<Rightarrow> nat" where
  "delays_made k = length (filter (\<lambda>e. \<exists>n. e = PostDelayWrite n) (calls k))"

text \<open>
  A completion comes for a call that was made and has not completed; \<open>OnDone\<close> and a user's \<open>Cancel\<close>
  and \<open>LockContext\<close> can come at any time.
\<close>

inductive keep_step :: "keep_sys \<Rightarrow> keep_sys \<Rightarrow> bool" where
  write_done: "wrote K < writes_made (keep K) \<Longrightarrow>
    keep_step K (K\<lparr>keep := OnWriteDone ok (keep K), wrote := Suc (wrote K)\<rparr>)"
| read_done: "read K < made StartRead (keep K) \<Longrightarrow>
    keep_step K (K\<lparr>keep := OnReadDone ok (keep K), read := Suc (read K)\<rparr>)"
| delay_done: "delayed K < delays_made (keep K) \<Longrightarrow>
    keep_step K (K\<lparr>keep := next_write (keep K), delayed := Suc (delayed K)\<rparr>)"
| close_done: "closed K < made StartWritesDone (keep K) \<Longrightarrow>
    keep_step K (K\<lparr>keep := OnWritesDoneDone ok (keep K), closed := Suc (closed K)\<rparr>)"
| stream_done: "keep_step K (K\<lparr>keep := OnDone s (keep K)\<rparr>)"
| cancel: "keep_step K (K\<lparr>keep := Cancel (keep K)\<rparr>)"
| wait: "keep_step K (K\<lparr>keep := (keep K)\<lparr>resumer_' := Some co\<rparr>\<rparr>)"

inductive_cases keep_stepE: "keep_step K K'"

definition keep_started :: "int \<Rightarrow> int \<Rightarrow> keep_sys \<Rightarrow> bool" where
  "keep_started lease interval K \<longleftrightarrow>
     (\<exists>co lease0 interval0. LeaseKeepalive True (Some co) lease0 interval0 lease interval = returns (keep K))
     \<and> wrote K = 0 \<and> read K = 0 \<and> delayed K = 0 \<and> closed K = 0"

lemma made_simps [simp]:
  "made e (call f k) = (if e = f then Suc (made e k) else made e k)"
  "made e (ResumeContext ok k) = made e k"
  "made e (Cancel k) = made e k"
  "made e (k\<lparr>resumer_' := c\<rparr>) = made e k"
  by (simp_all add: made_def keep_defs split: option.split)

lemma writes_made_simps [simp]:
  "writes_made (call f k) = (case f of StartWrite n \<Rightarrow> Suc (writes_made k) | _ \<Rightarrow> writes_made k)"
  "writes_made (ResumeContext ok k) = writes_made k"
  "writes_made (Cancel k) = writes_made k"
  "writes_made (k\<lparr>resumer_' := c\<rparr>) = writes_made k"
  by (simp_all add: writes_made_def keep_defs split: option.split keep_call.split)

lemma delays_made_simps [simp]:
  "delays_made (call f k) = (case f of PostDelayWrite n \<Rightarrow> Suc (delays_made k) | _ \<Rightarrow> delays_made k)"
  "delays_made (ResumeContext ok k) = delays_made k"
  "delays_made (Cancel k) = delays_made k"
  "delays_made (k\<lparr>resumer_' := c\<rparr>) = delays_made k"
  by (simp_all add: delays_made_def keep_defs split: option.split keep_call.split)

text \<open>The heartbeat is in one place at a time: a write, a read, a delay or the closing; or it stopped.\<close>

definition in_flight :: "keep_sys \<Rightarrow> nat" where
  "in_flight K = (writes_made (keep K) - wrote K) + (made StartRead (keep K) - read K)
     + (delays_made (keep K) - delayed K) + (made StartWritesDone (keep K) - closed K)"

definition keep_inv :: "int \<Rightarrow> int \<Rightarrow> keep_sys \<Rightarrow> bool" where
  "keep_inv lease interval K \<longleftrightarrow>
     wrote K \<le> writes_made (keep K) \<and> read K \<le> made StartRead (keep K)
     \<and> delayed K \<le> delays_made (keep K) \<and> closed K \<le> made StartWritesDone (keep K)
     \<and> in_flight K \<le> 1
     \<and> request_' (keep K) = lease \<and> interval_' (keep K) = interval
     \<and> (\<forall>n. StartWrite n \<in> set (calls (keep K)) \<longrightarrow> n = lease)
     \<and> (\<forall>n. PostDelayWrite n \<in> set (calls (keep K)) \<longrightarrow> n = interval)"

lemma calls_simps [simp]:
  "calls (call f k) = calls k @ [f]"
  "calls (ResumeContext ok k) = calls k"
  "calls (Cancel k) = calls k"
  "request_' (call f k) = request_' k" "interval_' (call f k) = interval_' k" "cancel_' (call f k) = cancel_' k"
  "request_' (ResumeContext ok k) = request_' k" "interval_' (ResumeContext ok k) = interval_' k"
  "request_' (Cancel k) = request_' k" "interval_' (Cancel k) = interval_' k"
  "cancel_' (ResumeContext ok k) = cancel_' k" "cancel_' (Cancel k) = True"
  by (simp_all add: keep_defs split: option.split)

definition fresh_keep :: "int \<Rightarrow> int \<Rightarrow> KeepAliveContext" where
  "fresh_keep lease interval =
     \<lparr>success_' = False, cancel_' = False, done_' = False, resumer_' = None, resumed = [],
      lease_id_' = lease, interval_' = interval, request_' = lease,
      calls = [LeaseKeepAlive, StartCall, StartWrite lease]\<rparr>"

lemma LeaseKeepalive_effect:
  "LeaseKeepalive True (Some co) lease0 interval0 lease interval = returns (fresh_keep lease interval)"
  by (simp add: LeaseKeepalive_def KeepAliveContext_new_def Start_keepalive_def Let_def call_def fresh_keep_def)

lemma keep_started_inv: "keep_started lease interval K \<Longrightarrow> keep_inv lease interval K"
proof -
  assume K: "keep_started lease interval K"
  then have "keep K = fresh_keep lease interval" by (auto simp: keep_started_def LeaseKeepalive_effect)
  with K show ?thesis
    by (simp add: keep_started_def fresh_keep_def keep_inv_def in_flight_def made_def writes_made_def
        delays_made_def)
qed

lemma keep_step_inv:
  assumes "keep_inv lease interval K" and "keep_step K K'"
  shows "keep_inv lease interval K'"
  using assms(2,1)
  by cases (auto simp: keep_inv_def in_flight_def OnWriteDone_def OnReadDone_def next_write_def
      OnWritesDoneDone_def OnDone_def Let_def)

interpretation heartbeat: invariant_system "keep_started lease interval" keep_step "keep_inv lease interval"
  for lease interval
  by unfold_locales (auto intro: keep_started_inv keep_step_inv)

text \<open>Once canceled, no write is made but the one whose delay is running already.\<close>

definition writes_to_come :: "keep_sys \<Rightarrow> nat" where
  "writes_to_come K = writes_made (keep K) + (delays_made (keep K) - delayed K)"

definition winding_down :: "nat \<Rightarrow> keep_sys \<Rightarrow> bool" where
  "winding_down n K \<longleftrightarrow> cancel_' (keep K) \<and> delayed K \<le> delays_made (keep K) \<and> writes_to_come K \<le> n"

interpretation canceled_stream: invariant_system "winding_down n" keep_step "winding_down n" for n
proof
  fix K K'
  assume inv: "winding_down n K" and "keep_step K K'"
  from this(2,1) show "winding_down n K'"
    by cases (auto simp: winding_down_def writes_to_come_def OnWriteDone_def OnReadDone_def next_write_def
        OnWritesDoneDone_def OnDone_def Let_def Canceled_def)
qed

section \<open>Properties\<close>

definition sample_keep :: keep_sys where
  "sample_keep = \<lparr>keep = fresh_keep 77 5000, wrote = 0, read = 0, delayed = 0, closed = 0\<rparr>"

lemma sample_keep_reachable: "reachable (keep_started 77 5000) keep_step sample_keep"
  by (rule reachable.start) (simp add: keep_started_def sample_keep_def LeaseKeepalive_effect)

text \<open>C23: The stream never has more than one of its calls outstanding, a write, a read, the delay to the
  next write or the closing, so gRPC's rule of one write and one read at a time is kept; every
  heartbeat is for the lease, and every delay is the interval, that \<open>LeaseKeepalive\<close> was given.\<close>

theorem one_heartbeat_in_flight:
  assumes "reachable (keep_started lease interval) keep_step K"
  shows "in_flight K \<le> 1 \<and> (\<forall>n. StartWrite n \<in> set (calls (keep K)) \<longrightarrow> n = lease)
         \<and> (\<forall>n. PostDelayWrite n \<in> set (calls (keep K)) \<longrightarrow> n = interval)"
  using heartbeat.reachable_inv [OF assms] by (auto simp: keep_inv_def)

theorem one_heartbeat_in_flight_witness: "in_flight sample_keep \<le> 1"
  using one_heartbeat_in_flight [OF sample_keep_reachable] by blast

text \<open>C24: After \<open>Cancel\<close> at most one more heartbeat is sent, whatever happens on the stream: none, unless the
  delay before it was running already.\<close>

theorem cancel_stops_heartbeat:
  assumes "reachable (keep_started lease interval) keep_step K" and "Canceled (keep K)" and "keep_step\<^sup>*\<^sup>* K K'"
  shows "writes_made (keep K') \<le> writes_made (keep K) + (delays_made (keep K) - delayed K)
         \<and> delays_made (keep K) - delayed K \<le> 1"
proof -
  have inv: "keep_inv lease interval K" using assms(1) by (rule heartbeat.reachable_inv)
  then have "winding_down (writes_to_come K) K"
    using assms(2) by (simp add: winding_down_def Canceled_def keep_inv_def)
  from canceled_stream.steps_inv [OF assms(3) this] inv show ?thesis
    by (auto simp: winding_down_def writes_to_come_def keep_inv_def in_flight_def)
qed

theorem cancel_stops_heartbeat_witness:
  "writes_made (keep (sample_keep\<lparr>keep := Cancel (keep sample_keep)\<rparr>)) \<le> 1"
proof -
  let ?K = "sample_keep\<lparr>keep := Cancel (keep sample_keep)\<rparr>"
  have "reachable (keep_started 77 5000) keep_step ?K"
    by (rule reachable.step [OF sample_keep_reachable keep_step.cancel])
  from cancel_stops_heartbeat [OF this, of ?K] show ?thesis
    by (simp add: Canceled_def sample_keep_def fresh_keep_def writes_made_def delays_made_def Cancel_def)
qed

text \<open>A failed read wakes the waiter with failure but does not stop the stream: the next heartbeat is
  scheduled as after a good one.\<close>

theorem failed_read_goes_on_writing:
  assumes "\<not> Canceled k" and "resumer_' k = Some co"
  shows "calls (OnReadDone False k) = calls k @ [PostDelayWrite (interval_' k)]
         \<and> calls (OnReadDone False k) = calls (OnReadDone True k)
         \<and> resumed (OnReadDone False k) = resumed k @ [co] \<and> \<not> Success (OnReadDone False k)"
  using assms by (simp add: keep_defs Let_def)

theorem failed_read_goes_on_writing_witness:
  "calls (OnReadDone False ((fresh_keep 77 5000)\<lparr>resumer_' := Some 1\<rparr>))
     = [LeaseKeepAlive, StartCall, StartWrite 77, PostDelayWrite 5000]"
  using failed_read_goes_on_writing [of "(fresh_keep 77 5000)\<lparr>resumer_' := Some 1\<rparr>" 1]
  by (simp add: fresh_keep_def Canceled_def)

end
