(* ===== verification/Etcd_Lifetimes.thy ===== *)
theory Etcd_Lifetimes
  imports Keepalive
begin

text \<open>
  How long the contexts of \<open>src/content/etcdv3\<close> live. A call of \<open>EtcdClientV3\<close> (\<open>etcd_client.cc\<close>) keeps its
  context on the stack of the coroutine, which goes on, and returns, as soon as its resumer was
  called; the completing thread is inside \<open>ResumeContext\<close> then. A \<open>KeepAliveContext\<close> (\<open>keepalive_ctx.cc\<close>) is
  kept alive by its user and, between two heartbeats, by the delayed task, but by nothing while gRPC
  has one of its calls.
\<close>

section \<open>A context on the stack\<close>

text \<open>
  The threads of \<open>Call_Context\<close> with the frame of the calling function: \<open>returned\<close> when the function has
  returned, which destroys the context. The call is started once \<open>LockContext\<close> is through, and the
  coroutine goes on from its yield when its resumer was called.
\<close>

record call_run =
  hs :: handshake
  returned :: bool

inductive call_step :: "nat \<Rightarrow> bool \<Rightarrow> call_run \<Rightarrow> call_run \<Rightarrow> bool" for co :: nat and ok :: bool where
  lock: "hs_step co ok (hs u) h \<Longrightarrow> resume_at h = resume_at (hs u) \<Longrightarrow> call_step co ok u (u\<lparr>hs := h\<rparr>)"
| complete: "hs_step co ok (hs u) h \<Longrightarrow> wait_at (hs u) = WaitDone r \<Longrightarrow> wait_at h = WaitDone r \<Longrightarrow> \<not> returned u \<Longrightarrow>
    call_step co ok u (u\<lparr>hs := h\<rparr>)"
| go_back: "wait_at (hs u) = WaitDone r \<Longrightarrow> co \<in> set (resumed (ctx (hs u))) \<Longrightarrow> \<not> returned u \<Longrightarrow>
    call_step co ok u (u\<lparr>returned := True\<rparr>)"

inductive_cases call_stepE: "call_step co ok u v"

definition call_init :: "call_run \<Rightarrow> bool" where
  "call_init u \<longleftrightarrow> hs_init (hs u) \<and> \<not> returned u"

definition call_inv :: "nat \<Rightarrow> bool \<Rightarrow> call_run \<Rightarrow> bool" where
  "call_inv co ok u \<longleftrightarrow> hs_inv co ok (hs u) \<and> (returned u \<longrightarrow> called (resume_at (hs u)))"

lemma called_stays: "hs_step co ok h h' \<Longrightarrow> called (resume_at h) \<Longrightarrow> called (resume_at h')"
  by (erule hs_stepE) simp_all

lemma call_step_inv: "call_inv co ok u \<Longrightarrow> call_step co ok u v \<Longrightarrow> call_inv co ok v"
  by (erule call_stepE)
    (auto simp: call_inv_def intro: hs_step_inv called_stays, auto simp: hs_inv_def)

lemma call_init_inv: "call_init u \<Longrightarrow> call_inv co ok u"
  by (simp add: call_init_def call_inv_def hs_init_inv)

interpretation calls_of: invariant_system call_init "call_step co ok" "call_inv co ok" for co ok
  by unfold_locales (auto intro: call_init_inv call_step_inv)

text \<open>A run of the waiter's part: \<open>LockContext\<close> returns false, and the completing thread is at \<open>pc\<close>.\<close>

definition waiting :: "nat \<Rightarrow> bool \<Rightarrow> resume_pc \<Rightarrow> call_run" where
  "waiting co ok pc =
     \<lparr>hs = \<lparr>ctx = CallContext_new\<lparr>success_' := ok, done_' := True, resumer_' := Some co, resumed := [co]\<rparr>,
            mu = (pc = ResumeUnlock), wait_at = WaitDone False, resume_at = pc\<rparr>,
      returned = False\<rparr>"

lemma waiting_reachable:
  "reachable call_init (call_step co ok) (waiting co ok ResumeUnlock)"
proof -
  let ?R = "reachable call_init (call_step co ok)"
  let ?u = "\<lambda>c m w r. \<lparr>hs = \<lparr>ctx = c, mu = m, wait_at = w, resume_at = r\<rparr>, returned = False\<rparr>"
  let ?c0 = CallContext_new and ?c1 = "CallContext_new\<lparr>resumer_' := Some co\<rparr>"
  let ?c2 = "?c1\<lparr>success_' := ok\<rparr>" and ?c3 = "?c1\<lparr>success_' := ok, done_' := True\<rparr>"
  note run = reachable.step [of call_init "call_step co ok"]
  have lock: "?R (?u c m w r) \<Longrightarrow> hs_step co ok (hs (?u c m w r)) (hs (?u c' m' w' r)) \<Longrightarrow> ?R (?u c' m' w' r)"
    for c c' m m' w w' r by (erule run) (drule call_step.lock, simp_all)
  have complete: "?R (?u c m (WaitDone b) r) \<Longrightarrow> hs_step co ok (hs (?u c m (WaitDone b) r)) (hs (?u c' m' (WaitDone b) r'))
      \<Longrightarrow> ?R (?u c' m' (WaitDone b) r')" for c c' m m' b r r'
    by (erule run) (drule call_step.complete, simp_all)
  have "?R (?u ?c0 False WaitLock ResumeSuccess)"
    using sample_hs_init by (intro reachable.start) (simp add: call_init_def sample_handshake_def)
  from lock [OF this, of ?c0 True WaitSet] have "?R (?u ?c0 True WaitSet ResumeSuccess)"
    using hs_step.wait_lock [of "hs (?u ?c0 False WaitLock ResumeSuccess)" co ok] by simp
  from lock [OF this, of ?c1 True WaitUnlock] have "?R (?u ?c1 True WaitUnlock ResumeSuccess)"
    using hs_step.wait_set [of "hs (?u ?c0 True WaitSet ResumeSuccess)" co ok] by simp
  from lock [OF this, of ?c1 False WaitLoad] have "?R (?u ?c1 False WaitLoad ResumeSuccess)"
    using hs_step.wait_unlock [of "hs (?u ?c1 True WaitUnlock ResumeSuccess)" co ok] by simp
  from lock [OF this, of ?c1 False "WaitDone False"] have "?R (?u ?c1 False (WaitDone False) ResumeSuccess)"
    using hs_step.wait_load [of "hs (?u ?c1 False WaitLoad ResumeSuccess)" co ok] by (simp add: CallContext_new_def)
  from complete [OF this, of ?c2 False ResumeStore] have "?R (?u ?c2 False (WaitDone False) ResumeStore)"
    using hs_step.resume_success [of "hs (?u ?c1 False (WaitDone False) ResumeSuccess)" co ok] by simp
  from complete [OF this, of ?c3 False ResumeLock] have "?R (?u ?c3 False (WaitDone False) ResumeLock)"
    using hs_step.resume_store [of "hs (?u ?c2 False (WaitDone False) ResumeStore)" co ok] by simp
  from complete [OF this, of ?c3 True ResumeCall] have "?R (?u ?c3 True (WaitDone False) ResumeCall)"
    using hs_step.resume_lock [of "hs (?u ?c3 False (WaitDone False) ResumeLock)" co ok] by simp
  from complete [OF this, of "call_resumer ?c3" True ResumeUnlock]
  show ?thesis
    using hs_step.resume_call [of "hs (?u ?c3 True (WaitDone False) ResumeCall)" co ok]
    by (simp add: waiting_def call_resumer_def CallContext_new_def)
qed

text \<open>C26: When a call of the client has returned, and its context destroyed, the completing thread has called the
  resumer and is about to release the lock of the context or is through; both happen. In the first
  case it writes to the lock of a context that does not exist any more.\<close>

theorem context_destroyed_under_lock:
  "{resume_at (hs u) | u. reachable call_init (call_step co ok) u \<and> returned u} = {ResumeUnlock, ResumeDone}"
proof
  have "called (resume_at (hs u))" if "reachable call_init (call_step co ok) u" "returned u" for u
    using calls_of.reachable_inv [OF that(1)] that(2) by (simp add: call_inv_def)
  moreover have "called pc \<Longrightarrow> pc \<in> {ResumeUnlock, ResumeDone}" for pc by (cases pc) simp_all
  ultimately show "{resume_at (hs u) | u. reachable call_init (call_step co ok) u \<and> returned u} \<subseteq> {ResumeUnlock, ResumeDone}"
    by blast
next
  let ?R = "reachable call_init (call_step co ok)"
  note run = reachable.step [of call_init "call_step co ok"]
  have step: "call_step co ok (waiting co ok pc) ((waiting co ok pc)\<lparr>returned := True\<rparr>)" for pc
    by (rule call_step.go_back [where r = False]) (simp_all add: waiting_def)
  have "call_step co ok (waiting co ok ResumeUnlock) (waiting co ok ResumeDone)"
    using call_step.complete [of co ok "waiting co ok ResumeUnlock" "hs (waiting co ok ResumeDone)" False]
      hs_step.resume_unlock [of "hs (waiting co ok ResumeUnlock)" co ok] by (simp add: waiting_def)
  then have "?R (waiting co ok ResumeDone)" using run [OF waiting_reachable] by blast
  with waiting_reachable have "?R ((waiting co ok ResumeUnlock)\<lparr>returned := True\<rparr>)" "?R ((waiting co ok ResumeDone)\<lparr>returned := True\<rparr>)"
    using run step by blast+
  moreover have "pc \<in> {resume_at (hs u) | u. ?R u \<and> returned u}" if "?R ((waiting co ok pc)\<lparr>returned := True\<rparr>)" for pc
    using that by (intro CollectI exI [of _ "(waiting co ok pc)\<lparr>returned := True\<rparr>"]) (simp add: waiting_def)
  ultimately show "{ResumeUnlock, ResumeDone} \<subseteq> {resume_at (hs u) | u. ?R u \<and> returned u}" by blast
qed

section \<open>A heartbeat without its user\<close>













end
