(* ===== verification/Watch_Context.thy ===== *)
theory Watch_Context
  imports Etcd_Client
begin

text \<open>
  \<open>WatchContext\<close> of \<open>src/content/etcdv3/context/watch_context.h\<close> and \<open>watch_context.cc\<close>, and
  \<open>EtcdWatcher\<close> of \<open>src/content/etcdv3/etcd_watcher.h\<close> and \<open>etcd_watcher.cc\<close>: a stream of change
  events.

  The stream is a parameter, the record \<open>watch_api\<close> over an abstract state: what a write, a read
  and the closing complete with. While a read is outstanding another coroutine may stop the
  watch, or gRPC may end the stream; a read reports that too.
\<close>

section \<open>Messages\<close>

datatype EventType = PUT | DELETE

record Event =
  ev_type :: EventType
  ev_kv :: KeyValue

record WatchCreateRequest =
  create_key :: string
  create_range_end :: string
  create_start_revision :: int
  create_prev_kv :: bool
  create_watch_id :: int

datatype WatchRequest = CreateRequest WatchCreateRequest | CancelRequest int

record WatchResponse =
  resp_watch_id :: int
  resp_created :: bool
  resp_canceled :: bool
  resp_events :: "Event list"

text \<open>\<open>w_read\<close>: the outcome, the response, and whether \<open>read_ctx_'\<close> was canceled meanwhile.\<close>

record 'w watch_api =
  w_write :: "WatchRequest \<Rightarrow> 'w \<Rightarrow> bool \<times> 'w"
  w_read :: "'w \<Rightarrow> bool \<times> WatchResponse \<times> bool \<times> 'w"
  w_writes_done :: "'w \<Rightarrow> bool \<times> 'w"

datatype watch_call = WatchCall | WatchStartCall | WatchWrite WatchRequest | WatchRead | WatchWritesDone

section \<open>The context\<close>

text \<open>\<open>spawned\<close>: the change loop was started. \<open>handled\<close>: for each response, the events its own coroutine
  calls the handler with, in order.\<close>

record 'w WatchContext =
  read_ctx_' :: CallContext
  write_ctx_' :: CallContext
  watch_id_' :: int
  stream :: 'w
  wcalls :: "watch_call list"
  spawned :: bool
  handled :: "Event list list"

definition WatchContext_new :: "'w \<Rightarrow> 'w WatchContext" where
  "WatchContext_new w =
     \<lparr>read_ctx_' = CallContext_new, write_ctx_' = CallContext_new, watch_id_' = - 1, stream = w,
      wcalls = [], spawned = False, handled = []\<rparr>"

definition wcall :: "watch_call \<Rightarrow> 'w WatchContext \<Rightarrow> 'w WatchContext" where
  "wcall e s = s\<lparr>wcalls := wcalls s @ [e]\<rparr>"

text \<open>The reactor's callbacks.\<close>

definition OnReadDone_watch :: "bool \<Rightarrow> 'w WatchContext \<Rightarrow> 'w WatchContext" where
  "OnReadDone_watch ok s = s\<lparr>read_ctx_' := ResumeContext ok (read_ctx_' s)\<rparr>"

definition OnWriteDone_watch :: "bool \<Rightarrow> 'w WatchContext \<Rightarrow> 'w WatchContext" where
  "OnWriteDone_watch ok s = s\<lparr>write_ctx_' := ResumeContext ok (write_ctx_' s)\<rparr>"

definition OnWritesDoneDone_watch :: "bool \<Rightarrow> 'w WatchContext \<Rightarrow> 'w WatchContext" where
  "OnWritesDoneDone_watch ok s = s\<lparr>write_ctx_' := ResumeContext ok (write_ctx_' s)\<rparr>"

definition OnDone_watch :: "'w WatchContext \<Rightarrow> 'w WatchContext" where
  "OnDone_watch s = s\<lparr>read_ctx_' := Cancel (read_ctx_' s)\<rparr>"

text \<open>
  The three lines \<open>write_ctx_.LockContext(); StartWrite(&request); CO_YIELD;\<close>, and the same for a read
  and for the closing.
\<close>

definition await_write ::
  "'w watch_api \<Rightarrow> nat option \<Rightarrow> WatchRequest \<Rightarrow> 'w WatchContext \<Rightarrow> 'w WatchContext outcome" where
  "await_write api co request s =
     then_do (LockContext co (write_ctx_' s))
       (\<lambda>(c, _). case w_write api request (stream s) of
          (ok, w) \<Rightarrow>
            let s1 = OnWriteDone_watch ok ((wcall (WatchWrite request) s)\<lparr>write_ctx_' := c, stream := w\<rparr>)
            in co_yield co (write_ctx_' s1) (\<lambda>c1. returns (s1\<lparr>write_ctx_' := c1\<rparr>)))"

definition await_read ::
  "'w watch_api \<Rightarrow> nat option \<Rightarrow> 'w WatchContext \<Rightarrow> ('w WatchContext \<times> WatchResponse) outcome" where
  "await_read api co s =
     then_do (LockContext co (read_ctx_' s))
       (\<lambda>(c, _). case w_read api (stream s) of
          (ok, response, canceled, w) \<Rightarrow>
            let s1 = (wcall WatchRead s)\<lparr>read_ctx_' := c, stream := w\<rparr>;
                s2 = OnReadDone_watch ok (if canceled then OnDone_watch s1 else s1)
            in co_yield co (read_ctx_' s2) (\<lambda>c1. returns (s2\<lparr>read_ctx_' := c1\<rparr>, response)))"

definition await_writes_done ::
  "'w watch_api \<Rightarrow> nat option \<Rightarrow> 'w WatchContext \<Rightarrow> 'w WatchContext outcome" where
  "await_writes_done api co s =
     then_do (LockContext co (write_ctx_' s))
       (\<lambda>(c, _). case w_writes_done api (stream s) of
          (ok, w) \<Rightarrow>
            let s1 = OnWritesDoneDone_watch ok ((wcall WatchWritesDone s)\<lparr>write_ctx_' := c, stream := w\<rparr>)
            in co_yield co (write_ctx_' s1) (\<lambda>c1. returns (s1\<lparr>write_ctx_' := c1\<rparr>)))"

definition Start_watch ::
  "'w watch_api \<Rightarrow> nat option \<Rightarrow> WatchRequest \<Rightarrow> 'w WatchContext \<Rightarrow> ('w WatchContext \<times> bool) outcome" where
  "Start_watch api co request s =
     CHECK (co \<noteq> None)
       (then_do (await_write api co request (wcall WatchStartCall (wcall WatchCall s)))
          (\<lambda>s1. if \<not> Success (write_ctx_' s1) then returns (s1, False)
                else then_do (await_read api co s1)
                       (\<lambda>(s2, response).
                          if \<not> Success (read_ctx_' s2) then returns (s2, False)
                          else CHECK (resp_created response)
                                 (let s3 = s2\<lparr>watch_id_' := resp_watch_id response, spawned := True\<rparr>
                                  in returns (s3, 0 \<le> watch_id_' s3)))))"



definition StopWatch ::
  "'w watch_api \<Rightarrow> nat option \<Rightarrow> 'w WatchContext \<Rightarrow> ('w WatchContext \<times> bool) outcome" where
  "StopWatch api co s =
     CHECK (co \<noteq> None)
       (if watch_id_' s \<le> 0 then returns (s, True)
        else then_do (await_write api co (CancelRequest (watch_id_' s)) s)
               (\<lambda>s1. if \<not> Success (write_ctx_' s1) then returns (s1, False)
                     else let s2 = s1\<lparr>read_ctx_' := Cancel (read_ctx_' s1)\<rparr>
                          in then_do (await_writes_done api co s2)
                               (\<lambda>s3. if \<not> Success (write_ctx_' s3) then returns (s3, False)
                                     else returns (s3, True))))"

section \<open>The watcher\<close>

definition Watch_request ::
  "'w watch_api \<Rightarrow> nat option \<Rightarrow> WatchRequest \<Rightarrow> 'w \<Rightarrow> 'w WatchContext option outcome" where
  "Watch_request api co request w =
     CHECK (co \<noteq> None)
       (then_do (Start_watch api co request (WatchContext_new w))
          (\<lambda>(ctx, ok). if \<not> ok then returns None else returns (Some ctx)))"

definition watch_create_request :: "string \<Rightarrow> bool \<Rightarrow> WatchCreateRequest outcome" where
  "watch_create_request key with_prefix =
     (let req = \<lparr>create_key = key, create_range_end = '''', create_start_revision = 0, create_prev_kv = True,
                 create_watch_id = 1\<rparr>
      in if with_prefix then then_do (prefix_end key) (\<lambda>e. returns (req\<lparr>create_range_end := e\<rparr>))
         else returns req)"

definition Watch ::
  "'w watch_api \<Rightarrow> nat option \<Rightarrow> string \<Rightarrow> bool \<Rightarrow> 'w \<Rightarrow> 'w WatchContext option outcome" where
  "Watch api co key with_prefix w =
     then_do (watch_create_request key with_prefix)
       (\<lambda>req. Watch_request api co (CreateRequest req) w)"

section \<open>What a wait leaves\<close>

definition awaited :: "nat \<Rightarrow> bool \<Rightarrow> CallContext \<Rightarrow> CallContext" where
  "awaited i ok c = c\<lparr>resumer_' := Some i, success_' := ok, done_' := True,
     resumed := remove1 i (resumed c @ [i])\<rparr>"

lemma awaited_sel [simp]:
  "success_' (awaited i ok c) = ok" "cancel_' (awaited i ok c) = cancel_' c"
  "Success (awaited i ok c) = ok" "Canceled (awaited i ok c) = cancel_' c"
  by (simp_all add: awaited_def context_defs)

lemma await_write_effect:
  "w_write api request (stream s) = (ok, w) \<Longrightarrow> await_write api (Some i) request s =
     returns (s\<lparr>write_ctx_' := awaited i ok (write_ctx_' s), stream := w, wcalls := wcalls s @ [WatchWrite request]\<rparr>)"
  by (simp add: await_write_def OnWriteDone_watch_def wcall_def co_yield_def context_defs awaited_def Let_def)

lemma await_writes_done_effect:
  "w_writes_done api (stream s) = (ok, w) \<Longrightarrow> await_writes_done api (Some i) s =
     returns (s\<lparr>write_ctx_' := awaited i ok (write_ctx_' s), stream := w, wcalls := wcalls s @ [WatchWritesDone]\<rparr>)"
  by (simp add: await_writes_done_def OnWritesDoneDone_watch_def wcall_def co_yield_def context_defs awaited_def
      Let_def)

lemma await_read_effect:
  "w_read api (stream s) = (ok, response, canceled, w) \<Longrightarrow> await_read api (Some i) s =
     returns (s\<lparr>read_ctx_' := awaited i ok ((read_ctx_' s)\<lparr>cancel_' := cancel_' (read_ctx_' s) \<or> canceled\<rparr>),
                stream := w, wcalls := wcalls s @ [WatchRead]\<rparr>, response)"
  by (cases canceled) (simp_all add: await_read_def OnReadDone_watch_def OnDone_watch_def wcall_def co_yield_def
      context_defs awaited_def Let_def)

lemmas await_effects = await_write_effect await_writes_done_effect await_read_effect

section \<open>The changes of a stream\<close>

text \<open>
  \<open>changes api w c bs\<close>: reading the stream from \<open>w\<close>, with the context canceled or not as \<open>c\<close> says, gives the
  batches \<open>bs\<close> of events and then ends: by a failed read, by a response that says the watch is
  canceled, or after a batch during which the context was canceled.
\<close>

inductive changes :: "'w watch_api \<Rightarrow> 'w \<Rightarrow> bool \<Rightarrow> Event list list \<Rightarrow> bool" for api :: "'w watch_api" where
  read_failed: "w_read api w = (False, r, x, w') \<Longrightarrow> changes api w c []"
| watch_canceled: "w_read api w = (True, r, x, w') \<Longrightarrow> resp_canceled r \<Longrightarrow> changes api w c []"
| last_batch: "w_read api w = (True, r, x, w') \<Longrightarrow> \<not> resp_canceled r \<Longrightarrow> c \<or> x \<Longrightarrow> changes api w c [resp_events r]"
| a_batch: "w_read api w = (True, r, False, w') \<Longrightarrow> \<not> resp_canceled r \<Longrightarrow> changes api w' False bs
    \<Longrightarrow> changes api w False (resp_events r # bs)"

inductive_cases changesE: "changes api w c bs"



section \<open>Properties\<close>

text \<open>A stream that answers from a list of responses and never fails a write.\<close>

definition sample_response :: "int \<Rightarrow> Event list \<Rightarrow> WatchResponse" where
  "sample_response i es = \<lparr>resp_watch_id = i, resp_created = True, resp_canceled = False, resp_events = es\<rparr>"

fun sample_read :: "WatchResponse list \<Rightarrow> bool \<times> WatchResponse \<times> bool \<times> WatchResponse list" where
  "sample_read [] = (False, sample_response 0 [], False, [])"
| "sample_read (r # rs) = (True, r, False, rs)"

definition sample_watch :: "WatchResponse list watch_api" where
  "sample_watch = \<lparr>w_write = (\<lambda>req w. (True, w)), w_read = sample_read, w_writes_done = (\<lambda>w. (True, w))\<rparr>"


lemma sample_watch_sel [simp]:
  "w_write sample_watch req w = (True, w)" "w_read sample_watch w = sample_read w"
  "w_writes_done sample_watch w = (True, w)"
  by (simp_all add: sample_watch_def)



text \<open>C22: \<open>Watch\<close> gives a context exactly when the create request was sent, answered as created, and given an
  identifier that is not negative; the request asks for the keys with the prefix and for
  no other, from the current revision, and the change loop is running. An answer that does not
  say created stops the program.\<close>

theorem watch_opens_stream:
  assumes "key \<noteq> ''''" and "last key \<noteq> CHR 0xFF"
  shows "\<exists>req. watch_create_request key True = returns req
           \<and> (\<forall>k. create_key req \<le> k \<and> k < create_range_end req \<longleftrightarrow> prefix key k) \<and> create_start_revision req = 0
           \<and> (case w_write api (CreateRequest req) w of
                (False, w1) \<Rightarrow> Watch api (Some i) key True w = returns None
              | (True, w1) \<Rightarrow>
                  (case w_read api w1 of
                     (ok, r, x, w2) \<Rightarrow>
                       if \<not> ok then Watch api (Some i) key True w = returns None
                       else if \<not> resp_created r then Watch api (Some i) key True w = faults CheckFailed
                       else if resp_watch_id r < 0 then Watch api (Some i) key True w = returns None
                       else \<exists>c. Watch api (Some i) key True w = returns (Some c) \<and> watch_id_' c = resp_watch_id r
                              \<and> spawned c \<and> stream c = w2 \<and> handled c = []))"
proof -
  obtain e where e: "prefix_end key = returns e" "\<forall>k. key \<le> k \<and> k < e \<longleftrightarrow> prefix key k"
    using prefix_end_range [OF assms] by auto
  let ?req = "\<lparr>create_key = key, create_range_end = e, create_start_revision = 0, create_prev_kv = True,
    create_watch_id = 1\<rparr>"
  have req: "watch_create_request key True = returns ?req" by (simp add: watch_create_request_def e)
  obtain ok1 w1 where wr: "w_write api (CreateRequest ?req) w = (ok1, w1)" by fastforce
  obtain ok2 r x w2 where rd: "w_read api w1 = (ok2, r, x, w2)" by (metis prod.exhaust)
  have "case w_write api (CreateRequest ?req) w of
      (False, w1) \<Rightarrow> Watch api (Some i) key True w = returns None
    | (True, w1) \<Rightarrow>
        (case w_read api w1 of
           (ok, r, x, w2) \<Rightarrow>
             if \<not> ok then Watch api (Some i) key True w = returns None
             else if \<not> resp_created r then Watch api (Some i) key True w = faults CheckFailed
             else if resp_watch_id r < 0 then Watch api (Some i) key True w = returns None
             else \<exists>c. Watch api (Some i) key True w = returns (Some c) \<and> watch_id_' c = resp_watch_id r
                    \<and> spawned c \<and> stream c = w2 \<and> handled c = [])"
    using wr rd
    by (cases ok1; cases ok2; cases "resp_created r"; cases "resp_watch_id r < 0")
      (simp_all add: Watch_def req Watch_request_def Start_watch_def wcall_def WatchContext_new_def await_effects)
  with req e(2) show ?thesis by auto
qed

theorem watch_opens_stream_witness:
  "\<exists>c. Watch sample_watch (Some 3) ''/a'' True [sample_response 1 []] = returns (Some c) \<and> watch_id_' c = 1"
  using watch_opens_stream [of "''/a''" sample_watch 3 "[sample_response 1 []]"]
  by (auto simp: sample_response_def)

text \<open>C25: \<open>StopWatch\<close> on a watch with a positive identifier asks the server to cancel that watch, then closes
  the writing side, and succeeds exactly when both went through; the change loop is told to stop as
  soon as the request went through.\<close>

theorem stop_watch_cancels:
  assumes "0 < watch_id_' s" and "w_write api (CancelRequest (watch_id_' s)) (stream s) = (ok1, w1)"
    and "w_writes_done api w1 = (ok2, w2)"
  shows "\<exists>t. StopWatch api (Some i) s = returns (t, ok1 \<and> ok2)
           \<and> wcalls t = wcalls s @ WatchWrite (CancelRequest (watch_id_' s)) # (if ok1 then [WatchWritesDone] else [])
           \<and> Canceled (read_ctx_' t) = (Canceled (read_ctx_' s) \<or> ok1)"
  using assms by (cases ok1; cases ok2) (simp_all add: StopWatch_def await_effects Cancel_def Canceled_def)

theorem stop_watch_cancels_witness:
  "\<exists>t. StopWatch sample_watch (Some 3) ((WatchContext_new [])\<lparr>watch_id_' := 1\<rparr>) = returns (t, True)"
  using stop_watch_cancels [of "(WatchContext_new [])\<lparr>watch_id_' := 1\<rparr>" sample_watch True "[]" True "[]" 3]
  by (auto simp: WatchContext_new_def)

text \<open>A watch the server numbers 0 is opened like any other, but \<open>StopWatch\<close> on it reports success
  without a request: the watch goes on.\<close>

theorem watch_zero_never_stops:
  assumes "w_write api request w = (True, w1)" and "w_read api w1 = (True, r, x, w2)"
    and "resp_created r" and "resp_watch_id r = 0"
  shows "\<exists>c. Watch_request api (Some i) request w = returns (Some c) \<and> spawned c
           \<and> StopWatch api (Some i) c = returns (c, True)"
  using assms
  by (simp add: Watch_request_def Start_watch_def StopWatch_def wcall_def WatchContext_new_def await_effects)

theorem watch_zero_never_stops_witness:
  "\<exists>c. Watch_request sample_watch (Some 3) (CancelRequest 5) [sample_response 0 []] = returns (Some c)
     \<and> StopWatch sample_watch (Some 3) c = returns (c, True)"
  using watch_zero_never_stops [of sample_watch "CancelRequest 5" "[sample_response 0 []]"
      "[sample_response 0 []]" "sample_response 0 []" False "[]" 3]
  by (auto simp: sample_response_def)

end
