(* ===== verification/Etcd_Session.thy ===== *)
theory Etcd_Session
  imports Keepalive Watch_Context
begin

text \<open>
  The program \<open>src/examples/etcdclient/test_client.cc\<close>, which uses the etcd client: it pushes numbered keys
  under a lease, lists them, watches their prefix and stops the watch; and it keeps a lease alive.

  A sequence of calls needs a server with a state: the record \<open>etcd_server\<close> gives the answers of the server in
  a state, as the \<open>etcd_api\<close> of \<open>Etcd_Client\<close>, and the state after a put and after a granted lease.
  \<open>base::StrUtil::Concat\<close>, which appends a number to a string, is a parameter.
\<close>

record 's etcd_server =
  answers :: "'s \<Rightarrow> etcd_api"
  after_put :: "PutRequest \<Rightarrow> 's \<Rightarrow> 's"
  after_grant :: "int \<Rightarrow> 's \<Rightarrow> 's"

text \<open>The server's state, the values whose put failed, what the last listing gave, and the milliseconds slept.\<close>

record 's test_run =
  server :: 's
  put_failed :: "string list"
  listed :: "KeyValue list"
  slept :: int

definition put_of :: "KeyValue \<Rightarrow> PutRequest" where
  "put_of kv = \<lparr>put_key = kv_key kv, put_value = kv_value kv, put_lease = kv_lease kv\<rparr>"

section \<open>The functions of the program\<close>




text \<open>What \<open>OnNodeChange\<close> logs.\<close>

datatype change_line = PutLine string string | DelLine string string

definition OnNodeChange :: "Event \<Rightarrow> change_line" where
  "OnNodeChange event =
     (case ev_type event of
        PUT \<Rightarrow> PutLine (kv_key (ev_kv event)) (kv_value (ev_kv event))
      | DELETE \<Rightarrow> DelLine (kv_key (ev_kv event)) (kv_value (ev_kv event)))"

definition TestWatch :: "'w watch_api \<Rightarrow> nat option \<Rightarrow> 'w \<Rightarrow> 'w WatchContext outcome" where
  "TestWatch wapi co w =
     then_do (Watch wapi co ''/server/nodes/'' True w)
       (\<lambda>watch_ctx. case watch_ctx of None \<Rightarrow> faults CheckFailed | Some c \<Rightarrow> returns c)"

text \<open>
  \<open>while_asleep\<close> is what the stream does to the context during the thirty seconds the function sleeps, \<open>finish\<close> what
  it does while the function waits.
\<close>

definition TestKeepAlive ::
  "'s etcd_server \<Rightarrow> (string \<Rightarrow> int \<Rightarrow> string) \<Rightarrow> EtcdClientV3 \<Rightarrow> nat option \<Rightarrow> int \<times> int
     \<Rightarrow> (KeepAliveContext \<Rightarrow> KeepAliveContext) \<Rightarrow> (KeepAliveContext \<Rightarrow> KeepAliveContext)
     \<Rightarrow> 's test_run \<Rightarrow> ('s test_run \<times> KeepAliveContext) outcome" where
  "TestKeepAlive sv Concat client co junk while_asleep finish w =
     then_do (LeaseGrant client (answers sv (server w)) co 60) (\<lambda>lease_id.
       let w1 = w\<lparr>server := after_grant sv 60 (server w)\<rparr>;
           kv = \<lparr>kv_key = ''/server/keepalive'', kv_value = Concat ''lease_'' lease_id, kv_lease = lease_id\<rparr>
       in then_do (Put client (answers sv (server w1)) co kv) (\<lambda>r.
          then_do (LeaseKeepalive True co (fst junk) (snd junk) lease_id 2000) (\<lambda>keepalive_ctx.
            let w2 = w1\<lparr>server := after_put sv (put_of kv) (server w1), slept := slept w1 + 30 * 1000\<rparr>
            in then_do (Wait finish co (Cancel (while_asleep keepalive_ctx))) (\<lambda>k. returns (w2, k)))))"

text \<open>
  \<open>main\<close> up to the loop: \<open>None\<close> where it returns -1. \<open>channel\<close>, \<open>kv\<close> and \<open>lease\<close> are what gRPC makes for
  \<open>Initilize\<close>.
\<close>

datatype test_case = WatchCase | KeepAliveCase

definition test_main ::
  "int \<Rightarrow> string \<Rightarrow> bool \<Rightarrow> bool \<Rightarrow> bool \<Rightarrow> (EtcdClientV3 \<times> test_case) option outcome" where
  "test_main argc case_name channel kv lease =
     (if argc \<noteq> 2 then returns None
      else then_do (Initilize channel kv lease EtcdClientV3_new)
             (\<lambda>client. if case_name = ''watch'' then returns (Some (client, WatchCase))
                      else if case_name = ''keepalive'' then returns (Some (client, KeepAliveCase))
                      else returns None))"

lemma test_main_stubs:
  "test_main argc name channel kv lease = returns (Some (client, t)) \<Longrightarrow> kv_stub_' client \<and> lease_stub_' client"
  by (auto simp: test_main_def Initilize_def CHECK_returns_iff then_do_returns_iff split: if_splits)

section \<open>What the program relies on\<close>

text \<open>
  A server that takes every request: \<open>pairs s\<close> are the pairs it holds in state \<open>s\<close>, one for a key; a put
  replaces the pair of its key, a lease leaves them as they are, and ranges are answered from them.
\<close>

definition put_pair :: "PutRequest \<Rightarrow> KeyValue list \<Rightarrow> KeyValue list" where
  "put_pair req ps =
     \<lparr>kv_key = put_key req, kv_value = put_value req, kv_lease = put_lease req\<rparr>
       # filter (\<lambda>kv. kv_key kv \<noteq> put_key req) ps"

definition keeps_pairs :: "'s etcd_server \<Rightarrow> ('s \<Rightarrow> KeyValue list) \<Rightarrow> bool" where
  "keeps_pairs sv pairs \<longleftrightarrow>
     (\<forall>s. serves_range (answers sv s) (pairs s))
     \<and> (\<forall>s req. status_ok (fst (rpc_put (answers sv s) req)) \<and> header_revision (snd (rpc_put (answers sv s) req)) \<noteq> - 1)
     \<and> (\<forall>s req. pairs (after_put sv req s) = put_pair req (pairs s))
     \<and> (\<forall>s ttl. pairs (after_grant sv ttl s) = pairs s)"

text \<open>\<open>Concat\<close> appends the digits of a number, which are different for different numbers.\<close>

definition appends_number :: "(string \<Rightarrow> int \<Rightarrow> string) \<Rightarrow> bool" where
  "appends_number Concat \<longleftrightarrow> (\<exists>digits. inj digits \<and> (\<forall>s n. Concat s n = s @ digits n))"

lemma appends_prefix: "appends_number Concat \<Longrightarrow> prefix s (Concat s n)"
  by (auto simp: appends_number_def)


section \<open>Pushing and listing\<close>



lemma put_pair_node: "put_pair (put_of kv) ps = kv # filter (\<lambda>x. kv_key x \<noteq> kv_key kv) ps"
  by (simp add: put_pair_def put_of_def)


lemma LeaseGrant_effect:
  "lease_stub_' client \<Longrightarrow> LeaseGrant client api (Some i) ttl = returns (grant_id (snd (rpc_lease_grant api ttl)))"
  by (auto simp: LeaseGrant_def co_yield_def context_defs GetResponse_def split: prod.split)




section \<open>Properties\<close>


text \<open>The watch the program opens is for the keys it pushes: its range holds every numbered key. When the
  server creates the watch, the program has a watch whose change loop is running; when it does not, the
  program stops on a \<open>CHECK\<close>.\<close>

theorem pushed_keys_are_watched:
  assumes "appends_number Concat"
  shows "\<exists>req. watch_create_request ''/server/nodes/'' True = returns req
           \<and> (\<forall>n. create_key req \<le> Concat ''/server/nodes/'' n \<and> Concat ''/server/nodes/'' n < create_range_end req)
           \<and> (\<forall>w w1 r x w2. w_write wapi (CreateRequest req) w = (True, w1) \<longrightarrow> w_read wapi w1 = (True, r, x, w2)
                \<longrightarrow> resp_created r \<longrightarrow>
                (if 0 \<le> resp_watch_id r then \<exists>c. TestWatch wapi (Some i) w = returns c \<and> spawned c
                                              \<and> watch_id_' c = resp_watch_id r \<and> stream c = w2
                 else TestWatch wapi (Some i) w = faults CheckFailed))"
proof -
  obtain e where e: "prefix_end ''/server/nodes/'' = returns e" "\<forall>k. ''/server/nodes/'' \<le> k \<and> k < e \<longleftrightarrow> prefix ''/server/nodes/'' k"
    using prefix_end_range [of "''/server/nodes/''"] by auto
  let ?req = "\<lparr>create_key = ''/server/nodes/'', create_range_end = e, create_start_revision = 0, create_prev_kv = True,
    create_watch_id = 1\<rparr>"
  have req: "watch_create_request ''/server/nodes/'' True = returns ?req" by (simp add: watch_create_request_def e)
  have "if 0 \<le> resp_watch_id r then \<exists>c. TestWatch wapi (Some i) w = returns c \<and> spawned c
          \<and> watch_id_' c = resp_watch_id r \<and> stream c = w2
        else TestWatch wapi (Some i) w = faults CheckFailed"
    if "w_write wapi (CreateRequest ?req) w = (True, w1)" "w_read wapi w1 = (True, r, x, w2)" "resp_created r" for w w1 r x w2
    using that
    by (simp add: TestWatch_def Watch_def req Watch_request_def Start_watch_def wcall_def WatchContext_new_def await_effects)
  moreover have "''/server/nodes/'' \<le> Concat ''/server/nodes/'' n \<and> Concat ''/server/nodes/'' n < e" for n
    using e(2) appends_prefix [OF assms] by blast
  ultimately show ?thesis using req by (intro exI [of _ ?req]) simp
qed

text \<open>The keepalive program stores the lease it was granted under that lease, keeps that lease alive, and after
  it has canceled ends as soon as the stream does, reporting the status of the stream; if the stream had
  ended before, it ends at once and reports that.\<close>

theorem keepalive_test_ends:
  fixes w :: "'s test_run" and while_asleep :: "KeepAliveContext \<Rightarrow> KeepAliveContext"
  assumes "keeps_pairs sv pairs" and "kv_stub_' client" and "lease_stub_' client"
  defines "lease_id \<equiv> grant_id (snd (rpc_lease_grant (answers sv (server w)) 60))"
  defines "k \<equiv> while_asleep (fresh_keep lease_id 2000)"
  shows "\<exists>w' k'. TestKeepAlive sv Concat client (Some i) junk while_asleep (OnDone st) w = returns (w', k')
           \<and> Canceled k' \<and> Success k' = (if Done k then Success k else status_ok st)
           \<and> \<lparr>kv_key = ''/server/keepalive'', kv_value = Concat ''lease_'' lease_id, kv_lease = lease_id\<rparr> \<in> set (pairs (server w'))"
proof -
  let ?kv = "\<lparr>kv_key = ''/server/keepalive'', kv_value = Concat ''lease_'' lease_id, kv_lease = lease_id\<rparr>"
  let ?s1 = "after_grant sv 60 (server w)"
  obtain st' r where "rpc_put (answers sv ?s1) (put_of ?kv) = (st', r)" by fastforce
  with put_returns_revision [of client "Some i"] assms(2)
  have put: "\<exists>v. Put client (answers sv ?s1) (Some i) ?kv = returns v" by (simp add: put_of_def)
  have "\<exists>k'. Wait (OnDone st) (Some i) (Cancel k) = returns k' \<and> Canceled k'
      \<and> Success k' = (if Done k then Success k else status_ok st)"
    by (simp add: Wait_def co_yield_def OnDone_def context_defs)
  moreover have "?kv \<in> set (pairs (after_put sv (put_of ?kv) ?s1))"
    using assms(1) by (simp add: keeps_pairs_def put_pair_node)
  moreover have "LeaseGrant client (answers sv (server w)) (Some i) 60 = returns lease_id"
    using LeaseGrant_effect [OF assms(3)] by (simp add: lease_id_def)
  ultimately show ?thesis using put by (auto simp: TestKeepAlive_def LeaseKeepalive_effect k_def Let_def)
qed

section \<open>A server and numbers\<close>

fun decimal :: "nat \<Rightarrow> string" where
  "decimal n = (if n < 10 then [char_of (48 + n)] else decimal (n div 10) @ [char_of (48 + n mod 10)])"

declare decimal.simps [simp del]

definition decimal_value :: "string \<Rightarrow> nat" where
  "decimal_value s = foldl (\<lambda>a c. 10 * a + (of_char c - 48)) 0 s"

lemma decimal_value_decimal: "decimal_value (decimal n) = n"
proof (induction n rule: decimal.induct)
  case (1 n)
  then show ?case by (subst decimal.simps) (auto simp: decimal_value_def)
qed

definition int_digits :: "int \<Rightarrow> string" where
  "int_digits n = (if n < 0 then CHR ''-'' # decimal (nat (- n)) else decimal (nat n))"

lemma hd_decimal: "decimal n \<noteq> [] \<and> of_char (hd (decimal n)) \<ge> (48 :: nat)"
proof (induction n rule: decimal.induct)
  case (1 n)
  then show ?case by (subst (1 2) decimal.simps) (auto simp: hd_append)
qed

lemma inj_int_digits: "inj int_digits"
proof (rule inj_on_inverseI)
  fix n :: int
  have "hd (decimal m) \<noteq> CHR ''-''" for m using hd_decimal [of m] by auto
  then show "(if hd (int_digits n) = CHR ''-'' then - int (decimal_value (tl (int_digits n)))
      else int (decimal_value (int_digits n))) = n"
    by (simp add: int_digits_def decimal_value_decimal)
qed

definition number_concat :: "string \<Rightarrow> int \<Rightarrow> string" where
  "number_concat s n = s @ int_digits n"

lemma number_concat_appends: "appends_number number_concat"
  using inj_int_digits by (auto simp: appends_number_def number_concat_def)

definition list_server :: "KeyValue list etcd_server" where
  "list_server =
     \<lparr>answers = (\<lambda>s. \<lparr>rpc_put = (\<lambda>req. (OK_status, \<lparr>header_revision = int (length s)\<rparr>)),
        rpc_range = (\<lambda>req. (OK_status, \<lparr>kvs = sort_key kv_key (filter (\<lambda>kv. in_range req (kv_key kv)) s)\<rparr>)),
        rpc_lease_grant = (\<lambda>ttl. (OK_status, \<lparr>grant_id = 77\<rparr>)),
        rpc_time_to_live = (\<lambda>i. (OK_status, \<lparr>live_ttl = 10\<rparr>))\<rparr>),
      after_put = put_pair, after_grant = (\<lambda>ttl s. s)\<rparr>"

lemma list_server_keeps: "keeps_pairs list_server (\<lambda>s. s)"
  by (simp add: keeps_pairs_def list_server_def serves_range_def OK_status_def)

definition fresh_run :: "KeyValue list test_run" where
  "fresh_run = \<lparr>server = [], put_failed = [], listed = [], slept = 0\<rparr>"



theorem pushed_keys_are_watched_witness:
  "\<exists>req. watch_create_request ''/server/nodes/'' True = returns req
     \<and> number_concat ''/server/nodes/'' 7 < create_range_end req"
  using pushed_keys_are_watched [OF number_concat_appends, of sample_watch 3] by blast

theorem keepalive_test_ends_witness:
  "\<exists>w' k'. TestKeepAlive list_server number_concat sample_client (Some 3) (0, 0) id (OnDone OK_status) fresh_run
       = returns (w', k') \<and> Canceled k' \<and> Success k'"
  using keepalive_test_ends [OF list_server_keeps, where client = sample_client and w = fresh_run
      and Concat = number_concat and i = 3 and junk = "(0, 0)" and while_asleep = id and st = OK_status]
  by (auto simp: sample_client_def OK_status_def Done_def fresh_keep_def)

end
