(* ===== verification/App_Shell.thy ===== *)
theory App_Shell
  imports Prelude
begin

text \<open>
  The application shell, \<open>src/content/shell/application.h\<close> and \<open>application.cc\<close>: it runs the prepare
  tasks on the main loop, waits for them on a condition variable, runs the application, and runs
  the cleanup tasks.

  A task is what its function returns. The loop that runs the tasks, the tasks that run
  asynchronously and the thread in \<open>Run\<close> are processes that interleave; \<open>boot_step\<close> has one step per
  action of \<open>RunBootupTask\<close> and \<open>RunCleanupTask\<close>, whose texts are the same but for the list they go
  through, and \<open>run_step\<close> one per action of \<open>Run\<close>.
\<close>

section \<open>Tasks and the application\<close>

datatype ExcRunType = kSequenceType | kAsyncRunType | kAsyncCoroType

record BootTask =
  task :: bool
  task_name :: string
  exc_type :: ExcRunType

definition BootTask_New :: "string \<Rightarrow> bool \<Rightarrow> ExcRunType \<Rightarrow> BootTask" where
  "BootTask_New name boot_task run_type = \<lparr>task = boot_task, task_name = name, exc_type = run_type\<rparr>"

record Application =
  on_start_' :: "BootTask list"
  on_finish_' :: "BootTask list"

definition Application_new :: Application where
  "Application_new = \<lparr>on_start_' = [], on_finish_' = []\<rparr>"

definition Prepare :: "BootTask \<Rightarrow> Application \<Rightarrow> Application" where
  "Prepare item app = app\<lparr>on_start_' := on_start_' app @ [item]\<rparr>"

definition Cleanup :: "BootTask \<Rightarrow> Application \<Rightarrow> Application" where
  "Cleanup item app = app\<lparr>on_finish_' := on_finish_' app @ [item]\<rparr>"

section \<open>Running a list of tasks\<close>

text \<open>
  \<open>todo\<close>: the items the \<open>for\<close> has not reached. \<open>running\<close>: asynchronous tasks that have not finished.
  \<open>wait_group\<close>: the counter of the wait group. \<open>failed\<close>: \<open>failed_tasks_\<close>. \<open>finished\<close>: the tasks that ran, in
  the order they ended. \<open>returned\<close>: what the function returned.
\<close>

record boot_run =
  todo :: "BootTask list"
  running :: "BootTask list"
  wait_group :: nat
  failed :: "BootTask list"
  finished :: "BootTask list"
  returned :: "bool option"

definition boot_init :: "BootTask list \<Rightarrow> boot_run" where
  "boot_init items =
     \<lparr>todo = items, running = [], wait_group = 0, failed = [], finished = [], returned = None\<rparr>"

definition task_ended :: "BootTask \<Rightarrow> boot_run \<Rightarrow> boot_run" where
  "task_ended t b =
     b\<lparr>failed := (if \<not> task t then failed b @ [t] else failed b), finished := finished b @ [t]\<rparr>"

inductive boot_step :: "boot_run \<Rightarrow> boot_run \<Rightarrow> bool" where
  run_sequence: "returned b = None \<Longrightarrow> todo b = t # ts \<Longrightarrow> exc_type t = kSequenceType \<Longrightarrow>
    boot_step b (task_ended t (b\<lparr>todo := ts\<rparr>))"
| start_async: "returned b = None \<Longrightarrow> todo b = t # ts \<Longrightarrow> exc_type t \<in> {kAsyncRunType, kAsyncCoroType} \<Longrightarrow>
    boot_step b (b\<lparr>todo := ts, wait_group := wait_group b + 1, running := running b @ [t]\<rparr>)"
| async_done: "running b = xs @ t # ys \<Longrightarrow>
    boot_step b ((task_ended t (b\<lparr>running := xs @ ys\<rparr>))\<lparr>wait_group := wait_group b - 1\<rparr>)"
| all_done: "returned b = None \<Longrightarrow> todo b = [] \<Longrightarrow> wait_group b = 0 \<Longrightarrow>
    boot_step b (b\<lparr>returned := Some (failed b = [])\<rparr>)"

inductive_cases boot_stepE: "boot_step b b'"

text \<open>\<open>RunCleanupTask\<close> is the same text over the list of cleanup tasks.\<close>

definition cleanup_step :: "boot_run \<Rightarrow> boot_run \<Rightarrow> bool" where
  "cleanup_step = boot_step"

fun sequential :: "BootTask \<Rightarrow> bool" where
  "sequential t = (exc_type t = kSequenceType)"

definition boot_inv :: "BootTask list \<Rightarrow> boot_run \<Rightarrow> bool" where
  "boot_inv items b \<longleftrightarrow>
     wait_group b = length (running b)
     \<and> mset (finished b) + mset (running b) + mset (todo b) = mset items
     \<and> filter sequential (finished b) @ filter sequential (todo b) = filter sequential items
     \<and> filter sequential (running b) = []
     \<and> failed b = filter (\<lambda>t. \<not> task t) (finished b)
     \<and> (\<forall>r. returned b = Some r \<longrightarrow> todo b = [] \<and> running b = [] \<and> r = (failed b = []))"

lemma boot_init_inv: "boot_inv items (boot_init items)"
  by (simp add: boot_inv_def boot_init_def)

lemma boot_step_inv:
  assumes "boot_inv items b" and "boot_step b b'"
  shows "boot_inv items b'"
  using assms(2,1) by cases (auto simp: boot_inv_def task_ended_def)

interpretation boot: invariant_system "\<lambda>b. b = boot_init items" boot_step "boot_inv items" for items
  by unfold_locales (auto intro: boot_init_inv boot_step_inv)

definition boot_left :: "boot_run \<Rightarrow> nat" where
  "boot_left b = 2 * length (todo b) + length (running b) + (if returned b = None then 1 else 0)"

lemma boot_step_left: "boot_step b b' \<Longrightarrow> boot_left b' < boot_left b"
  by (erule boot_stepE) (auto simp: boot_left_def task_ended_def)

lemma boot_not_stuck:
  assumes "boot_inv items b" and "returned b = None"
  shows "\<exists>b'. boot_step b b'"
proof (cases "todo b")
  case (Cons t ts)
  with assms(2) show ?thesis by (cases "exc_type t") (auto intro: boot_step.intros)
next
  case Nil
  with assms show ?thesis
  proof (cases "running b")
    case (Cons t ts)
    then have "running b = [] @ t # ts" by simp
    then show ?thesis by (blast intro: boot_step.async_done)
  qed (auto simp: boot_inv_def intro: boot_step.all_done)
qed

section \<open>Running the application\<close>

text \<open>
  Where the thread in \<open>Run\<close> is. It waits twice, each time in a loop of waits with a timeout; between
  two waits of a loop it is not waiting, and a notification then reaches nobody.
\<close>

datatype run_pc =
    BeforeWait | InWait | BetweenWaits | Woken | GaveUp | Serving
  | BeforeWait2 | InWait2 | BetweenWaits2 | Finished

datatype app_event = OnStart | OnStop

record run_state =
  pc :: run_pc
  boot :: boot_run
  boot_notified :: bool
  assigned :: bool
  success :: bool
  clean :: "boot_run option"
  clean_notified :: bool
  events :: "app_event list"

definition run_init :: "Application \<Rightarrow> run_state" where
  "run_init app =
     \<lparr>pc = BeforeWait, boot = boot_init (on_start_' app), boot_notified = False, assigned = False,
      success = False, clean = None, clean_notified = False, events = []\<rparr>"

text \<open>\<open>spurious\<close>: may a wait end with nobody having notified?\<close>

inductive run_step :: "Application \<Rightarrow> bool \<Rightarrow> run_state \<Rightarrow> run_state \<Rightarrow> bool"
  for app :: Application and spurious :: bool where
  wait: "pc R = BeforeWait \<Longrightarrow> run_step app spurious R (R\<lparr>pc := InWait\<rparr>)"
| timeout: "pc R = InWait \<Longrightarrow> run_step app spurious R (R\<lparr>pc := BetweenWaits\<rparr>)"
| wait_again: "pc R = BetweenWaits \<Longrightarrow> run_step app spurious R (R\<lparr>pc := InWait\<rparr>)"
| wake: "spurious \<Longrightarrow> pc R = InWait \<Longrightarrow> run_step app spurious R (R\<lparr>pc := Woken\<rparr>)"
| boot: "boot_step (boot R) b \<Longrightarrow> run_step app spurious R (R\<lparr>boot := b\<rparr>)"
| notify: "returned (boot R) \<noteq> None \<Longrightarrow> \<not> boot_notified R \<Longrightarrow>
    run_step app spurious R (R\<lparr>boot_notified := True, pc := if pc R = InWait then Woken else pc R\<rparr>)"
| assign: "boot_notified R \<Longrightarrow> \<not> assigned R \<Longrightarrow> returned (boot R) = Some r \<Longrightarrow>
    run_step app spurious R (R\<lparr>success := r, assigned := True\<rparr>)"
| give_up: "pc R = Woken \<Longrightarrow> \<not> success R \<Longrightarrow> run_step app spurious R (R\<lparr>pc := GaveUp\<rparr>)"
| start: "pc R = Woken \<Longrightarrow> success R \<Longrightarrow>
    run_step app spurious R (R\<lparr>pc := Serving, events := events R @ [OnStart]\<rparr>)"
| loop_end: "pc R = Serving \<Longrightarrow>
    run_step app spurious R (R\<lparr>pc := BeforeWait2, events := events R @ [OnStop], success := False,
      clean := Some (boot_init (on_finish_' app))\<rparr>)"
| clean: "clean R = Some c \<Longrightarrow> cleanup_step c c' \<Longrightarrow> run_step app spurious R (R\<lparr>clean := Some c'\<rparr>)"
| wait2: "pc R = BeforeWait2 \<Longrightarrow> run_step app spurious R (R\<lparr>pc := InWait2\<rparr>)"
| timeout2: "pc R = InWait2 \<Longrightarrow> run_step app spurious R (R\<lparr>pc := BetweenWaits2\<rparr>)"
| wake2: "spurious \<Longrightarrow> pc R = InWait2 \<Longrightarrow> run_step app spurious R (R\<lparr>pc := Finished\<rparr>)"
| wait_again2: "pc R = BetweenWaits2 \<Longrightarrow> run_step app spurious R (R\<lparr>pc := InWait2\<rparr>)"
| notify2: "clean R = Some c \<Longrightarrow> returned c \<noteq> None \<Longrightarrow> \<not> clean_notified R \<Longrightarrow>
    run_step app spurious R (R\<lparr>clean_notified := True, pc := if pc R = InWait2 then Finished else pc R\<rparr>)"

inductive_cases run_stepE: "run_step app spurious R R'"

fun booting :: "run_pc \<Rightarrow> bool" where
  "booting BeforeWait = True" | "booting InWait = True" | "booting BetweenWaits = True" | "booting _ = False"

fun before_stop :: "run_pc \<Rightarrow> bool" where
  "before_stop Serving = True" | "before_stop Woken = True" | "before_stop GaveUp = True"
| "before_stop p = booting p"

fun events_at :: "run_pc \<Rightarrow> app_event list" where
  "events_at Serving = [OnStart]"
| "events_at p = (if before_stop p then [] else [OnStart, OnStop])"

definition run_inv :: "Application \<Rightarrow> bool \<Rightarrow> run_state \<Rightarrow> bool" where
  "run_inv app spurious R \<longleftrightarrow>
     boot_inv (on_start_' app) (boot R)
     \<and> (clean R = None \<longleftrightarrow> before_stop (pc R))
     \<and> (\<forall>c. clean R = Some c \<longrightarrow> boot_inv (on_finish_' app) c)
     \<and> events R = events_at (pc R)
     \<and> (assigned R \<longrightarrow> returned (boot R) \<noteq> None)
     \<and> (success R \<longrightarrow> assigned R \<and> returned (boot R) = Some True)
     \<and> (events R \<noteq> [] \<longrightarrow> assigned R \<and> returned (boot R) = Some True)
     \<and> (pc R = Finished \<longrightarrow> spurious \<or> (\<exists>c. clean R = Some c \<and> returned c \<noteq> None))"

lemma boot_step_returned: "boot_step b b' \<Longrightarrow> returned b = Some r \<Longrightarrow> returned b' = Some r"
  by (erule boot_stepE) (auto simp: task_ended_def)

lemma run_init_inv: "run_inv app spurious (run_init app)"
  by (simp add: run_inv_def run_init_def boot_init_inv)

lemma run_step_inv:
  assumes "run_inv app spurious R" and "run_step app spurious R R'"
  shows "run_inv app spurious R'"
  using assms(2,1)
proof cases
  case (boot b)
  have "returned b = Some r" if "returned (run_state.boot R) = Some r" for r
    using boot_step_returned [OF boot(2) that] .
  with boot assms(1) boot_step_inv [of "on_start_' app"] show ?thesis
    by (auto simp: run_inv_def)
next
  case (clean c c')
  have "returned c' = Some r" if "returned c = Some r" for r
    using boot_step_returned [OF _ that] clean(3) unfolding cleanup_step_def by blast
  with clean assms(1) boot_step_inv [of "on_finish_' app"] show ?thesis
    by (auto simp: run_inv_def cleanup_step_def)
qed (use assms(1) in \<open>auto simp: run_inv_def boot_init_inv split: if_splits\<close>)

interpretation run: invariant_system "\<lambda>R. R = run_init app" "run_step app spurious" "run_inv app spurious" for app spurious
  by unfold_locales (auto intro: run_init_inv run_step_inv)

section \<open>A notification nobody waits for\<close>

definition deaf :: "run_state \<Rightarrow> bool" where
  "deaf R \<longleftrightarrow> boot_notified R \<and> booting (pc R)"

interpretation lost: invariant_system deaf "run_step app False" deaf for app
proof
  fix R R'
  assume inv: "deaf R" and "run_step app False R R'"
  from this(2,1) show "deaf R'" by cases (auto simp: deaf_def)
qed

section \<open>Properties\<close>

definition sample_app :: Application where
  "sample_app = Cleanup (BootTask_New ''close'' False kAsyncRunType)
     (Prepare (BootTask_New ''config'' True kSequenceType) Application_new)"

lemma sample_app_sel [simp]:
  "on_start_' sample_app = [BootTask_New ''config'' True kSequenceType]"
  "on_finish_' sample_app = [BootTask_New ''close'' False kAsyncRunType]"
  by (simp_all add: sample_app_def Prepare_def Cleanup_def Application_new_def)

definition sample_booted :: boot_run where
  "sample_booted = \<lparr>todo = [], running = [], wait_group = 0, failed = [],
     finished = [BootTask_New ''config'' True kSequenceType], returned = Some True\<rparr>"

lemma sample_boot:
  "reachable (\<lambda>b. b = boot_init (on_start_' sample_app)) boot_step sample_booted"
proof -
  let ?t = "BootTask_New ''config'' True kSequenceType"
  note run = reachable.step [of "\<lambda>b. b = boot_init [?t]" boot_step]
  have "reachable (\<lambda>b. b = boot_init [?t]) boot_step (boot_init [?t])" by (rule reachable.start) simp
  from run [OF this boot_step.run_sequence [of _ ?t "[]"]]
  have "reachable (\<lambda>b. b = boot_init [?t]) boot_step (sample_booted\<lparr>returned := None\<rparr>)"
    by (simp add: boot_init_def task_ended_def BootTask_New_def sample_booted_def)
  from run [OF this boot_step.all_done]
  show ?thesis by (simp add: sample_booted_def)
qed

lemma lift_boot:
  assumes "reachable (\<lambda>b. b = boot_init (on_start_' app)) boot_step b"
    and "reachable (\<lambda>R. R = run_init app) (run_step app sp) ((run_init app)\<lparr>pc := p\<rparr>)"
  shows "reachable (\<lambda>R. R = run_init app) (run_step app sp) ((run_init app)\<lparr>pc := p, boot := b\<rparr>)"
  using assms(1)
proof induction
  case (start b)
  then have "(run_init app)\<lparr>pc := p, boot := b\<rparr> = (run_init app)\<lparr>pc := p\<rparr>" by (simp add: run_init_def)
  with assms(2) show ?case by simp
next
  case (step b b')
  then have "boot_step (boot ((run_init app)\<lparr>pc := p, boot := b\<rparr>)) b'" by simp
  from reachable.step [OF step.IH run_step.boot [OF this]] show ?case by simp
qed

text \<open>C29: However the asynchronous tasks interleave with the loop over the list, running the tasks ends, and
  when it has ended every task ran exactly once, the sequential ones in the order of the list,
  the failed ones are those whose function returned false, and the result is true exactly when
  all succeeded.\<close>

theorem boot_runs_every_task_once:
  assumes "reachable (\<lambda>b. b = boot_init items) boot_step b"
  shows "(returned b = None \<longrightarrow> (\<exists>b'. boot_step b b'))
         \<and> (\<forall>b'. boot_step b b' \<longrightarrow> boot_left b' < boot_left b)
         \<and> (\<forall>r. returned b = Some r \<longrightarrow> mset (finished b) = mset items
              \<and> filter sequential (finished b) = filter sequential items
              \<and> mset (failed b) = filter_mset (\<lambda>t. \<not> task t) (mset items)
              \<and> r = (\<forall>t \<in> set items. task t))"
proof -
  have inv: "boot_inv items b" using assms by (rule boot.reachable_inv)
  have "mset (finished b) = mset items \<and> filter sequential (finished b) = filter sequential items
      \<and> mset (failed b) = filter_mset (\<lambda>t. \<not> task t) (mset items) \<and> r = (\<forall>t \<in> set items. task t)"
    if "returned b = Some r" for r
  proof -
    have all: "mset (finished b) = mset items" "failed b = filter (\<lambda>t. \<not> task t) (finished b)"
      "r = (failed b = [])" using inv that by (auto simp: boot_inv_def)
    have "set (finished b) = set items" using mset_eq_setD [OF all(1)] .
    with all inv that show ?thesis by (auto simp: boot_inv_def filter_empty_conv mset_filter)
  qed
  with boot_not_stuck [OF inv] boot_step_left show ?thesis by blast
qed

theorem boot_runs_every_task_once_witness:
  "mset (finished sample_booted) = {#BootTask_New ''config'' True kSequenceType#}"
  using boot_runs_every_task_once [OF sample_boot] by (simp add: sample_booted_def)

lemma all_ran:
  assumes "boot_inv items b" and "returned b = Some r"
  shows "mset (finished b) = mset items \<and> (r \<longrightarrow> (\<forall>t \<in> set items. task t))"
proof -
  have "mset (finished b) = mset items" using assms by (auto simp: boot_inv_def)
  moreover from this have "set (finished b) = set items" by (rule mset_eq_setD)
  ultimately show ?thesis using assms by (auto simp: boot_inv_def filter_empty_conv)
qed

text \<open>Running the tasks can always be brought to its end, and an application whose tasks succeed can start.\<close>

lemma boot_ends:
  assumes "reachable (\<lambda>b. b = boot_init items) boot_step b"
  shows "\<exists>c. reachable (\<lambda>b. b = boot_init items) boot_step c \<and> returned c \<noteq> None"
  using assms
proof (induction "boot_left b" arbitrary: b rule: less_induct)
  case less
  show ?case
  proof (cases "returned b")
    case None
    with boot_not_stuck boot.reachable_inv [OF less.prems] obtain b' where "boot_step b b'" by blast
    with less boot_step_left reachable.step [OF less.prems] show ?thesis by blast
  qed (use less.prems in auto)
qed

lemma app_can_start:
  assumes "\<forall>t \<in> set (on_start_' app). task t"
  shows "\<exists>R. reachable (\<lambda>R. R = run_init app) (run_step app sp) R \<and> events R = [OnStart]"
proof -
  note run = reachable.step [of "\<lambda>R. R = run_init app" "run_step app sp"]
  obtain b where b: "reachable (\<lambda>b. b = boot_init (on_start_' app)) boot_step b" "returned b \<noteq> None"
    using boot_ends [OF reachable.start] by blast
  have "returned b = Some True"
  proof -
    have inv: "boot_inv (on_start_' app) b" using b(1) by (rule boot.reachable_inv)
    then have "set (finished b) = set (on_start_' app)" using all_ran b(2) by (metis mset_eq_setD not_Some_eq)
    with inv b(2) assms show ?thesis by (auto simp: boot_inv_def filter_empty_conv)
  qed
  have "reachable (\<lambda>R. R = run_init app) (run_step app sp) (run_init app)" by (rule reachable.start) simp
  from run [OF this run_step.wait] have "reachable (\<lambda>R. R = run_init app) (run_step app sp) ((run_init app)\<lparr>pc := InWait\<rparr>)"
    by (simp add: run_init_def)
  from lift_boot [OF b(1) this]
  have R: "reachable (\<lambda>R. R = run_init app) (run_step app sp) ((run_init app)\<lparr>pc := InWait, boot := b\<rparr>)" .
  let ?R1 = "(run_init app)\<lparr>pc := Woken, boot := b, boot_notified := True\<rparr>"
  from run [OF R run_step.notify] have R1: "reachable (\<lambda>R. R = run_init app) (run_step app sp) ?R1"
    using b(2) by (simp add: run_init_def)
  let ?R2 = "?R1\<lparr>success := True, assigned := True\<rparr>"
  from run [OF R1 run_step.assign [of _ True]] have "reachable (\<lambda>R. R = run_init app) (run_step app sp) ?R2"
    using \<open>returned b = Some True\<close> by (simp add: run_init_def)
  from run [OF this run_step.start] show ?thesis by (auto simp: run_init_def)
qed


lemma sample_prepared:
  "reachable (\<lambda>R. R = run_init sample_app) (run_step sample_app False)
     ((run_init sample_app)\<lparr>pc := BeforeWait, boot := sample_booted\<rparr>)"
  by (rule lift_boot [OF sample_boot]) (rule reachable.start, simp add: run_init_def)


text \<open>C32: When the tasks are through before the thread in \<open>Run\<close> waits, or between two of its waits, the
  notification is lost and there is no other: without a spurious wake-up the application stays
  in its waiting loop for ever, and \<open>OnStart\<close> is never called.\<close>

theorem lost_notification_waits_forever:
  assumes "boot_notified R" and "booting (pc R)" and "(run_step app False)\<^sup>*\<^sup>* R R'"
  shows "booting (pc R')"
  using lost.steps_inv [OF assms(3)] assms(1,2) by (simp add: deaf_def)

theorem lost_notification_waits_forever_witness:
  "\<exists>R. reachable (\<lambda>R. R = run_init sample_app) (run_step sample_app False) R
     \<and> returned (boot R) = Some True \<and> (\<forall>R'. (run_step sample_app False)\<^sup>*\<^sup>* R R' \<longrightarrow> booting (pc R'))"
proof -
  let ?R = "(run_init sample_app)\<lparr>pc := BeforeWait, boot := sample_booted\<rparr>"
  have "returned (boot ?R) \<noteq> None" "\<not> boot_notified ?R" by (simp_all add: sample_booted_def run_init_def)
  from reachable.step [OF sample_prepared run_step.notify [OF this]]
  have "reachable (\<lambda>R. R = run_init sample_app) (run_step sample_app False) (?R\<lparr>boot_notified := True\<rparr>)"
    by (simp add: run_init_def)
  moreover have "booting (pc R')" if "(run_step sample_app False)\<^sup>*\<^sup>* (?R\<lparr>boot_notified := True\<rparr>) R'" for R'
    by (rule lost_notification_waits_forever [OF _ _ that]) simp_all
  ultimately show ?thesis by (intro exI [of _ "?R\<lparr>boot_notified := True\<rparr>"]) (simp add: sample_booted_def)
qed

text \<open>The notification goes out before the result is stored: the thread in \<open>Run\<close> can see the old value
  and give up although every prepare task succeeded. The store that is still to come writes to a
  local variable of \<open>Run\<close>, which has returned.\<close>

theorem gives_up_although_prepared:
  "\<exists>R. reachable (\<lambda>R. R = run_init sample_app) (run_step sample_app False) R
     \<and> returned (boot R) = Some True \<and> pc R = GaveUp
     \<and> run_step sample_app False R (R\<lparr>success := True, assigned := True\<rparr>)"
proof -
  note run = reachable.step [of "\<lambda>R. R = run_init sample_app" "run_step sample_app False"]
  let ?R = "(run_init sample_app)\<lparr>pc := InWait, boot := sample_booted\<rparr>"
  have "reachable (\<lambda>R. R = run_init sample_app) (run_step sample_app False) (run_init sample_app)"
    by (rule reachable.start) simp
  from run [OF this run_step.wait] have "reachable (\<lambda>R. R = run_init sample_app) (run_step sample_app False)
      ((run_init sample_app)\<lparr>pc := InWait\<rparr>)" by (simp add: run_init_def)
  from lift_boot [OF sample_boot this]
  have R: "reachable (\<lambda>R. R = run_init sample_app) (run_step sample_app False) ?R" .
  have "returned (boot ?R) \<noteq> None" "\<not> boot_notified ?R" by (simp_all add: sample_booted_def run_init_def)
  from run [OF R run_step.notify [OF this]]
  have "reachable (\<lambda>R. R = run_init sample_app) (run_step sample_app False)
      (?R\<lparr>boot_notified := True, pc := Woken\<rparr>)" by simp
  from run [OF this run_step.give_up] have "reachable (\<lambda>R. R = run_init sample_app) (run_step sample_app False)
      (?R\<lparr>boot_notified := True, pc := GaveUp\<rparr>)" by (simp add: run_init_def)
  moreover have "run_step sample_app False (?R\<lparr>boot_notified := True, pc := GaveUp\<rparr>)
      (?R\<lparr>boot_notified := True, pc := GaveUp, success := True, assigned := True\<rparr>)"
    by (rule run_step.assign) (simp_all add: sample_booted_def run_init_def)
  ultimately show ?thesis
    by (intro exI [of _ "?R\<lparr>boot_notified := True, pc := GaveUp\<rparr>"]) (simp add: sample_booted_def)
qed

end
