(* ===== verification/App_Config.thy ===== *)
theory App_Config
  imports App_Shell
begin

text \<open>
  Configuration: \<open>XmlConfig\<close> of \<open>src/content/config/lt_config.h\<close> and \<open>lt_config.cc\<close>, \<open>ConfigManager\<close> of
  \<open>config_manager.h\<close> and \<open>config_manager.cc\<close>, the boot item \<open>WithXMLConfig\<close> of
  \<open>src/content/config_loader.cc\<close> with the earlier \<open>Application\<close> of \<open>src/content/application.cc\<close> it is made
  for, and the context of the example application, \<open>src/examples/lt_app/app_context_impl.cc\<close>.

  The XML library is a parameter: the record \<open>xml_api\<close> over abstract documents and elements.
\<close>

section \<open>XML documents\<close>

text \<open>\<open>LoadFile\<close>: the document after loading, and whether it loaded.\<close>

record ('d, 'e) xml_api =
  LoadFile :: "string \<Rightarrow> 'd \<times> bool"
  RootElement :: "'d \<Rightarrow> 'e option"
  FirstChildElement :: "string \<Rightarrow> 'e \<Rightarrow> 'e option"

record 'd XmlConfig =
  config_doc_' :: "'d option"
  xml_file_' :: string

definition XmlConfig_new :: "string \<Rightarrow> 'd XmlConfig" where
  "XmlConfig_new file = \<lparr>config_doc_' = None, xml_file_' = file\<rparr>"

definition GetDocument :: "'d XmlConfig \<Rightarrow> 'd option" where
  "GetDocument c = config_doc_' c"

definition XMLRoot :: "('d, 'e) xml_api \<Rightarrow> 'd XmlConfig \<Rightarrow> 'e option" where
  "XMLRoot api c = (case config_doc_' c of Some d \<Rightarrow> RootElement api d | None \<Rightarrow> None)"

definition Load :: "('d, 'e) xml_api \<Rightarrow> 'd XmlConfig \<Rightarrow> 'd XmlConfig \<times> bool" where
  "Load api c =
     (case LoadFile api (c_str (xml_file_' c)) of
        (d, ok) \<Rightarrow>
          let c1 = c\<lparr>config_doc_' := Some d\<rparr>
          in if \<not> ok then (c1, False) else (c1, True))"

section \<open>The context of the example application\<close>

definition InitConfig :: "('d, 'e) xml_api \<Rightarrow> 'd XmlConfig \<Rightarrow> ('d XmlConfig \<times> bool) outcome" where
  "InitConfig api config = returns (Load api config)"

text \<open>\<open>client\<close> is the flag \<open>FLAGS_client\<close>.\<close>

definition InitClient :: "('d, 'e) xml_api \<Rightarrow> string \<Rightarrow> 'd XmlConfig \<Rightarrow> ('d XmlConfig \<times> bool) outcome" where
  "InitClient api client config =
     (case XMLRoot api config of
        None \<Rightarrow> faults CheckFailed
      | Some root \<Rightarrow> returns (config, FirstChildElement api (c_str client) root \<noteq> None))"



text \<open>
  The sequential prepare tasks of the example's \<open>main\<close>, run by the \<open>for\<close> of \<open>RunBootupTask\<close>: a task that
  fails is noted and the next one runs.
\<close>

fun run_sequence_tasks ::
  "('s \<Rightarrow> ('s \<times> bool) outcome) list \<Rightarrow> 's \<Rightarrow> ('s \<times> bool) outcome" where
  "run_sequence_tasks [] s = returns (s, True)"
| "run_sequence_tasks (t # ts) s =
     then_do (t s) (\<lambda>(s1, ok).
       then_do (run_sequence_tasks ts s1) (\<lambda>(s2, rest). returns (s2, ok \<and> rest)))"

definition lt_app_prepare :: "('d, 'e) xml_api \<Rightarrow> string \<Rightarrow> string \<Rightarrow> ('d XmlConfig \<times> bool) outcome" where
  "lt_app_prepare api file client =
     run_sequence_tasks [InitConfig api, InitClient api client] (XmlConfig_new file)"


section \<open>The earlier application and its configuration item\<close>

text \<open>A boot item's task works on the state \<open>'w\<close> of the program.\<close>

record 'w BootupItem =
  item_name :: string
  item_exc_type :: ExcRunType
  item_task :: "'w \<Rightarrow> 'w \<times> bool"
  item_status :: int
  item_message :: string

definition With :: "'w BootupItem \<Rightarrow> 'w BootupItem list \<Rightarrow> 'w BootupItem list" where
  "With item bootup_tasks = bootup_tasks @ [item]"

definition boot_item :: "'w BootupItem \<Rightarrow> 'w \<Rightarrow> 'w" where
  "boot_item item w =
     (case item_exc_type item of
        kSequenceType \<Rightarrow> fst (item_task item w)
      | kAsyncRunType \<Rightarrow> w
      | kAsyncCoroType \<Rightarrow> w)"

definition Application_Run :: "'w BootupItem list \<Rightarrow> 'w \<Rightarrow> 'w" where
  "Application_Run bootup_tasks w = fold boot_item bootup_tasks w"

definition WithXMLConfig ::
  "('d, 'e) xml_api \<Rightarrow> string \<Rightarrow> ('d \<Rightarrow> 'w \<Rightarrow> 'w) \<Rightarrow> bool \<Rightarrow> 'w BootupItem" where
  "WithXMLConfig api file callback sync =
     \<lparr>item_name = ''load config:'' @ file,
      item_exc_type = (if sync then kSequenceType else kAsyncRunType),
      item_task = (\<lambda>w. case LoadFile api (c_str file) of
                         (document, ok) \<Rightarrow> if \<not> ok then (w, False) else (callback document w, True)),
      item_status = 0, item_message = ''''\<rparr>"

text \<open>\<open>main\<close> of \<open>examples/fw_app\<close>: \<open>OnXmlConfigLoad\<close> of its context notes the documents it is given.\<close>

definition fw_app :: "('d, 'e) xml_api \<Rightarrow> string \<Rightarrow> 'd list" where
  "fw_app api FLAGS_config =
     Application_Run (With (WithXMLConfig api FLAGS_config (\<lambda>doc docs. docs @ [doc]) True) []) []"

section \<open>The configuration manager\<close>

text \<open>
  A watcher is its address. \<open>posted\<close>: the registrations made outside the loop's thread that the loop
  has still to carry out.
\<close>

record ConfigManager =
  watchers_' :: "string \<Rightarrow> nat set option"
  config_sources_' :: "string \<Rightarrow> int option"
  posted :: "(string \<times> nat) list"

definition insert_source :: "string \<Rightarrow> ConfigManager \<Rightarrow> ConfigManager" where
  "insert_source name cm =
     (if config_sources_' cm name = None
      then cm\<lparr>config_sources_' := (config_sources_' cm)(name := Some 10)\<rparr> else cm)"

definition ConfigManager_new :: "string list \<Rightarrow> ConfigManager" where
  "ConfigManager_new names =
     fold insert_source names \<lparr>watchers_' = (\<lambda>s. None), config_sources_' = (\<lambda>s. None), posted = []\<rparr>"

definition has_source :: "string \<Rightarrow> ConfigManager \<Rightarrow> bool" where
  "has_source source cm = (config_sources_' cm source \<noteq> None)"

definition add_watcher :: "string \<Rightarrow> nat \<Rightarrow> ConfigManager \<Rightarrow> ConfigManager" where
  "add_watcher source watcher cm =
     cm\<lparr>watchers_' := (watchers_' cm)(source := Some (insert watcher
          (case watchers_' cm source of None \<Rightarrow> {} | Some ws \<Rightarrow> ws)))\<rparr>"

definition RegisterWatcher :: "bool \<Rightarrow> string \<Rightarrow> nat \<Rightarrow> ConfigManager \<Rightarrow> ConfigManager \<times> bool" where
  "RegisterWatcher in_loop source watcher cm =
     (if in_loop then (add_watcher source watcher cm, True)
      else (cm\<lparr>posted := posted cm @ [(source, watcher)]\<rparr>, True))"

text \<open>The loop runs the front one of the posted tasks.\<close>

definition run_posted :: "ConfigManager \<Rightarrow> ConfigManager" where
  "run_posted cm =
     (case posted cm of
        [] \<Rightarrow> cm
      | (source, watcher) # rest \<Rightarrow> add_watcher source watcher (cm\<lparr>posted := rest\<rparr>))"

datatype manager_op = Register bool string nat | RunPosted

fun do_manager :: "manager_op \<Rightarrow> ConfigManager \<Rightarrow> ConfigManager" where
  "do_manager (Register in_loop source watcher) cm = fst (RegisterWatcher in_loop source watcher cm)"
| "do_manager RunPosted cm = run_posted cm"

definition watchers_of :: "string \<Rightarrow> ConfigManager \<Rightarrow> nat set" where
  "watchers_of source cm = (case watchers_' cm source of None \<Rightarrow> {} | Some ws \<Rightarrow> ws)"

definition known_watchers :: "string \<Rightarrow> ConfigManager \<Rightarrow> nat set" where
  "known_watchers source cm = watchers_of source cm \<union> {w. (source, w) \<in> set (posted cm)}"

lemma watchers_of_add [simp]:
  "watchers_of s (add_watcher source watcher cm) =
     (if s = source then insert watcher (watchers_of s cm) else watchers_of s cm)"
  "posted (add_watcher source watcher cm) = posted cm"
  "config_sources_' (add_watcher source watcher cm) = config_sources_' cm"
  "watchers_of s (cm\<lparr>posted := ps\<rparr>) = watchers_of s cm"
  by (auto simp: watchers_of_def add_watcher_def split: option.split)

lemma known_run_posted [simp]: "known_watchers s (run_posted cm) = known_watchers s cm"
  by (auto simp: run_posted_def known_watchers_def split: list.splits)

lemma known_register [simp]:
  "known_watchers s (fst (RegisterWatcher in_loop source watcher cm)) =
     known_watchers s cm \<union> (if s = source then {watcher} else {})"
  by (auto simp: RegisterWatcher_def known_watchers_def)

lemma do_manager_sources [simp]: "config_sources_' (do_manager op cm) = config_sources_' cm"
  by (cases op) (auto simp: RegisterWatcher_def run_posted_def split: list.splits)

fun registered :: "string \<Rightarrow> manager_op list \<Rightarrow> nat set" where
  "registered s [] = {}"
| "registered s (Register in_loop source watcher # ops) =
     (if s = source then {watcher} else {}) \<union> registered s ops"
| "registered s (RunPosted # ops) = registered s ops"

lemma known_run: "known_watchers s (fold do_manager ops cm) = known_watchers s cm \<union> registered s ops"
proof (induction ops arbitrary: cm)
  case (Cons op ops)
  then show ?case by (cases op) auto
qed simp

lemma new_sources:
  "config_sources_' (fold insert_source names cm) s =
     (if s \<in> set names \<and> config_sources_' cm s = None then Some 10 else config_sources_' cm s)"
  by (induction names arbitrary: cm) (auto simp: insert_source_def)

lemma new_empty:
  "watchers_' (fold insert_source names cm) = watchers_' cm" "posted (fold insert_source names cm) = posted cm"
  by (induction names arbitrary: cm) (auto simp: insert_source_def)

section \<open>Properties\<close>

definition sample_xml :: "(string, string) xml_api" where
  "sample_xml =
     \<lparr>LoadFile = (\<lambda>f. if f = ''manifest.xml'' then (''<app>'', True) else ('''', False)),
      RootElement = (\<lambda>d. if d = '''' then None else Some d),
      FirstChildElement = (\<lambda>n e. if n = ''clients'' then Some ''<clients>'' else None)\<rparr>"

text \<open>C31: The manager knows a watcher of a source exactly when it was registered for it, in whatever order
  registrations from the loop's thread and from others mix with the loop running its tasks: when
  no task is left, the watchers of a source are the registered ones; the sources stay the ones
  the constructor was given.\<close>

theorem manager_knows_registered_watchers:
  "(posted (fold do_manager ops (ConfigManager_new names)) = [] \<longrightarrow>
      watchers_of s (fold do_manager ops (ConfigManager_new names)) = registered s ops)
   \<and> watchers_of s (fold do_manager ops (ConfigManager_new names)) \<subseteq> registered s ops
   \<and> has_source s (fold do_manager ops (ConfigManager_new names)) = (s \<in> set names)"
proof -
  let ?cm = "fold do_manager ops (ConfigManager_new names)"
  have known: "known_watchers s ?cm = registered s ops"
    by (simp add: known_run) (simp add: known_watchers_def watchers_of_def ConfigManager_new_def new_empty)
  have "config_sources_' (fold do_manager ops cm) = config_sources_' cm" for cm
    by (induction ops arbitrary: cm) simp_all
  with known show ?thesis
    by (auto simp: known_watchers_def has_source_def ConfigManager_new_def new_sources)
qed

theorem manager_knows_registered_watchers_witness:
  "watchers_of ''a'' (fold do_manager [Register False ''a'' 1, Register True ''a'' 2, RunPosted]
     (ConfigManager_new [''a''])) = {1, 2}"
proof -
  let ?ops = "[Register False ''a'' 1, Register True ''a'' 2, RunPosted]"
  have "posted (fold do_manager ?ops (ConfigManager_new [''a''])) = []"
    by (simp add: ConfigManager_new_def insert_source_def RegisterWatcher_def run_posted_def add_watcher_def)
  with manager_knows_registered_watchers [of ?ops "[''a'']" "''a''"] show ?thesis by auto
qed

text \<open>The boot item for a configuration file hands the loaded document to its callback, once, exactly when
  the application is asked to run it in sequence and the file loads; asked to run it
  asynchronously, the earlier application does not run it at all.\<close>

theorem xml_config_item_runs_callback:
  "Application_Run (With (WithXMLConfig api file callback sync) items) w =
     (let w1 = Application_Run items w
      in if sync \<and> snd (LoadFile api (c_str file)) then callback (fst (LoadFile api (c_str file))) w1 else w1)"
  by (auto simp: Application_Run_def With_def WithXMLConfig_def boot_item_def Let_def split: prod.splits)

text \<open>The example application prepares its clients from the file exactly when the file loads and has a
  client section; a file that does not load stops the program in the next task, since a failed
  task does not keep the following ones from running and the document that failed to load has
  no root.\<close>

theorem lt_app_prepare_result:
  assumes "\<forall>f. snd (LoadFile api f) = (RootElement api (fst (LoadFile api f)) \<noteq> None)"
  shows "lt_app_prepare api file client =
           (case LoadFile api (c_str file) of
              (d, False) \<Rightarrow> faults CheckFailed
            | (d, True) \<Rightarrow> returns (\<lparr>config_doc_' = Some d, xml_file_' = file\<rparr>,
                FirstChildElement api (c_str client) (the (RootElement api d)) \<noteq> None))"
proof -
  obtain d ok where d: "LoadFile api (c_str file) = (d, ok)" by fastforce
  with assms have "ok = (RootElement api d \<noteq> None)" by (metis fst_conv snd_conv)
  with d show ?thesis
    by (cases ok) (auto simp: lt_app_prepare_def InitConfig_def InitClient_def Load_def XMLRoot_def XmlConfig_new_def)
qed

theorem lt_app_prepare_result_witness:
  "lt_app_prepare sample_xml ''missing.xml'' ''clients'' = faults CheckFailed"
  using lt_app_prepare_result [of sample_xml "''missing.xml''" "''clients''"]
  by (simp add: sample_xml_def c_str_def)



text \<open>The earlier example notes the document exactly when it loads.\<close>

lemma fw_app_loads:
  "fw_app api config = (if snd (LoadFile api (c_str config)) then [fst (LoadFile api (c_str config))] else [])"
  by (auto simp: fw_app_def Application_Run_def With_def WithXMLConfig_def boot_item_def split: prod.splits)

end
