(* ===== verification/Async_Queries.thy ===== *)
theory Async_Queries
  imports Mysql_Progress
begin

text \<open>
  The example program \<open>src/examples/async_mysql/mysql_async_offcial.cc\<close>: it runs a list of queries over
  several connections at a time, each driven by a state machine that libevent wakes.

  The MariaDB client is the record \<open>mysql_api\<close> of \<open>Mysql_Connection\<close>; the connect call, whose
  arguments are the program's options, and libevent's event bits are the record \<open>aq_api\<close>. What the
  program prints is recorded as lines; \<open>fatal\<close> ends the program. Memory is taken not to run out.
\<close>

unbundle bit_operations_syntax

section \<open>Data\<close>

record query_entry =
  entry_query :: string
  entry_index :: int

record ('m, 'r) state_data =
  ST :: nat
  sd_mysql :: 'm
  sd_result :: "'r res_ptr"
  sd_ret :: bool
  sd_err :: int
  sd_row :: MYSQL_ROW
  query_element :: "query_entry res_ptr"
  sd_index :: int

datatype aq_line =
    Started int string
  | RowLine int "string list"
  | ErrorLine int string
  | EofLine int

text \<open>An event of libevent: the socket or -1, the conditions, the timeout in seconds.\<close>

type_synonym aq_event = "int \<times> u32 \<times> u32 option"

record aq_globals =
  query_list :: "query_entry list"
  query_counter :: int
  num_active_connections :: int
  loop_broken :: bool
  printed :: "aq_line list"

record 'm aq_api =
  connect_start :: "bool \<Rightarrow> 'm \<Rightarrow> u32 \<times> bool \<times> 'm"
  EV_TIMEOUT :: u32
  EV_READ :: u32
  EV_WRITE :: u32

text \<open>What the handler works on: the globals, its connection, and the event it has added, if any.\<close>

type_synonym ('m, 'r) aq_run = "aq_globals \<times> ('m, 'r) state_data \<times> aq_event option"

section \<open>The list of queries\<close>

definition print :: "aq_line \<Rightarrow> aq_globals \<Rightarrow> aq_globals" where
  "print l g = g\<lparr>printed := printed g @ [l]\<rparr>"

text \<open>
  \<open>q2[len]\<close> with \<open>len\<close> the length of the string is its terminating zero: the buffer is written out with it.
\<close>

definition cut_at :: "char \<Rightarrow> string \<times> nat \<Rightarrow> string \<times> nat" where
  "cut_at c b = (case b of (buf, len) \<Rightarrow>
     if buf ! len = c then (buf[len := CHR 0x00], len - 1) else (buf, len))"

definition add_query :: "string \<Rightarrow> aq_globals \<Rightarrow> aq_globals" where
  "add_query q g =
     (let q2 = c_str q;
          buf = fst (cut_at (CHR 0x0D) (cut_at (CHR 0x0A) (q2 @ [CHR 0x00], length q2)))
      in g\<lparr>query_list := query_list g @ [\<lparr>entry_query = c_str buf, entry_index = query_counter g\<rparr>],
           query_counter := query_counter g + 1\<rparr>)"

section \<open>Events\<close>

definition wait_events :: "('m, 'r) mysql_api \<Rightarrow> 'm aq_api \<Rightarrow> u32 \<Rightarrow> u32" where
  "wait_events api ev status =
     (if status AND MYSQL_WAIT_READ api \<noteq> 0 then EV_READ ev else 0)
     OR (if status AND MYSQL_WAIT_WRITE api \<noteq> 0 then EV_WRITE ev else 0)"

definition next_event ::
  "('m, 'r) mysql_api \<Rightarrow> 'm aq_api \<Rightarrow> nat \<Rightarrow> u32 \<Rightarrow> ('m, 'r) state_data \<Rightarrow> ('m, 'r) state_data \<times> aq_event" where
  "next_event api ev new_st status sd =
     (let wait_event = wait_events api ev status;
          fd = (if wait_event \<noteq> 0 then mysql_get_socket api (sd_mysql sd) else - 1);
          tv = (if status AND MYSQL_WAIT_TIMEOUT api \<noteq> 0
                then Some (mysql_get_timeout_value api (sd_mysql sd)) else None)
      in (sd\<lparr>ST := new_st\<rparr>, (fd, wait_event, tv)))"

definition mysql_status :: "('m, 'r) mysql_api \<Rightarrow> 'm aq_api \<Rightarrow> u32 \<Rightarrow> u32" where
  "mysql_status api ev event =
     (if event AND EV_READ ev \<noteq> 0 then MYSQL_WAIT_READ api else 0)
     OR (if event AND EV_WRITE ev \<noteq> 0 then MYSQL_WAIT_WRITE api else 0)
     OR (if event AND EV_TIMEOUT ev \<noteq> 0 then MYSQL_WAIT_TIMEOUT api else 0)"

section \<open>The state machine\<close>

text \<open>\<open>if (status) next_event(wait, status, sd); else NEXT_IMMEDIATE(sd, next);\<close>\<close>

definition await_or_go ::
  "('m, 'r) mysql_api \<Rightarrow> 'm aq_api \<Rightarrow> u32 \<Rightarrow> nat \<Rightarrow> nat \<Rightarrow> aq_globals \<Rightarrow> ('m, 'r) state_data
     \<Rightarrow> (('m, 'r) aq_run \<times> bool) outcome" where
  "await_or_go api ev status wait_st next_st g sd =
     (if status \<noteq> 0
      then case next_event api ev wait_st status sd of (sd1, e) \<Rightarrow> returns ((g, sd1, Some e), False)
      else returns ((g, sd\<lparr>ST := next_st\<rparr>, None), True))"

definition print_cell :: "string option \<Rightarrow> string" where
  "print_cell c = (case c of None \<Rightarrow> ''(null)'' | Some v \<Rightarrow> v)"

definition state_machine_body ::
  "('m, 'r) mysql_api \<Rightarrow> 'm aq_api \<Rightarrow> u32 \<Rightarrow> ('m, 'r) aq_run \<Rightarrow> (('m, 'r) aq_run \<times> bool) outcome" where
  "state_machine_body api ev event run =
     (case run of (g, sd, e0) \<Rightarrow>
        if ST sd = 0 then
          (case connect_start ev (sd_ret sd) (sd_mysql sd) of
             (status, ret, m) \<Rightarrow> await_or_go api ev status 1 9 g (sd\<lparr>sd_ret := ret, sd_mysql := m\<rparr>))
        else if ST sd = 1 then
          (case mysql_real_connect_cont api (sd_ret sd) (mysql_status api ev event) (sd_mysql sd) of
             (status, ret, m) \<Rightarrow> await_or_go api ev status 1 9 g (sd\<lparr>sd_ret := ret, sd_mysql := m\<rparr>))
        else if ST sd = 9 then
          (if \<not> sd_ret sd then faults ProcessExit else returns ((g, sd\<lparr>ST := 10\<rparr>, None), True))
        else if ST sd = 10 then
          (case query_list g of
             [] \<Rightarrow> returns ((g, sd\<lparr>query_element := ResNull, ST := 40\<rparr>, None), True)
           | q # rest \<Rightarrow>
               (case mysql_real_query_start api (entry_query q) (sd_mysql sd) of
                  (status, err, m) \<Rightarrow>
                    await_or_go api ev status 11 20
                      (print (Started (entry_index q) (entry_query q)) (g\<lparr>query_list := rest\<rparr>))
                      (sd\<lparr>query_element := ResLive q, sd_index := entry_index q, sd_err := err, sd_mysql := m\<rparr>)))
        else if ST sd = 11 then
          (case mysql_real_query_cont api (mysql_status api ev event) (sd_mysql sd) of
             (status, err, m) \<Rightarrow> await_or_go api ev status 11 20 g (sd\<lparr>sd_err := err, sd_mysql := m\<rparr>))
        else if ST sd = 20 then
          (case query_element sd of
             ResNull \<Rightarrow> faults NullDeref
           | ResFreed \<Rightarrow> faults UseAfterFree
           | ResLive q \<Rightarrow>
               let sd1 = sd\<lparr>query_element := ResFreed\<rparr>
               in if sd_err sd1 \<noteq> 0
                  then returns ((print (ErrorLine (sd_index sd1) (mysql_error api (sd_mysql sd1))) g,
                                 sd1\<lparr>ST := 10\<rparr>, None), True)
                  else (case mysql_use_result api (sd_mysql sd1) of
                          (None, m) \<Rightarrow> faults ProcessExit
                        | (Some r, m) \<Rightarrow>
                            returns ((g, sd1\<lparr>sd_mysql := m, sd_result := ResLive r, ST := 30\<rparr>, None), True)))
        else if ST sd = 30 then
          (case sd_result sd of
             ResNull \<Rightarrow> faults NullDeref
           | ResFreed \<Rightarrow> faults UseAfterFree
           | ResLive r \<Rightarrow>
               (case mysql_fetch_row_start api (sd_row sd) r (sd_mysql sd) of
                  (status, row, r1, m) \<Rightarrow>
                    await_or_go api ev status 31 39 g
                      (sd\<lparr>sd_row := row, sd_result := ResLive r1, sd_mysql := m\<rparr>)))
        else if ST sd = 31 then
          (case sd_result sd of
             ResNull \<Rightarrow> faults NullDeref
           | ResFreed \<Rightarrow> faults UseAfterFree
           | ResLive r \<Rightarrow>
               (case mysql_fetch_row_cont api (sd_row sd) (mysql_status api ev event) r (sd_mysql sd) of
                  (status, row, r1, m) \<Rightarrow>
                    await_or_go api ev status 31 39 g
                      (sd\<lparr>sd_row := row, sd_result := ResLive r1, sd_mysql := m\<rparr>)))
        else if ST sd = 39 then
          (case sd_result sd of
             ResNull \<Rightarrow> faults NullDeref
           | ResFreed \<Rightarrow> faults UseAfterFree
           | ResLive r \<Rightarrow>
               (case sd_row sd of
                  Some cells \<Rightarrow>
                    if length cells < unat (mysql_num_fields api r) then faults OutOfBounds
                    else returns ((print (RowLine (sd_index sd)
                                     (map print_cell (take (unat (mysql_num_fields api r)) cells))) g,
                                   sd\<lparr>ST := 30\<rparr>, None), True)
                | None \<Rightarrow>
                    let line = (if mysql_errno api (sd_mysql sd) \<noteq> 0
                                then ErrorLine (sd_index sd) (mysql_error api (sd_mysql sd))
                                else EofLine (sd_index sd))
                    in returns ((print line g,
                                 sd\<lparr>sd_mysql := mysql_free_result api r (sd_mysql sd), sd_result := ResFreed,
                                    ST := 10\<rparr>, None), True)))
        else if ST sd = 40 then
          (case mysql_close_start api (sd_mysql sd) of
             (status, m) \<Rightarrow> await_or_go api ev status 41 50 g (sd\<lparr>sd_mysql := m\<rparr>))
        else if ST sd = 41 then
          (case mysql_close_cont api (mysql_status api ev event) (sd_mysql sd) of
             (status, m) \<Rightarrow> await_or_go api ev status 41 50 g (sd\<lparr>sd_mysql := m\<rparr>))
        else if ST sd = 50 then
          (let g1 = g\<lparr>num_active_connections := num_active_connections g - 1\<rparr>
           in returns ((g1\<lparr>loop_broken := loop_broken g1 \<or> num_active_connections g1 = 0\<rparr>, sd, None), False))
        else faults CheckFailed)"

definition state_machine_handler ::
  "('m, 'r) mysql_api \<Rightarrow> 'm aq_api \<Rightarrow> u32 \<Rightarrow> aq_globals \<Rightarrow> ('m, 'r) state_data \<Rightarrow> ('m, 'r) aq_run outcome" where
  "state_machine_handler api ev event g sd = loop_while (state_machine_body api ev event) (g, sd, None)"

section \<open>The program\<close>

text \<open>
  The loop of \<open>main\<close> that makes the connections, one from each piece \<open>sd\<close> of fresh memory: initialise the
  handle, count the connection in, and run its machine from state 0.
\<close>

fun start_connections ::
  "('m, 'r) mysql_api \<Rightarrow> 'm aq_api \<Rightarrow> ('m, 'r) state_data list
     \<Rightarrow> aq_globals \<times> (('m, 'r) state_data \<times> aq_event option) list
     \<Rightarrow> (aq_globals \<times> (('m, 'r) state_data \<times> aq_event option) list) outcome" where
  "start_connections api ev [] P = returns P"
| "start_connections api ev (sd # sds) (g, conns) =
     (let m = mysql_options api (MYSQL_READ_DEFAULT_GROUP ''async_queries'')
                (mysql_options api MYSQL_OPT_NONBLOCK (mysql_init api (sd_mysql sd)));
          sd1 = sd\<lparr>sd_mysql := m, ST := 0\<rparr>;
          g1 = g\<lparr>num_active_connections := num_active_connections g + 1\<rparr>
      in then_do (state_machine_handler api ev (- 1) g1 sd1)
           (\<lambda>(g2, sd2, e). start_connections api ev sds (g2, conns @ [(sd2, e)])))"

text \<open>
  \<open>fgets (buf, n, f)\<close> on the rest of a file: what it reads into \<open>buf\<close>, or \<open>None\<close> at the end; the rest
  after it; and whether it has run into the end.
\<close>

definition fgets :: "nat \<Rightarrow> string \<Rightarrow> string option \<times> string \<times> bool" where
  "fgets n s =
     (let k = min (n - 1) (Suc (length (takeWhile (\<lambda>c. c \<noteq> CHR 0x0A) s)))
      in if s = [] then (None, [], True) else (Some (take k s), drop k s, length s < k))"

text \<open>The loop of \<open>main\<close> over the query file, with \<open>eof\<close> what \<open>feof\<close> returns.\<close>

function read_queries :: "string \<Rightarrow> bool \<Rightarrow> aq_globals \<Rightarrow> aq_globals" where
  "read_queries f eof g =
     (if eof then g
      else case fgets 65536 f of
             (None, f1, eof1) \<Rightarrow> g
           | (Some buf, f1, eof1) \<Rightarrow> read_queries f1 eof1 (add_query buf g))"
  by pat_completeness auto
termination
  by (relation "measure (\<lambda>(f, eof, g). length f)") (auto simp: fgets_def Let_def split: if_splits)

declare read_queries.simps [simp del]

definition aq_globals_init :: aq_globals where
  "aq_globals_init = \<lparr>query_list = [], query_counter = 0, num_active_connections = 0, loop_broken = False,
     printed = []\<rparr>"

text \<open>
  \<open>main\<close> up to \<open>event_dispatch\<close>: the queries of the file, if one is named (it holds \<open>None\<close> where \<open>fopen\<close>
  fails), then those of the arguments; \<open>err\<close> is what \<open>mysql_library_init\<close> returns.
\<close>

definition load_queries :: "string option option \<Rightarrow> string list \<Rightarrow> aq_globals outcome" where
  "load_queries opt_query_file args =
     then_do (case opt_query_file of
                None \<Rightarrow> returns aq_globals_init
              | Some None \<Rightarrow> faults ProcessExit
              | Some (Some f) \<Rightarrow> returns (read_queries f False aq_globals_init))
       (\<lambda>g. returns (fold add_query args g))"

definition main_setup ::
  "('m, 'r) mysql_api \<Rightarrow> 'm aq_api \<Rightarrow> int \<Rightarrow> string option option \<Rightarrow> string list \<Rightarrow> ('m, 'r) state_data list
     \<Rightarrow> (aq_globals \<times> (('m, 'r) state_data \<times> aq_event option) list) outcome" where
  "main_setup api ev err opt_query_file args sds =
     then_do (load_queries opt_query_file args)
       (\<lambda>g. if err \<noteq> 0 then faults ProcessExit else start_connections api ev sds (g, []))"

text \<open>\<open>event_dispatch\<close>: one of the events that were added fires; adding an event is for one time.\<close>

inductive dispatch_step ::
  "('m, 'r) mysql_api \<Rightarrow> 'm aq_api
     \<Rightarrow> aq_globals \<times> (('m, 'r) state_data \<times> aq_event option) list
     \<Rightarrow> aq_globals \<times> (('m, 'r) state_data \<times> aq_event option) list \<Rightarrow> bool"
  for api :: "('m, 'r) mysql_api" and ev :: "'m aq_api" where
  fire: "state_machine_handler api ev event g sd = returns (g', sd', e') \<Longrightarrow>
     dispatch_step api ev (g, xs @ (sd, Some e) # ys) (g', xs @ (sd', e') # ys)"

section \<open>Options\<close>

record aq_options =
  opt_password :: "string option"
  tty_password :: int

definition handle_option :: "char \<Rightarrow> string option \<Rightarrow> aq_options \<Rightarrow> (aq_options \<times> bool) outcome" where
  "handle_option optid arg opts =
     (if optid = CHR ''?'' then faults ProcessExit
      else if optid = CHR ''p''
      then returns (case arg of Some a \<Rightarrow> opts\<lparr>opt_password := Some a\<rparr> | None \<Rightarrow> opts\<lparr>tty_password := 1\<rparr>, False)
      else returns (opts, False))"

text \<open>
  The options of \<open>main\<close>: \<open>found\<close> are the options \<open>handle_options\<close> of the MySQL library finds and hands to the
  handler one after the other, \<open>err\<close> what it returns, \<open>tty\<close> the password \<open>get_tty_password\<close> reads.
\<close>

fun handle_found :: "(char \<times> string option) list \<Rightarrow> aq_options \<Rightarrow> aq_options outcome" where
  "handle_found [] opts = returns opts"
| "handle_found ((optid, arg) # found) opts =
     then_do (handle_option optid arg opts) (\<lambda>(opts1, stop). handle_found found opts1)"

definition read_options ::
  "(char \<times> string option) list \<Rightarrow> int \<Rightarrow> string \<Rightarrow> aq_options \<Rightarrow> aq_options outcome" where
  "read_options found err tty opts =
     then_do (handle_found found opts)
       (\<lambda>opts1. if err \<noteq> 0 then faults ProcessExit
               else if tty_password opts1 \<noteq> 0 then returns (opts1\<lparr>opt_password := Some tty\<rparr>)
               else returns opts1)"

fun passwords :: "(char \<times> string option) list \<Rightarrow> string option list" where
  "passwords [] = []"
| "passwords ((optid, arg) # found) = (if optid = CHR ''p'' then arg # passwords found else passwords found)"

lemma handle_option_effect:
  "optid \<noteq> CHR ''?'' \<Longrightarrow> \<exists>opts1. handle_option optid arg opts = returns (opts1, False)
     \<and> tty_password opts1 = (if optid = CHR ''p'' \<and> arg = None then 1 else tty_password opts)
     \<and> opt_password opts1 = (if optid = CHR ''p'' \<and> arg \<noteq> None then arg else opt_password opts)"
  by (cases "optid = CHR ''p''"; cases arg) (simp_all add: handle_option_def)

lemma handle_found_passwords:
  "CHR ''?'' \<notin> set (map fst found) \<Longrightarrow> \<exists>opts'. handle_found found opts = returns opts'
     \<and> tty_password opts' = (if None \<in> set (passwords found) then 1 else tty_password opts)
     \<and> opt_password opts' = (let ps = filter (\<lambda>p. p \<noteq> None) (passwords found)
                                in if ps = [] then opt_password opts else last ps)"
proof (induction found arbitrary: opts)
  case (Cons f found)
  obtain optid arg where f: "f = (optid, arg)" by fastforce
  have "optid \<noteq> CHR ''?''" using Cons.prems f by auto
  from handle_option_effect [OF this, of arg opts] obtain opts1 where opts1: "handle_option optid arg opts = returns (opts1, False)"
    "tty_password opts1 = (if optid = CHR ''p'' \<and> arg = None then 1 else tty_password opts)"
    "opt_password opts1 = (if optid = CHR ''p'' \<and> arg \<noteq> None then arg else opt_password opts)"
    by blast
  from Cons.IH [of opts1] Cons.prems f opts1 show ?case
    by (cases "optid = CHR ''p''"; cases arg) (auto simp: Let_def)
qed simp

text \<open>A \<open>-p\<close> without a value asks the terminal, wherever it stands; else the last value given is the password.\<close>

lemma password_chosen:
  assumes "CHR ''?'' \<notin> set (map fst found)" and "tty_password opts = 0"
  shows "\<exists>opts'. read_options found 0 tty opts = returns opts' \<and> opt_password opts' =
    (if None \<in> set (passwords found) then Some tty
     else if passwords found = [] then opt_password opts else last (passwords found))"
proof -
  have "filter (\<lambda>p. p \<noteq> None) (passwords found) = passwords found" if "None \<notin> set (passwords found)"
    by (rule filter_True) (metis that)
  with handle_found_passwords [OF assms(1), of opts] assms(2) show ?thesis
    by (auto simp: read_options_def Let_def)
qed

text \<open>
  The table \<open>options\<close>. \<open>opt_value\<close> is the variable the library stores the value in, if there is one; the sizes,
  limits and the closing entry, which are all zero, are left out.
\<close>

datatype opt_variable = Opt_db | Opt_host | Opt_port | Opt_socket | Opt_user | Opt_connections | Opt_query_file

datatype var_type = GET_NO_ARG | GET_STR | GET_UINT

datatype arg_type = NO_ARG | OPT_ARG | REQUIRED_ARG

record my_option =
  opt_name :: string
  opt_id :: char
  opt_value :: "opt_variable option"
  opt_var_type :: var_type
  opt_arg_type :: arg_type
  def_value :: int

definition option_table :: "my_option list" where
  "option_table = map (\<lambda>(n, i, v, t, a, d). \<lparr>opt_name = n, opt_id = i, opt_value = v, opt_var_type = t, opt_arg_type = a, def_value = d\<rparr>)
     [(''database'', CHR ''D'', Some Opt_db, GET_STR, REQUIRED_ARG, 0),
      (''help'', CHR ''?'', None, GET_NO_ARG, NO_ARG, 0),
      (''host'', CHR ''h'', Some Opt_host, GET_STR, REQUIRED_ARG, 0),
      (''password'', CHR ''p'', None, GET_STR, OPT_ARG, 0),
      (''port'', CHR ''P'', Some Opt_port, GET_UINT, REQUIRED_ARG, 0),
      (''socket'', CHR ''S'', Some Opt_socket, GET_STR, REQUIRED_ARG, 0),
      (''user'', CHR ''u'', Some Opt_user, GET_STR, REQUIRED_ARG, 0),
      (''connections'', CHR ''n'', Some Opt_connections, GET_UINT, REQUIRED_ARG, 5),
      (''queryfile'', CHR ''q'', Some Opt_query_file, GET_STR, REQUIRED_ARG, 0)]"

text \<open>
  The table and the handler fit together: names, letters and variables are unambiguous, and the handler acts on
  exactly the options that have no variable; the others leave the program's own options as they are.
\<close>

lemma options_handled_once:
  "distinct (map opt_id option_table) \<and> distinct (map opt_name option_table)
   \<and> distinct (filter (\<lambda>v. v \<noteq> None) (map opt_value option_table))
   \<and> (\<forall>o' \<in> set option_table. opt_value o' \<noteq> None \<longleftrightarrow>
        (\<forall>arg opts. handle_option (opt_id o') arg opts = returns (opts, False)))"
proof -
  let ?o = "\<lparr>opt_password = None, tty_password = 0\<rparr>"
  have "handle_option (CHR ''?'') None ?o \<noteq> returns (?o, False)" "handle_option (CHR ''p'') None ?o \<noteq> returns (?o, False)"
    by (simp_all add: handle_option_def)
  moreover have "handle_option i arg opts = returns (opts, False)" if "i \<noteq> CHR ''?''" "i \<noteq> CHR ''p''" for i arg opts
    using that by (simp add: handle_option_def)
  ultimately have acts: "(\<forall>arg opts. handle_option i arg opts = returns (opts, False)) \<longleftrightarrow> i \<noteq> CHR ''?'' \<and> i \<noteq> CHR ''p''" for i
    by metis
  show ?thesis unfolding acts option_table_def by simp
qed

section \<open>Accounts\<close>

fun line_start :: "aq_line \<Rightarrow> (int \<times> string) list" where
  "line_start (Started i q) = [(i, q)]" | "line_start _ = []"

fun line_answer :: "aq_line \<Rightarrow> int list" where
  "line_answer (ErrorLine i m) = [i]" | "line_answer (EofLine i) = [i]" | "line_answer _ = []"

text \<open>The queries started and the queries answered so far.\<close>

definition starts :: "aq_globals \<Rightarrow> (int \<times> string) list" where
  "starts g = concat (map line_start (printed g))"

definition answers :: "aq_globals \<Rightarrow> int list" where
  "answers g = concat (map line_answer (printed g))"

lemma print_sel [simp]:
  "starts (print l g) = starts g @ line_start l" "answers (print l g) = answers g @ line_answer l"
  "query_list (print l g) = query_list g" "num_active_connections (print l g) = num_active_connections g"
  by (simp_all add: starts_def answers_def print_def)

lemma accounts_frame [simp]:
  "starts (g\<lparr>query_list := qs\<rparr>) = starts g" "answers (g\<lparr>query_list := qs\<rparr>) = answers g"
  "starts (g\<lparr>num_active_connections := n\<rparr>) = starts g" "answers (g\<lparr>num_active_connections := n\<rparr>) = answers g"
  "starts (g\<lparr>loop_broken := b\<rparr>) = starts g" "answers (g\<lparr>loop_broken := b\<rparr>) = answers g"
  by (simp_all add: starts_def answers_def)

definition entry :: "query_entry \<Rightarrow> int \<times> string" where
  "entry q = (entry_index q, entry_query q)"

text \<open>The query a connection has started and not answered.\<close>

definition on_hand :: "('m, 'r) state_data \<Rightarrow> int multiset" where
  "on_hand sd = (if ST sd \<in> {11, 20, 30, 31, 39} then {#sd_index sd#} else {#})"

definition sd_ok :: "('m, 'r) mysql_api \<Rightarrow> ('m, 'r) state_data \<Rightarrow> bool" where
  "sd_ok api sd \<longleftrightarrow>
     ST sd \<in> {0, 1, 9, 10, 11, 20, 30, 31, 39, 40, 41, 50}
     \<and> (ST sd \<in> {11, 20} \<longrightarrow> (\<exists>q. query_element sd = ResLive q))
     \<and> (ST sd \<in> {30, 31, 39} \<longrightarrow> (\<exists>r. sd_result sd = ResLive r
          \<and> (\<forall>cells. ST sd = 39 \<longrightarrow> sd_row sd = Some cells \<longrightarrow> unat (mysql_num_fields api r) \<le> length cells)))"

text \<open>
  What holds of the globals and one connection in every round of the machine: \<open>orig\<close> is the list of
  queries the program was given, \<open>K\<close> what the other connections have on hand, \<open>Z\<close> whether the list
  of queries was empty already.
\<close>

definition aq_books ::
  "('m, 'r) mysql_api \<Rightarrow> (int \<times> string) list \<Rightarrow> int multiset \<Rightarrow> bool \<Rightarrow> aq_globals \<Rightarrow> ('m, 'r) state_data \<Rightarrow> bool" where
  "aq_books api orig K Z g sd \<longleftrightarrow>
     sd_ok api sd
     \<and> starts g @ map entry (query_list g) = orig
     \<and> mset (answers g) + on_hand sd + K = mset (map fst (starts g))
     \<and> (Z \<or> ST sd \<in> {40, 41, 50} \<longrightarrow> query_list g = [])"

text \<open>
  Before a round the connection is one of the \<open>N\<close> that are active; the handler stops with an event
  added, or, in state 50 and with no event, after it has counted the connection out.
\<close>

definition aq_live ::
  "('m, 'r) mysql_api \<Rightarrow> ('r \<Rightarrow> nat) \<Rightarrow> ('r \<Rightarrow> nat) \<Rightarrow> (int \<times> string) list \<Rightarrow> int multiset \<Rightarrow> bool \<Rightarrow> int
     \<Rightarrow> ('m, 'r) aq_run \<Rightarrow> bool" where
  "aq_live api rows cols orig K Z N run \<longleftrightarrow>
     rows_have_width api \<and> result_sets_end api rows cols
     \<and> (case run of (g, sd, e) \<Rightarrow> aq_books api orig K Z g sd \<and> num_active_connections g = N)"

definition aq_stopped ::
  "('m, 'r) mysql_api \<Rightarrow> (int \<times> string) list \<Rightarrow> int multiset \<Rightarrow> bool \<Rightarrow> int \<Rightarrow> ('m, 'r) aq_run \<Rightarrow> bool" where
  "aq_stopped api orig K Z N run \<longleftrightarrow>
     (case run of (g, sd, e) \<Rightarrow> aq_books api orig K Z g sd
        \<and> (if e = None then ST sd = 50 \<and> num_active_connections g = N - 1 else num_active_connections g = N))"

section \<open>A round keeps the accounts\<close>

definition aq_round_ok ::
  "('m, 'r) mysql_api \<Rightarrow> (int \<times> string) list \<Rightarrow> int multiset \<Rightarrow> bool \<Rightarrow> int
     \<Rightarrow> (('m, 'r) aq_run \<times> bool) outcome \<Rightarrow> bool" where
  "aq_round_ok api orig K Z N r \<longleftrightarrow>
     (case r of
        None \<Rightarrow> False
      | Some (Inl f) \<Rightarrow> f = ProcessExit
      | Some (Inr ((g, sd, e), True)) \<Rightarrow> aq_books api orig K Z g sd \<and> num_active_connections g = N
      | Some (Inr (run, False)) \<Rightarrow> aq_stopped api orig K Z N run)"

lemma aq_round_ok_simps [simp]:
  "\<not> aq_round_ok api orig K Z N None"
  "aq_round_ok api orig K Z N (faults f) \<longleftrightarrow> f = ProcessExit"
  "aq_round_ok api orig K Z N (returns ((g, sd, e), True)) \<longleftrightarrow> aq_books api orig K Z g sd \<and> num_active_connections g = N"
  "aq_round_ok api orig K Z N (returns (run, False)) \<longleftrightarrow> aq_stopped api orig K Z N run"
  by (simp_all add: aq_round_ok_def)

lemma await_or_go_ok:
  assumes "aq_books api orig K Z g (sd\<lparr>ST := wait_st\<rparr>)"
    and "status = 0 \<Longrightarrow> aq_books api orig K Z g (sd\<lparr>ST := next_st\<rparr>)" and "num_active_connections g = N"
  shows "aq_round_ok api orig K Z N (await_or_go api ev status wait_st next_st g sd)"
  using assms by (simp add: await_or_go_def next_event_def aq_stopped_def Let_def)

lemmas books_defs = aq_books_def sd_ok_def on_hand_def entry_def

text \<open>The states, with their groups: those that ask the server and wait, and the others.\<close>

lemma body_ok_waits:
  assumes b: "aq_books api orig K Z g sd" and N: "num_active_connections g = N"
    and st: "ST sd \<in> {0, 1, 11, 40, 41}"
  shows "aq_round_ok api orig K Z N (state_machine_body api ev event (g, sd, e))"
proof -
  from st consider "ST sd = 0" | "ST sd = 1" | "ST sd = 11" | "ST sd = 40" | "ST sd = 41" by auto
  then show ?thesis
    by cases
      (use b N in \<open>auto simp: state_machine_body_def books_defs split: prod.split intro!: await_or_go_ok\<close>)
qed

lemma body_ok_goes_on:
  assumes b: "aq_books api orig K Z g sd" and N: "num_active_connections g = N"
    and st: "ST sd \<in> {9, 20, 39, 50}"
  shows "aq_round_ok api orig K Z N (state_machine_body api ev event (g, sd, e))"
proof -
  from st consider "ST sd = 9" | "ST sd = 20" | "ST sd = 39" | "ST sd = 50" by auto
  then show ?thesis
    by cases
      (use b N in \<open>auto simp: state_machine_body_def books_defs aq_stopped_def Let_def
        split: prod.split option.split\<close>)
qed

lemma body_ok_next_query:
  assumes b: "aq_books api orig K Z g sd" and N: "num_active_connections g = N" and st: "ST sd = 10"
  shows "aq_round_ok api orig K Z N (state_machine_body api ev event (g, sd, e))"
  using assms
  by (auto simp: state_machine_body_def books_defs split: prod.split list.split intro!: await_or_go_ok)

lemma books_row:
  assumes "aq_books api orig K Z g sd" and "ST sd \<in> {30, 31}"
    and "st = 31 \<or> st = 39 \<and> (case row of None \<Rightarrow> True | Some cells \<Rightarrow> unat (mysql_num_fields api r) \<le> length cells)"
  shows "aq_books api orig K Z g (sd\<lparr>sd_row := row, sd_result := ResLive r, sd_mysql := m, ST := st\<rparr>)"
proof -
  have "on_hand sd = {#sd_index sd#}" using assms(2) by (auto simp: on_hand_def)
  then show ?thesis
    using assms(1,3) unfolding aq_books_def
    by (elim disjE conjE) (simp_all add: sd_ok_def on_hand_def split: option.splits)
qed

lemma body_ok_row:
  assumes b: "aq_books api orig K Z g sd" and N: "num_active_connections g = N"
    and w: "rows_have_width api" and st: "ST sd \<in> {30, 31}"
  shows "aq_round_ok api orig K Z N (state_machine_body api ev event (g, sd, e))"
proof -
  have "ST sd \<in> {30, 31, 39}" using st by auto
  then obtain r where r: "sd_result sd = ResLive r" using b unfolding aq_books_def sd_ok_def by blast
  define res where "res = (if ST sd = 30 then mysql_fetch_row_start api (sd_row sd) r (sd_mysql sd)
    else mysql_fetch_row_cont api (sd_row sd) (mysql_status api ev event) r (sd_mysql sd))"
  obtain s row r1 m where f: "res = (s, row, r1, m)" by (metis prod.exhaust)
  have "length cells = unat (mysql_num_fields api r1)" if "s = 0" "row = Some cells" for cells
    using w f that unfolding rows_have_width_def res_def by (metis (full_types))
  moreover have "state_machine_body api ev event (g, sd, e) =
      await_or_go api ev s 31 39 g (sd\<lparr>sd_row := row, sd_result := ResLive r1, sd_mysql := m\<rparr>)"
    using st r f by (auto simp: state_machine_body_def res_def)
  ultimately show ?thesis
    using N books_row [OF b st] by (auto intro!: await_or_go_ok split: option.split)
qed

lemma body_ok:
  assumes "aq_live api rows cols orig K Z N (g, sd, e)"
  shows "aq_round_ok api orig K Z N (state_machine_body api ev event (g, sd, e))"
proof -
  have "ST sd \<in> {0, 1, 9, 10, 11, 20, 30, 31, 39, 40, 41, 50}"
    using assms by (simp add: aq_live_def aq_books_def sd_ok_def)
  then consider "ST sd \<in> {0, 1, 11, 40, 41}" | "ST sd \<in> {9, 20, 39, 50}" | "ST sd = 10" | "ST sd \<in> {30, 31}"
    by auto
  then show ?thesis
    using assms
    by cases (auto simp: aq_live_def intro: body_ok_waits body_ok_goes_on body_ok_next_query body_ok_row)
qed

section \<open>The handler ends\<close>

text \<open>
  A round that goes on takes a query, or moves on in the order of the states, or uses up a row.
\<close>

fun aq_rank :: "nat \<Rightarrow> nat" where
  "aq_rank s = (if s \<in> {0, 1} then 11 else if s = 9 then 10 else if s = 11 then 9 else if s = 20 then 8
     else if s \<in> {30, 31, 39} then 7 else if s = 10 then 6 else if s \<in> {40, 41} then 5 else 4)"

definition rows_left :: "('r \<Rightarrow> nat) \<Rightarrow> ('m, 'r) state_data \<Rightarrow> nat" where
  "rows_left rows sd = 3 * res_left rows (sd_result sd)
     + (if ST sd = 39 then (if sd_row sd = None then 0 else 2) else 1)"

definition aq_dec :: "('r \<Rightarrow> nat) \<Rightarrow> (('m, 'r) aq_run \<times> ('m, 'r) aq_run) set" where
  "aq_dec rows = inv_image (less_than <*lex*> less_than <*lex*> less_than)
     (\<lambda>(g, sd, e). (length (query_list g), aq_rank (ST sd), rows_left rows sd))"

lemma wf_aq_dec: "wf (aq_dec rows)"
  by (simp add: aq_dec_def wf_inv_image wf_lex_prod)

lemma aq_dec_iff:
  "((g', sd', e'), (g, sd, e)) \<in> aq_dec rows \<longleftrightarrow>
     length (query_list g') < length (query_list g)
     \<or> length (query_list g') = length (query_list g)
       \<and> (aq_rank (ST sd') < aq_rank (ST sd)
          \<or> aq_rank (ST sd') = aq_rank (ST sd) \<and> rows_left rows sd' < rows_left rows sd)"
  by (auto simp: aq_dec_def)

lemma await_or_go_goes:
  "await_or_go api ev status wait_st next_st g sd = returns (run, True) \<longleftrightarrow>
     status = 0 \<and> run = (g, sd\<lparr>ST := next_st\<rparr>, None)"
  by (auto simp: await_or_go_def split: prod.splits)

lemma round_decreases_row:
  assumes r: "sd_result sd = ResLive r" and e: "result_sets_end api rows cols" and st: "ST sd \<in> {30, 31}"
    and go: "state_machine_body api ev event (g, sd, e) = returns (run, True)"
  shows "(run, (g, sd, e)) \<in> aq_dec rows"
proof -
  define res where "res = (if ST sd = 30 then mysql_fetch_row_start api (sd_row sd) r (sd_mysql sd)
    else mysql_fetch_row_cont api (sd_row sd) (mysql_status api ev event) r (sd_mysql sd))"
  obtain s row r1 m where f: "res = (s, row, r1, m)" by (metis prod.exhaust)
  have "state_machine_body api ev event (g, sd, e) =
      await_or_go api ev s 31 39 g (sd\<lparr>sd_row := row, sd_result := ResLive r1, sd_mysql := m\<rparr>)"
    using st r f by (auto simp: state_machine_body_def res_def)
  with go have s: "s = 0"
    and run: "run = (g, sd\<lparr>sd_row := row, sd_result := ResLive r1, sd_mysql := m, ST := 39\<rparr>, None)"
    by (auto simp: await_or_go_goes)
  have "if row = None then rows r1 \<le> rows r else rows r1 < rows r"
    using e f s unfolding result_sets_end_def res_def by (metis (full_types))
  with st r run show ?thesis by (auto simp: aq_dec_iff rows_left_def split: if_splits)
qed

lemma round_decreases_next_query:
  assumes "ST sd = 10" and "state_machine_body api ev event (g, sd, e) = returns (run, True)"
  shows "(run, (g, sd, e)) \<in> aq_dec rows"
  using assms
  by (auto simp: state_machine_body_def await_or_go_goes aq_dec_iff split: prod.splits list.splits)

lemma round_decreases_other:
  assumes "ST sd \<in> {0, 1, 9, 11, 20, 39, 40, 41, 50}"
    and go: "state_machine_body api ev event (g, sd, e) = returns (run, True)"
  shows "(run, (g, sd, e)) \<in> aq_dec rows"
proof -
  from assms(1) consider "ST sd = 0" | "ST sd = 1" | "ST sd = 9" | "ST sd = 11" | "ST sd = 20" | "ST sd = 39"
    | "ST sd = 40" | "ST sd = 41" | "ST sd = 50" by auto
  then show ?thesis
    by cases
      (use go in \<open>auto simp: state_machine_body_def await_or_go_goes aq_dec_iff rows_left_def Let_def
        split: prod.splits option.splits res_ptr.splits if_splits\<close>)
qed

lemma round_decreases:
  assumes live: "aq_live api rows cols orig K Z N (g, sd, e)"
    and go: "state_machine_body api ev event (g, sd, e) = returns (run, True)"
  shows "(run, (g, sd, e)) \<in> aq_dec rows"
proof -
  have "sd_ok api sd" and ends: "result_sets_end api rows cols"
    using live by (auto simp: aq_live_def aq_books_def)
  then consider "ST sd \<in> {0, 1, 9, 11, 20, 39, 40, 41, 50}" | "ST sd = 10"
    | r where "ST sd \<in> {30, 31}" "sd_result sd = ResLive r"
    by (auto simp: sd_ok_def)
  then show ?thesis
    using go ends by cases (auto intro: round_decreases_other round_decreases_next_query round_decreases_row)
qed

interpretation aq: ending_loop "state_machine_body api ev event" "aq_live api rows cols orig K Z N"
  "aq_stopped api orig K Z N" "\<lambda>f. f = ProcessExit" "aq_dec rows"
  for api :: "('m, 'r) mysql_api" and ev event rows cols orig K Z N
proof
  fix s s' :: "('m, 'r) aq_run"
  assume live: "aq_live api rows cols orig K Z N s"
  obtain g sd e where s: "s = (g, sd, e)" by (metis prod.exhaust)
  note ok = body_ok [OF live [unfolded s], of ev event, folded s]
  { assume "state_machine_body api ev event s = returns (s', True)"
    with ok live show "aq_live api rows cols orig K Z N s'" by (cases s') (auto simp: aq_live_def) }
  { assume "state_machine_body api ev event s = returns (s', False)"
    with ok show "aq_stopped api orig K Z N s'" by simp }
  { fix f assume "state_machine_body api ev event s = faults f"
    with ok show "f = ProcessExit" by simp }
  show "state_machine_body api ev event s \<noteq> None"
    using ok by (cases "state_machine_body api ev event s") auto
  show "state_machine_body api ev event s = returns (s', True) \<Longrightarrow> (s', s) \<in> aq_dec rows"
    using round_decreases live s by blast
qed (rule wf_aq_dec)

lemma handler_ends:
  assumes "aq_live api rows cols orig K Z N (g, sd, None)"
  shows "state_machine_handler api ev event g sd = faults ProcessExit
         \<or> (\<exists>run. state_machine_handler api ev event g sd = returns run \<and> aq_stopped api orig K Z N run)"
proof -
  from aq.staged_ends [OF assms, of ev event] obtain r where
    r: "state_machine_handler api ev event g sd = Some r" and well: "aq.ends_well api ev event rows cols orig K Z N r"
    by (auto simp: state_machine_handler_def)
  from well r show ?thesis unfolding aq.ends_well_def by (cases r) simp_all
qed

section \<open>The list of queries, loaded\<close>

lemma c_str_no_zero [simp]: "CHR 0x00 \<notin> set (c_str s)"
  by (auto simp: c_str_def dest: set_takeWhileD)


lemma c_str_terminated [simp]: "CHR 0x00 \<notin> set s \<Longrightarrow> c_str (s @ [CHR 0x00]) = s"
  by (induction s) (auto simp: c_str_def)

lemma add_query_appends:
  "add_query q g = g\<lparr>query_list := query_list g @ [\<lparr>entry_query = c_str q, entry_index = query_counter g\<rparr>],
     query_counter := query_counter g + 1\<rparr>"
  by (simp add: add_query_def cut_at_def Let_def nth_append)

definition numbered :: "string list \<Rightarrow> query_entry list" where
  "numbered qs = map (\<lambda>(i, q). \<lparr>entry_query = q, entry_index = int i\<rparr>) (enumerate 0 qs)"

definition loaded :: "string list \<Rightarrow> aq_globals" where
  "loaded qs = aq_globals_init\<lparr>query_list := numbered qs, query_counter := int (length qs)\<rparr>"

lemma add_query_loaded: "add_query q (loaded qs) = loaded (qs @ [c_str q])"
  by (simp add: loaded_def numbered_def add_query_appends aq_globals_init_def enumerate_append_eq)

lemma add_queries_loaded: "fold add_query args (loaded qs) = loaded (qs @ map c_str args)"
  by (induction args arbitrary: qs) (simp_all add: add_query_loaded)

lemma loaded_Nil: "aq_globals_init = loaded []"
  by (simp add: loaded_def numbered_def aq_globals_init_def)

text \<open>The pieces in which \<open>fgets\<close> reads a file.\<close>

lemma read_queries_loaded:
  "\<exists>pieces. read_queries f False (loaded qs) = loaded (qs @ map c_str pieces) \<and> concat pieces = f"
proof (induction "length f" arbitrary: f qs rule: less_induct)
  case less
  show ?case
  proof (cases "f = []")
    case True
    then have "read_queries f False (loaded qs) = loaded (qs @ map c_str [])"
      by (simp add: read_queries.simps fgets_def)
    with True show ?thesis by (intro exI [of _ "[]"]) simp
  next
    case False
    define k where "k = min (65536 - 1) (Suc (length (takeWhile (\<lambda>c. c \<noteq> CHR 0x0A) f)))"
    have k: "0 < k" by (simp add: k_def)
    have step: "read_queries f False (loaded qs) =
        read_queries (drop k f) (length f < k) (loaded (qs @ [c_str (take k f)]))"
      using False by (subst read_queries.simps) (simp add: fgets_def k_def add_query_loaded Let_def)
    show ?thesis
    proof (cases "length f < k")
      case True
      with step have "read_queries f False (loaded qs) = loaded (qs @ map c_str [f])"
        by (simp add: read_queries.simps)
      then show ?thesis by (intro exI [of _ "[f]"]) simp
    next
      case go: False
      have "length (drop k f) < length f" using False k by simp
      from less [OF this, of "qs @ [c_str (take k f)]"] obtain ps where
        "read_queries (drop k f) False (loaded (qs @ [c_str (take k f)]))
           = loaded ((qs @ [c_str (take k f)]) @ map c_str ps)" "concat ps = drop k f" by blast
      with step go show ?thesis by (intro exI [of _ "take k f # ps"]) simp
    qed
  qed
qed

section \<open>The connections together\<close>

text \<open>
  A connection either waits for an event or has ended in state 50, and one that has gone past state 10
  for the last time has seen the list of queries empty.
\<close>

definition conn_ok ::
  "('m, 'r) mysql_api \<Rightarrow> aq_globals \<Rightarrow> ('m, 'r) state_data \<times> aq_event option \<Rightarrow> bool" where
  "conn_ok api g c \<longleftrightarrow>
     sd_ok api (fst c) \<and> (snd c = None \<longrightarrow> ST (fst c) = 50)
     \<and> (ST (fst c) \<in> {40, 41, 50} \<longrightarrow> query_list g = [])"

definition all_on_hand :: "(('m, 'r) state_data \<times> aq_event option) list \<Rightarrow> int multiset" where
  "all_on_hand conns = sum_list (map (\<lambda>c. on_hand (fst c)) conns)"

definition active :: "(('m, 'r) state_data \<times> aq_event option) list \<Rightarrow> nat" where
  "active conns = length (filter (\<lambda>c. snd c \<noteq> None) conns)"

lemma conns_simps [simp]:
  "all_on_hand [] = {#}" "all_on_hand (c # cs) = on_hand (fst c) + all_on_hand cs"
  "all_on_hand (xs @ ys) = all_on_hand xs + all_on_hand ys"
  "active [] = 0" "active (c # cs) = (if snd c = None then 0 else 1) + active cs" "active (xs @ ys) = active xs + active ys"
  by (simp_all add: all_on_hand_def active_def)

definition aq_inv ::
  "('m, 'r) mysql_api \<Rightarrow> (int \<times> string) list
     \<Rightarrow> aq_globals \<times> (('m, 'r) state_data \<times> aq_event option) list \<Rightarrow> bool" where
  "aq_inv api orig P \<longleftrightarrow>
     starts (fst P) @ map entry (query_list (fst P)) = orig
     \<and> mset (answers (fst P)) + all_on_hand (snd P) = mset (map fst (starts (fst P)))
     \<and> (\<forall>c \<in> set (snd P). conn_ok api (fst P) c)
     \<and> num_active_connections (fst P) = int (active (snd P))"

lemma handler_keeps_inv:
  assumes api: "rows_have_width api" "result_sets_end api rows cols"
    and others: "\<forall>c \<in> set xs \<union> set ys. conn_ok api g c"
    and books: "aq_books api orig (all_on_hand xs + all_on_hand ys) (query_list g = []) g sd"
    and n: "num_active_connections g = int (active xs + active ys) + 1"
  shows "state_machine_handler api ev event g sd = faults ProcessExit
         \<or> (\<exists>g' sd' e'. state_machine_handler api ev event g sd = returns (g', sd', e')
              \<and> aq_inv api orig (g', xs @ (sd', e') # ys))"
proof -
  have "aq_live api rows cols orig (all_on_hand xs + all_on_hand ys) (query_list g = [])
      (int (active xs + active ys) + 1) (g, sd, None)"
    using assms by (simp add: aq_live_def)
  note handler_ends [OF this, of ev event]
  moreover have "aq_inv api orig (g', xs @ (sd', e') # ys)"
    if "aq_stopped api orig (all_on_hand xs + all_on_hand ys) (query_list g = [])
      (int (active xs + active ys) + 1) (g', sd', e')" for g' sd' e'
  proof -
    have "conn_ok api g' c" if "conn_ok api g c" for c
      using that \<open>aq_stopped _ _ _ _ _ _\<close> by (auto simp: conn_ok_def aq_stopped_def aq_books_def)
    with others that show ?thesis
      by (auto simp: aq_inv_def aq_stopped_def aq_books_def conn_ok_def add_ac split: if_splits)
  qed
  ultimately show ?thesis by fastforce
qed

lemma start_connections_ok:
  assumes "rows_have_width api" "result_sets_end api rows cols" "aq_inv api orig (g, conns)"
  shows "start_connections api ev sds (g, conns) = faults ProcessExit
         \<or> (\<exists>P. start_connections api ev sds (g, conns) = returns P
              \<and> aq_inv api orig P \<and> length (snd P) = length conns + length sds)"
  using assms(3)
proof (induction sds arbitrary: g conns)
  case Nil
  then show ?case by simp
next
  case (Cons sd sds)
  let ?m = "mysql_options api (MYSQL_READ_DEFAULT_GROUP ''async_queries'')
              (mysql_options api MYSQL_OPT_NONBLOCK (mysql_init api (sd_mysql sd)))"
  let ?g = "g\<lparr>num_active_connections := num_active_connections g + 1\<rparr>"
  let ?sd = "sd\<lparr>sd_mysql := ?m, ST := 0\<rparr>"
  have "aq_books api orig (all_on_hand conns + all_on_hand []) (query_list ?g = []) ?g ?sd"
    using Cons.prems by (simp add: aq_inv_def books_defs)
  moreover have "\<forall>c \<in> set conns \<union> set []. conn_ok api ?g c" using Cons.prems by (simp add: aq_inv_def conn_ok_def)
  moreover have "num_active_connections ?g = int (active conns + active []) + 1" using Cons.prems by (simp add: aq_inv_def)
  ultimately have "state_machine_handler api ev (- 1) ?g ?sd = faults ProcessExit
      \<or> (\<exists>g' sd' e'. state_machine_handler api ev (- 1) ?g ?sd = returns (g', sd', e')
           \<and> aq_inv api orig (g', conns @ [(sd', e')]))"
    using handler_keeps_inv [OF assms(1,2), of conns "[]"] by blast
  with Cons.IH show ?case by (fastforce simp: Let_def)
qed

lemma dispatch_step_ok:
  assumes "rows_have_width api" "result_sets_end api rows cols" "aq_inv api orig P" "dispatch_step api ev P Q"
  shows "aq_inv api orig Q \<and> length (snd Q) = length (snd P)"
  using assms(4)
proof (cases rule: dispatch_step.cases)
  case (fire event g sd g' sd' e' xs e ys)
  have "aq_books api orig (all_on_hand xs + all_on_hand ys) (query_list g = []) g sd"
    using assms(3) fire by (auto simp: aq_inv_def aq_books_def conn_ok_def add_ac)
  moreover have "\<forall>c \<in> set xs \<union> set ys. conn_ok api g c" "num_active_connections g = int (active xs + active ys) + 1"
    using assms(3) fire by (auto simp: aq_inv_def)
  ultimately show ?thesis
    using handler_keeps_inv [OF assms(1,2), of xs ys g orig sd ev event] fire by auto
qed

section \<open>The program\<close>

lemma entries_numbered: "map fst (map entry (numbered qs)) = map int [0..<length qs]"
  by (rule nth_equalityI) (simp_all add: numbered_def entry_def nth_enumerate_eq)


lemma load_queries_loaded:
  assumes "load_queries file args = returns g"
  shows "\<exists>qs. g = loaded qs"
proof -
  have "\<exists>qs. read_queries f False (loaded []) = loaded qs" for f using read_queries_loaded by blast
  then have "\<exists>qs. g0 = loaded qs" if "(case file of None \<Rightarrow> returns aq_globals_init | Some None \<Rightarrow> faults ProcessExit
      | Some (Some f) \<Rightarrow> returns (read_queries f False aq_globals_init)) = returns g0" for g0
    using that by (auto simp: loaded_Nil split: option.splits)
  with assms obtain qs where "g = fold add_query args (loaded qs)"
    unfolding load_queries_def then_do_returns_iff by blast
  then show ?thesis by (auto simp: add_queries_loaded)
qed

lemma loaded_inv: "aq_inv api (map entry (numbered qs)) (loaded qs, [])"
  by (simp add: aq_inv_def loaded_def aq_globals_init_def starts_def answers_def)

definition main_started ::
  "('m, 'r) mysql_api \<Rightarrow> 'm aq_api \<Rightarrow> string list \<Rightarrow> nat
     \<Rightarrow> aq_globals \<times> (('m, 'r) state_data \<times> aq_event option) list \<Rightarrow> bool" where
  "main_started api ev qs n P \<longleftrightarrow>
     (\<exists>sds. length sds = n \<and> start_connections api ev sds (loaded qs, []) = returns P)"

definition main_inv ::
  "('m, 'r) mysql_api \<Rightarrow> ('r \<Rightarrow> nat) \<Rightarrow> ('r \<Rightarrow> nat) \<Rightarrow> string list \<Rightarrow> nat
     \<Rightarrow> aq_globals \<times> (('m, 'r) state_data \<times> aq_event option) list \<Rightarrow> bool" where
  "main_inv api rows cols qs n P \<longleftrightarrow>
     rows_have_width api \<and> result_sets_end api rows cols
     \<and> aq_inv api (map entry (numbered qs)) P \<and> length (snd P) = n"

interpretation main: invariant_system
  "\<lambda>P. rows_have_width api \<and> result_sets_end api rows cols \<and> main_started api ev qs n P"
  "dispatch_step api ev" "main_inv api rows cols qs n"
  for api :: "('m, 'r) mysql_api" and ev rows cols qs n
proof
  fix P assume "rows_have_width api \<and> result_sets_end api rows cols \<and> main_started api ev qs n P"
  then obtain sds where n: "length sds = n" and P: "start_connections api ev sds (loaded qs, []) = returns P"
    and api: "rows_have_width api" "result_sets_end api rows cols" by (auto simp: main_started_def)
  from start_connections_ok [OF api loaded_inv [of api qs], of ev sds] n P api show "main_inv api rows cols qs n P"
    by (simp add: main_inv_def)
next
  fix P Q assume "main_inv api rows cols qs n P" and "dispatch_step api ev P Q"
  then show "main_inv api rows cols qs n Q" 
    using dispatch_step_ok [of api rows cols "map entry (numbered qs)" P ev Q] by (simp add: main_inv_def)
qed

lemma main_run_inv:
  assumes "rows_have_width api" "result_sets_end api rows cols" "load_queries file args = returns g"
    "main_setup api ev err file args sds = returns P" "(dispatch_step api ev)\<^sup>*\<^sup>* P Q"
  shows "\<exists>qs. g = loaded qs \<and> main_inv api rows cols qs (length sds) Q"
proof -
  from load_queries_loaded [OF assms(3)] obtain qs where g: "g = loaded qs" by blast
  with assms have "main_started api ev qs (length sds) P"
    by (auto simp: main_setup_def main_started_def split: if_splits)
  then have "main_inv api rows cols qs (length sds) Q"
    using main.steps_inv [OF assms(5)] main.init_inv assms(1,2) by blast
  with g show ?thesis by blast
qed

section \<open>Correctness\<close>

text \<open>
  A client to run the program on: the connect call waits for the socket once, a query is answered at
  once, and a result set (the number of rows it still has) has two fields.
\<close>

definition demo_fetch :: "nat \<Rightarrow> unit \<Rightarrow> u32 \<times> MYSQL_ROW \<times> nat \<times> unit" where
  "demo_fetch r m = (case r of 0 \<Rightarrow> (0, None, 0, m) | Suc n \<Rightarrow> (0, Some [Some ''1'', None], n, m))"

definition demo_api :: "(unit, nat) mysql_api" where
  "demo_api =
     \<lparr>mysql_init = (\<lambda>m. m), mysql_options = (\<lambda>opt m. m),
      mysql_real_connect = (\<lambda>h u p d port m. (True, m)),
      mysql_real_connect_start = (\<lambda>ret h u p d port m. (1, ret, m)),
      mysql_real_connect_cont = (\<lambda>ret ev m. (0, True, m)),
      mysql_select_db_start = (\<lambda>db m. (0, 0, m)), mysql_select_db_cont = (\<lambda>ev m. (0, 0, m)),
      mysql_real_query_start = (\<lambda>sql m. (0, 0, m)), mysql_real_query_cont = (\<lambda>ev m. (0, 0, m)),
      mysql_use_result = (\<lambda>m. (Some 1, m)),
      mysql_fetch_row_start = (\<lambda>row. demo_fetch), mysql_fetch_row_cont = (\<lambda>row ev. demo_fetch),
      mysql_fetch_field = (\<lambda>r. (None, r)), mysql_num_fields = (\<lambda>r. 2), mysql_num_rows = (\<lambda>r. 1),
      mysql_free_result = (\<lambda>r m. m), mysql_affected_rows = (\<lambda>m. 0),
      mysql_errno = (\<lambda>m. 0), mysql_error = (\<lambda>m. []),
      mysql_close_start = (\<lambda>m. (0, m)), mysql_close_cont = (\<lambda>ev m. (0, m)),
      mysql_close = (\<lambda>m. m), mysql_ping = (\<lambda>m. (0, m)),
      mysql_get_socket = (\<lambda>m. 7), mysql_get_timeout_value = (\<lambda>m. 5),
      MYSQL_WAIT_READ = 1, MYSQL_WAIT_WRITE = 2, MYSQL_WAIT_EXCEPT = 4, MYSQL_WAIT_TIMEOUT = 8,
      LT_EVENT_READ = 1, LT_EVENT_WRITE = 2, LT_EVENT_ERROR = 4,
      CR_UNKNOWN_ERROR = 2000, CR_SERVER_GONE_ERROR = 2006, CR_OUT_OF_MEMORY = 2008, CR_SERVER_LOST = 2013,
      IsAttached = (\<lambda>tr. False)\<rparr>"

definition demo_ev :: "unit aq_api" where
  "demo_ev = \<lparr>connect_start = (\<lambda>ret m. (1, ret, m)), EV_TIMEOUT = 1, EV_READ = 2, EV_WRITE = 4\<rparr>"

definition demo_sd :: "(unit, nat) state_data" where
  "demo_sd = \<lparr>ST = 0, sd_mysql = (), sd_result = ResNull, sd_ret = False, sd_err = 0, sd_row = None,
     query_element = ResNull, sd_index = 0\<rparr>"

lemma demo_laws: "rows_have_width demo_api" "result_sets_end demo_api id (\<lambda>r. 0)"
  by (auto simp: rows_have_width_def result_sets_end_def demo_api_def demo_fetch_def split: nat.splits)

definition demo_waiting :: "aq_globals \<times> ((unit, nat) state_data \<times> aq_event option) list" where
  "demo_waiting = ((loaded [''select 1''])\<lparr>num_active_connections := 1\<rparr>, [(demo_sd\<lparr>ST := 1\<rparr>, Some (7, 2, None))])"

definition demo_ended :: "aq_globals \<times> ((unit, nat) state_data \<times> aq_event option) list" where
  "demo_ended =
     ((loaded [''select 1''])\<lparr>query_list := [], loop_broken := True,
        printed := [Started 0 ''select 1'', RowLine 0 [''1'', ''(null)''], EofLine 0]\<rparr>,
      [(demo_sd\<lparr>ST := 50, sd_ret := True, sd_result := ResFreed\<rparr>, None)])"

lemmas demo_defs = demo_api_def demo_ev_def demo_sd_def demo_fetch_def aq_globals_init_def

lemmas demo_run = state_machine_handler_def state_machine_body_def await_or_go_def next_event_def wait_events_def
  mysql_status_def print_def print_cell_def Let_def

lemma demo_load: "load_queries None [''select 1''] = returns (loaded [''select 1''])"
  by (simp add: load_queries_def loaded_Nil add_query_loaded c_str_def)

lemma demo_setup: "main_setup demo_api demo_ev 0 None [''select 1''] [demo_sd] = returns demo_waiting"
  by (simp add: main_setup_def demo_load demo_run demo_defs demo_waiting_def loaded_def)

lemma demo_handler:
  "state_machine_handler demo_api demo_ev 2 (fst demo_waiting) (demo_sd\<lparr>ST := 1\<rparr>)
     = returns (fst demo_ended, fst (hd (snd demo_ended)), None)"
  by (simp add: demo_run demo_defs demo_waiting_def demo_ended_def loaded_def numbered_def)

lemma demo_step: "(dispatch_step demo_api demo_ev)\<^sup>*\<^sup>* demo_waiting demo_ended"
proof -
  have "dispatch_step demo_api demo_ev (fst demo_waiting, [] @ (demo_sd\<lparr>ST := 1\<rparr>, Some (7, 2, None)) # [])
      (fst demo_ended, [] @ (fst (hd (snd demo_ended)), None) # [])"
    by (rule dispatch_step.fire [OF demo_handler])
  then show ?thesis by (simp add: demo_waiting_def demo_ended_def)
qed

text \<open>C33: When the last connection has counted itself out, every query the program was given has been
  started, in the order given, and each has been answered, with its rows' end or an error, exactly once.\<close>

theorem every_query_is_answered_once:
  assumes "rows_have_width api" and "result_sets_end api rows cols"
    and "load_queries file args = returns g" and "main_setup api ev err file args sds = returns P"
    and "(dispatch_step api ev)\<^sup>*\<^sup>* P Q" and "sds \<noteq> []" and "num_active_connections (fst Q) = 0"
  shows "starts (fst Q) = map entry (query_list g)
         \<and> mset (answers (fst Q)) = mset (map int [0..<length (query_list g)])"
proof -
  from main_run_inv [OF assms(1-5)] obtain qs where g: "g = loaded qs"
    and inv: "aq_inv api (map entry (numbered qs)) Q" and len: "length (snd Q) = length sds"
    by (auto simp: main_inv_def)
  from inv assms(7) have "active (snd Q) = 0" by (simp add: aq_inv_def)
  then have ended: "\<forall>c \<in> set (snd Q). snd c = None" 
    unfolding active_def length_0_conv filter_empty_conv by blast
  have "all_on_hand cs = {#}" if "\<forall>c \<in> set cs. on_hand (fst c) = {#}"
    for cs :: "(('a, 'b) state_data \<times> aq_event option) list"
    using that by (induction cs) auto
  moreover from inv ended have "\<forall>c \<in> set (snd Q). on_hand (fst c) = {#}"
    by (simp add: aq_inv_def conn_ok_def on_hand_def)
  ultimately have hand: "all_on_hand (snd Q) = {#}" by blast
  obtain c where "c \<in> set (snd Q)" using len assms(6) by (cases "snd Q") auto
  with inv ended have "query_list (fst Q) = []" by (simp add: aq_inv_def conn_ok_def)
  with inv hand have "starts (fst Q) = map entry (numbered qs)"
    and "mset (answers (fst Q)) = mset (map fst (starts (fst Q)))"
    by (simp_all add: aq_inv_def multiset.map_comp)
  moreover have "query_list g = numbered qs" "length (numbered qs) = length qs"
    using g by (simp_all add: loaded_def numbered_def)
  ultimately show ?thesis using entries_numbered [of qs] by metis
qed

theorem every_query_is_answered_once_witness:
  "starts (fst demo_ended) = map entry (query_list (loaded [''select 1'']))
   \<and> mset (answers (fst demo_ended)) = mset (map int [0..<1])"
  using every_query_is_answered_once [OF demo_laws demo_load demo_setup demo_step]
  by (simp add: demo_ended_def loaded_def numbered_def aq_globals_init_def)

text \<open>C34: Whatever event wakes a waiting connection, the handler ends: it returns, or the program exits
  with an error message. It never calls \<open>abort\<close>, and uses no freed query or result set.\<close>

theorem async_handler_ends:
  assumes "rows_have_width api" and "result_sets_end api rows cols"
    and "load_queries file args = returns g" and "main_setup api ev err file args sds = returns P"
    and "(dispatch_step api ev)\<^sup>*\<^sup>* P (g', xs @ (sd, Some e) # ys)"
  shows "state_machine_handler api ev event g' sd = faults ProcessExit
         \<or> (\<exists>run. state_machine_handler api ev event g' sd = returns run)"
proof -
  from main_run_inv [OF assms] obtain qs where
    inv: "aq_inv api (map entry (numbered qs)) (g', xs @ (sd, Some e) # ys)" by (auto simp: main_inv_def)
  have "aq_books api (map entry (numbered qs)) (all_on_hand xs + all_on_hand ys) (query_list g' = []) g' sd"
    using inv by (auto simp: aq_inv_def aq_books_def conn_ok_def add_ac)
  then show ?thesis
    using handler_ends [of api rows cols _ _ _ "num_active_connections g'" g' sd ev event] assms(1,2)
    unfolding aq_live_def by fastforce
qed

theorem async_handler_ends_witness:
  "state_machine_handler demo_api demo_ev 2 (fst demo_waiting) (demo_sd\<lparr>ST := 1\<rparr>) = faults ProcessExit
   \<or> (\<exists>run. state_machine_handler demo_api demo_ev 2 (fst demo_waiting) (demo_sd\<lparr>ST := 1\<rparr>) = returns run)"
  by (rule async_handler_ends [OF demo_laws demo_load demo_setup, where xs = "[]" and ys = "[]" and e = "(7, 2, None)"])
    (simp add: demo_waiting_def)



end
