(* ===== verification/Sample_Manager.thy ===== *)
theory Sample_Manager
  imports Prelude
begin

text \<open>
  \<open>RawSampleManager\<close> of \<open>src/examples/main.cc\<close>: a table of 16-bit request counters, indexed by a hash of
  a key, that picks one request in every \<open>sample_interval\<close> for sampling. Integers have the widths of
  the code: the hash is an \<open>int64_t\<close> summed in a \<open>uint64_t\<close>, characters are signed, the index is the
  truncated remainder, and the counters wrap.
\<close>

section \<open>The manager\<close>

definition Vector_Size :: int where
  "Vector_Size = 4 * 1024 * 1024"

text \<open>The C++ remainder, which takes the sign of the dividend.\<close>

definition c_rem :: "int \<Rightarrow> int \<Rightarrow> int" where
  "c_rem a b = sgn a * (\<bar>a\<bar> mod \<bar>b\<bar>)"

record RawSampleManager =
  request_count_' :: "int \<Rightarrow> u16"

definition RawSampleManager_new :: RawSampleManager where
  "RawSampleManager_new = \<lparr>request_count_' = (\<lambda>i. 0)\<rparr>"

definition GetHashKey :: "string \<Rightarrow> int" where
  "GetHashKey uid =
     sint (fold (\<lambda>c result. result + (scast (of_char c :: u8) :: u64)) uid 0)"

definition AddSampleRequest ::
  "string \<Rightarrow> int \<Rightarrow> RawSampleManager \<Rightarrow> (RawSampleManager \<times> bool) outcome" where
  "AddSampleRequest key sample_interval s =
     (let uidInt = GetHashKey key;
          index = c_rem uidInt Vector_Size
      in if index < 0 \<or> Vector_Size \<le> index then faults OutOfBounds
         else let x = uint (request_count_' s index);
                  s1 = s\<lparr>request_count_' := (request_count_' s)(index := request_count_' s index + 1)\<rparr>
              in if sample_interval = 0 then faults DivByZero
                 else returns (s1, c_rem x sample_interval = 0))"

text \<open>\<open>k\<close> requests for one key after the other, with what each was told.\<close>

fun sample_many ::
  "string \<Rightarrow> int \<Rightarrow> nat \<Rightarrow> RawSampleManager \<Rightarrow> (RawSampleManager \<times> bool list) outcome" where
  "sample_many key n 0 s = returns (s, [])"
| "sample_many key n (Suc k) s =
     then_do (AddSampleRequest key n s)
       (\<lambda>(s1, b). then_do (sample_many key n k s1) (\<lambda>(s2, bs). returns (s2, b # bs)))"

section \<open>The hash of a key\<close>

definition ascii :: "string \<Rightarrow> bool" where
  "ascii key \<longleftrightarrow> (\<forall>c \<in> set key. (of_char c :: nat) < 128)"

definition byte_sum :: "string \<Rightarrow> nat" where
  "byte_sum key = sum_list (map of_char key)"

lemma scast_ascii:
  assumes "(of_char c :: nat) < 128"
  shows "(scast (of_char c :: u8) :: u64) = of_nat (of_char c)"
proof -
  have "sint (of_nat (of_char c) :: u8) = signed_take_bit 7 (int (of_char c))"
    by transfer simp
  also have "\<dots> = int (of_char c)" using assms by (simp add: signed_take_bit_int_eq_self_iff)
  finally have "sint (of_char c :: u8) = int (of_char c)" by (simp only: of_nat_of_char)
  then show ?thesis by (simp add: scast_eq)
qed

lemma hash_ascii:
  "ascii key \<Longrightarrow> fold (\<lambda>c result. result + (scast (of_char c :: u8) :: u64)) key r = r + of_nat (byte_sum key)"
  by (induction key arbitrary: r) (simp_all add: ascii_def byte_sum_def scast_ascii ac_simps)

lemma byte_sum_below: "ascii key \<Longrightarrow> byte_sum key \<le> 127 * length key"
proof (induction key)
  case (Cons c key)
  then show ?case by (simp add: ascii_def byte_sum_def)
qed (simp add: byte_sum_def)

lemma GetHashKey_ascii:
  assumes "ascii key" and "length key < 2 ^ 56"
  shows "GetHashKey key = int (byte_sum key)"
proof -
  have "byte_sum key < 2 ^ 63" using byte_sum_below [OF assms(1)] assms(2) by simp
  then have "signed_take_bit 63 (int (byte_sum key)) = int (byte_sum key)"
    by (simp add: signed_take_bit_int_eq_self_iff)
  moreover have "sint (of_nat (byte_sum key) :: u64) = signed_take_bit 63 (int (byte_sum key))"
    by transfer simp
  ultimately show ?thesis by (simp add: GetHashKey_def hash_ascii [OF assms(1)])
qed

section \<open>Sampling\<close>

text \<open>The counter a key has.\<close>

definition slot :: "string \<Rightarrow> int" where
  "slot key = c_rem (GetHashKey key) Vector_Size"

lemma slot_bounds:
  "0 \<le> GetHashKey key \<Longrightarrow> 0 \<le> slot key \<and> slot key < Vector_Size"
  by (simp add: slot_def c_rem_def Vector_Size_def sgn_if)

lemma c_rem_pos: "0 \<le> x \<Longrightarrow> 0 < n \<Longrightarrow> c_rem x n = x mod n"
  by (simp add: c_rem_def sgn_if)

lemma AddSampleRequest_effect:
  assumes "0 \<le> GetHashKey key" and "0 < n"
  shows "AddSampleRequest key n s =
     returns (s\<lparr>request_count_' := (request_count_' s)(slot key := request_count_' s (slot key) + 1)\<rparr>,
              uint (request_count_' s (slot key)) mod n = 0)"
proof -
  let ?x = "uint (request_count_' s (slot key))"
  have "c_rem ?x n = ?x mod n" by (rule c_rem_pos) (use assms(2) in simp_all)
  moreover have "\<not> (slot key < 0 \<or> Vector_Size \<le> slot key)" using slot_bounds [OF assms(1)] by simp
  ultimately show ?thesis using assms(2)
    by (simp only: AddSampleRequest_def Let_def slot_def [symmetric] if_False) simp
qed

lemma uint_count: "uint (c + 1 :: u16) = (uint c + 1) mod 65536"
  by (simp add: uint_word_ariths(1))

lemma sample_many_effect:
  assumes "0 \<le> GetHashKey key" and "0 < n"
  shows "\<exists>s'. sample_many key n k s =
     returns (s', map (\<lambda>i. (uint (request_count_' s (slot key)) + int i) mod 65536 mod n = 0) [0 ..< k])"
proof (induction k arbitrary: s)
  case (Suc k)
  let ?c = "request_count_' s (slot key)"
  let ?s1 = "s\<lparr>request_count_' := (request_count_' s)(slot key := ?c + 1)\<rparr>"
  from Suc [of ?s1] obtain s' where IH: "sample_many key n k ?s1 =
      returns (s', map (\<lambda>i. (uint (?c + 1) + int i) mod 65536 mod n = 0) [0 ..< k])" by auto
  have "(uint (?c + 1) + int i) mod 65536 = (uint ?c + int (Suc i)) mod 65536" for i
    unfolding uint_count by (simp add: mod_add_right_eq ac_simps)
  then have "map (\<lambda>i. (uint (?c + 1) + int i) mod 65536 mod n = 0) [0 ..< k] =
      map (\<lambda>i. (uint ?c + int i) mod 65536 mod n = 0) [Suc 0 ..< Suc k]"
    by (simp add: map_Suc_upt [symmetric] del: upt_Suc)
  moreover have "uint ?c mod 65536 = uint ?c" using uint_lt2p [of ?c] by simp
  ultimately show ?case
    using IH AddSampleRequest_effect [OF assms, of s] by (simp add: upt_conv_Cons del: upt_Suc)
qed simp

section \<open>Properties\<close>

text \<open>For a key whose hash is not negative, request number \<open>i\<close> is sampled exactly when the counter, which
  counts modulo two to the 16, is a multiple of the interval then; so as long as the counter does not
  wrap, or when the interval divides two to the 16, a fresh manager samples exactly every
  \<open>n\<close>-th request, the first one included.\<close>

theorem every_nth_request_is_sampled:
  assumes "0 \<le> GetHashKey key" and "0 < n"
  shows "\<exists>s' bs. sample_many key n k RawSampleManager_new = returns (s', bs)
           \<and> bs = map (\<lambda>i. int i mod 65536 mod n = 0) [0 ..< k]
           \<and> (k \<le> 65536 \<or> n dvd 65536 \<longrightarrow> bs = map (\<lambda>i. n dvd int i) [0 ..< k])"
proof -
  have "(int i mod 65536 mod n = 0) = (n dvd int i)" if "k \<le> 65536 \<or> n dvd 65536" "i < k" for i
    using that by (auto simp: mod_mod_cancel dvd_eq_mod_eq_0)
  then have "map (\<lambda>i. int i mod 65536 mod n = 0) [0 ..< k] = map (\<lambda>i. n dvd int i) [0 ..< k]"
    if "k \<le> 65536 \<or> n dvd 65536" using that by simp
  moreover have "request_count_' RawSampleManager_new i = 0" for i by (simp add: RawSampleManager_new_def)
  ultimately show ?thesis using sample_many_effect [OF assms, of k RawSampleManager_new] by auto
qed

theorem every_nth_request_is_sampled_witness:
  "\<exists>s'. sample_many ''abc'' 2 5 RawSampleManager_new = returns (s', [True, False, True, False, True])"
proof -
  have "0 \<le> GetHashKey ''abc''" using GetHashKey_ascii [of "''abc''"] by (simp add: ascii_def)
  from every_nth_request_is_sampled [OF this, of 2 5] show ?thesis
    by (auto simp: upt_rec)
qed

text \<open>C36: A key of ASCII characters always has a counter: its hash is the sum of its bytes and its request
  returns.\<close>

theorem ascii_keys_are_in_bounds:
  assumes "ascii key" and "length key < 2 ^ 56" and "n \<noteq> 0"
  shows "GetHashKey key = int (byte_sum key) \<and> (\<exists>s' b. AddSampleRequest key n s = returns (s', b))"
proof -
  have h: "GetHashKey key = int (byte_sum key)" by (rule GetHashKey_ascii [OF assms(1,2)])
  then have "0 \<le> slot key \<and> slot key < Vector_Size" by (intro slot_bounds) simp
  with h assms(3) show ?thesis by (auto simp: AddSampleRequest_def Let_def slot_def)
qed

theorem ascii_keys_are_in_bounds_witness: "GetHashKey ''abc'' = 294"
  using ascii_keys_are_in_bounds [of "''abc''" 1] by (simp add: ascii_def byte_sum_def)

text \<open>A key with a byte above 127 can have a negative hash: characters are signed, the remainder keeps the
  sign, and the counter is looked up before the start of the table.\<close>

theorem high_bytes_index_before_table:
  "AddSampleRequest [CHR 0xFF] n s = faults OutOfBounds"
proof -
  have "(scast (of_char (CHR 0xFF) :: u8) :: u64) = - 1" by simp
  then have "GetHashKey [CHR 0xFF] = - 1" by (simp add: GetHashKey_def)
  then show ?thesis by (simp add: AddSampleRequest_def c_rem_def Vector_Size_def Let_def)
qed

end
