(* ===== verification/Sample_Threads.thy ===== *)
theory Sample_Threads
  imports Sample_Manager
begin

text \<open>
  \<open>main\<close> of \<open>src/examples/main.cc\<close>: five message loops run the same function, which makes requests on one
  shared \<open>RawSampleManager\<close>. The counters are advanced by \<open>__sync_fetch_and_add\<close>, so a request is one step
  and the requests of the loops interleave in any way.
\<close>

section \<open>The program\<close>

text \<open>The requests of one round of \<open>func\<close>, and of the function with \<open>rounds\<close> of them.\<close>

definition func_keys :: "string list" where
  "func_keys =
     [''abc'', ''abc2'', ''abc3'', ''abc4'', ''abc5'', ''abc5'', ''abc5'', ''abc5'', ''abc5'',
      ''abc'', ''abc2'', ''abc3'', ''abc4'', ''abc5'', ''abc5'', ''abc5'', ''abc5'', ''abc5'']"

definition func_requests :: "nat \<Rightarrow> string list" where
  "func_requests rounds = concat (replicate rounds func_keys)"

text \<open>
  \<open>smg\<close>: the manager. \<open>to_ask\<close>: the requests each loop has still to make. \<open>told\<close>: the requests made so far, in
  their order, with what they returned.
\<close>

record sample_sys =
  smg :: RawSampleManager
  to_ask :: "string list list"
  told :: "(string \<times> bool) list"

definition sample_sys_init :: "string list list \<Rightarrow> sample_sys" where
  "sample_sys_init loops = \<lparr>smg = RawSampleManager_new, to_ask = loops, told = []\<rparr>"

text \<open>\<open>main\<close>; the code has 10000000 rounds and an interval of 1000.\<close>

definition sample_main :: "nat \<Rightarrow> sample_sys" where
  "sample_main rounds = sample_sys_init (replicate 5 (func_requests rounds))"

inductive sample_step :: "int \<Rightarrow> sample_sys \<Rightarrow> sample_sys \<Rightarrow> bool" for sample_interval :: int where
  request: "to_ask S = xs @ (key # keys) # ys \<Longrightarrow>
     AddSampleRequest key sample_interval (smg S) = returns (m, need_sample) \<Longrightarrow>
     sample_step sample_interval S
       (S\<lparr>smg := m, to_ask := xs @ keys # ys, told := told S @ [(key, need_sample)]\<rparr>)"

inductive_cases sample_stepE: "sample_step sample_interval S S'"

section \<open>The invariant\<close>

text \<open>What the requests that share the counter \<open>j\<close> were told.\<close>

definition told_at :: "int \<Rightarrow> sample_sys \<Rightarrow> bool list" where
  "told_at j S = map snd (filter (\<lambda>r. slot (fst r) = j) (told S))"

definition sample_inv :: "int \<Rightarrow> string list list \<Rightarrow> sample_sys \<Rightarrow> bool" where
  "sample_inv n loops S \<longleftrightarrow>
     (\<forall>key \<in> set (concat loops). 0 \<le> GetHashKey key) \<and> 0 < n
     \<and> mset (map fst (told S)) + mset (concat (to_ask S)) = mset (concat loops)
     \<and> (\<forall>j. uint (request_count_' (smg S) j) = int (length (told_at j S)) mod 65536
          \<and> told_at j S = map (\<lambda>i. int i mod 65536 mod n = 0) [0 ..< length (told_at j S)])"

lemma sample_init_inv:
  "(\<forall>key \<in> set (concat loops). 0 \<le> GetHashKey key) \<Longrightarrow> 0 < n \<Longrightarrow> sample_inv n loops (sample_sys_init loops)"
  by (simp add: sample_inv_def sample_sys_init_def told_at_def RawSampleManager_new_def)

lemma sample_step_inv:
  assumes inv: "sample_inv n loops S" and step: "sample_step n S S'"
  shows "sample_inv n loops S'"
  using step
proof cases
  case (request xs key keys ys m need_sample)
  have "mset (concat (to_ask S)) \<subseteq># mset (concat loops)"
    using inv unfolding sample_inv_def by (metis mset_subset_eq_add_right)
  then have "key \<in> set (concat loops)" using request(2) by (auto dest!: mset_subset_eqD simp flip: set_mset_mset)
  then have key: "0 \<le> GetHashKey key" and n: "0 < n" using inv by (auto simp: sample_inv_def)
  have m: "m = (smg S)\<lparr>request_count_' := (request_count_' (smg S))(slot key := request_count_' (smg S) (slot key) + 1)\<rparr>"
    and b: "need_sample = (uint (request_count_' (smg S) (slot key)) mod n = 0)"
    using request(3) AddSampleRequest_effect [OF key n, of "smg S"] by simp_all
  have at: "told_at j S' = told_at j S @ (if slot key = j then [need_sample] else [])" for j
    using request(1) by (simp add: told_at_def)
  have "uint (request_count_' (smg S') j) = int (length (told_at j S')) mod 65536
      \<and> told_at j S' = map (\<lambda>i. int i mod 65536 mod n = 0) [0 ..< length (told_at j S')]" for j
  proof -
    from inv have c: "uint (request_count_' (smg S) j) = int (length (told_at j S)) mod 65536"
      and t: "told_at j S = map (\<lambda>i. int i mod 65536 mod n = 0) [0 ..< length (told_at j S)]"
      by (auto simp: sample_inv_def)
    show ?thesis
    proof (cases "slot key = j")
      case True
      have "uint (request_count_' (smg S') j) = (int (length (told_at j S)) + 1) mod 65536"
        using request(1) m True c by (simp add: uint_count mod_add_left_eq)
      moreover have "need_sample = (int (length (told_at j S)) mod 65536 mod n = 0)" using b c True by simp
      ultimately show ?thesis using at [of j] True t by (simp add: ac_simps)
    next
      case False
      then show ?thesis using request(1) m at [of j] c t by simp
    qed
  qed
  with inv request(1,2) show ?thesis by (auto simp: sample_inv_def ac_simps)
qed

interpretation sampling: invariant_system
  "\<lambda>S. S = sample_sys_init loops \<and> (\<forall>key \<in> set (concat loops). 0 \<le> GetHashKey key) \<and> 0 < n"
  "sample_step n" "sample_inv n loops" for n loops
  by unfold_locales (use sample_init_inv in blast, blast intro: sample_step_inv)

section \<open>The keys of the program\<close>

lemma hash_keys:
  "GetHashKey ''abc'' = 294" "GetHashKey ''abc2'' = 344" "GetHashKey ''abc3'' = 345" "GetHashKey ''abc4'' = 346"
  "GetHashKey ''abc5'' = 347"
  by (subst GetHashKey_ascii; simp add: ascii_def byte_sum_def)+

lemma slot_keys:
  "slot ''abc'' = 294" "slot ''abc2'' = 344" "slot ''abc3'' = 345" "slot ''abc4'' = 346" "slot ''abc5'' = 347"
  by (simp_all add: slot_def hash_keys c_rem_pos Vector_Size_def)

lemma key_hash: "key \<in> set func_keys \<Longrightarrow> 0 \<le> GetHashKey key"
  by (auto simp: func_keys_def hash_keys)

lemma slot_inj: "inj_on slot (set func_keys)"
  by (auto simp: inj_on_def func_keys_def slot_keys)

lemma count_concat_replicate: "count_list (concat (replicate k xs)) x = k * count_list xs x"
  by (induction k) simp_all

lemma length_filter_fst: "length (filter (\<lambda>r. fst r = x) rs) = count_list (map fst rs) x"
  by (induction rs) simp_all

lemma concat_main: "concat (replicate 5 (func_requests rounds)) = concat (replicate (5 * rounds) func_keys)"
proof -
  have "concat (replicate k (concat (replicate m xs))) = concat (replicate (k * m) xs)" for k m and xs :: "string list"
    by (induction k) (simp_all add: replicate_add)
  then show ?thesis by (simp only: func_requests_def)
qed

section \<open>Properties\<close>

text \<open>C39: However the requests of the five loops interleave, the program does not get stuck before every request
  is made, and then what the requests for a key were told, in their order, is fixed: sampled are
  exactly those where the 16-bit counter of the key is a multiple of the interval.\<close>

theorem samples_do_not_depend_on_schedule:
  assumes "reachable (\<lambda>S. S = sample_main rounds) (sample_step 1000) S"
  shows "if concat (to_ask S) \<noteq> [] then \<exists>S'. sample_step 1000 S S'
         else \<forall>key \<in> set func_keys. map snd (filter (\<lambda>r. fst r = key) (told S))
                = map (\<lambda>i. int i mod 65536 mod 1000 = 0) [0 ..< 5 * rounds * count_list func_keys key]"
proof -
  let ?loops = "replicate 5 (func_requests rounds)"
  have keys: "set (concat ?loops) \<subseteq> set func_keys" unfolding concat_main by (auto split: if_splits)
  then have "(\<lambda>S. S = sample_main rounds) = (\<lambda>S. S = sample_sys_init ?loops
      \<and> (\<forall>key \<in> set (concat ?loops). 0 \<le> GetHashKey key) \<and> (0 :: int) < 1000)"
    using key_hash unfolding sample_main_def by auto
  with assms have inv: "sample_inv 1000 ?loops S" using sampling.reachable_inv by metis
  show ?thesis
  proof (cases "concat (to_ask S) = []")
    case False
    then obtain ks where "ks \<in> set (to_ask S)" "ks \<noteq> []" by auto
    then obtain xs key keys ys where ask: "to_ask S = xs @ (key # keys) # ys" by (metis neq_Nil_conv split_list)
    then have "key \<in># mset (concat ?loops)" using inv unfolding sample_inv_def
      by (metis concat.simps(2) concat_append in_set_conv_decomp mset_append set_mset_mset union_iff append_Cons)
    with keys key_hash have "0 \<le> GetHashKey key" by auto
    from AddSampleRequest_effect [OF this, of 1000 "smg S"] sample_step.request [OF ask] False show ?thesis by auto
  next
    case True
    then have "mset (concat (to_ask S)) = {#}" by simp
    then have all: "mset (map fst (told S)) = mset (concat ?loops)" using inv unfolding sample_inv_def by (metis add.right_neutral)
    have "map snd (filter (\<lambda>r. fst r = key) (told S))
        = map (\<lambda>i. int i mod 65536 mod 1000 = 0) [0 ..< 5 * rounds * count_list func_keys key]"
      if key: "key \<in> set func_keys" for key
    proof -
      have "fst r \<in> set func_keys" if "r \<in> set (told S)" for r
        using mset_eq_setD [OF all] keys that by (metis (no_types) image_eqI set_map subsetD)
      then have same: "filter (\<lambda>r. fst r = key) (told S) = filter (\<lambda>r. slot (fst r) = slot key) (told S)"
        using slot_inj key by (auto simp: inj_on_def intro!: filter_cong)
      have "length (filter (\<lambda>r. fst r = key) (told S)) = count (mset (map fst (told S))) key"
        unfolding count_mset by (rule length_filter_fst)
      also have "\<dots> = 5 * rounds * count_list func_keys key"
        unfolding all concat_main by (simp add: count_mset count_concat_replicate)
      finally show ?thesis using inv same unfolding sample_inv_def told_at_def by (metis length_map)
    qed
    with True show ?thesis by simp
  qed
qed

theorem samples_do_not_depend_on_schedule_witness:
  "\<exists>S'. sample_step 1000 (sample_main 1) S'"
proof -
  have "reachable (\<lambda>S. S = sample_main 1) (sample_step 1000) (sample_main 1)" by (rule reachable.start) simp
  from samples_do_not_depend_on_schedule [OF this] show ?thesis
    by (simp add: sample_main_def sample_sys_init_def func_requests_def func_keys_def)
qed

end
