(* ===== verification/Grpc_Server.thy ===== *)
theory Grpc_Server
  imports Prelude
begin

text \<open>
  The server of the example application, \<open>src/examples/lt_app/grpc_server_impl.h\<close> and
  \<open>grpc_server_impl.cc\<close>. gRPC is a parameter: the calls the code makes on it are recorded in \<open>rpc_calls\<close>, in
  the order it makes them. Completion queues and call contexts are numbered in the order they are made.
\<close>

section \<open>The server\<close>

datatype rpc_call =
    AddListeningPort string
  | RegisterService
  | AddCompletionQueue nat
  | RequestSayHello nat nat
  | BuildAndStart

record RpcServerImpl =
  server_' :: bool
  srv_cqs_' :: "nat list"
  queue_loops_' :: "nat list"
  contexts_made :: nat
  rpc_calls :: "rpc_call list"

definition RpcServerImpl_new :: RpcServerImpl where
  "RpcServerImpl_new =
     \<lparr>server_' = False, srv_cqs_' = [], queue_loops_' = [], contexts_made = 0, rpc_calls = []\<rparr>"

definition WithCompleteQueueLoop :: "nat list \<Rightarrow> RpcServerImpl \<Rightarrow> RpcServerImpl" where
  "WithCompleteQueueLoop loops s = s\<lparr>queue_loops_' := loops\<rparr>"

definition rpc_call :: "rpc_call \<Rightarrow> RpcServerImpl \<Rightarrow> RpcServerImpl" where
  "rpc_call e s = s\<lparr>rpc_calls := rpc_calls s @ [e]\<rparr>"

text \<open>\<open>srv_cqs_.emplace_back(builder.AddCompletionQueue())\<close>\<close>

definition add_queue :: "RpcServerImpl \<Rightarrow> RpcServerImpl" where
  "add_queue s =
     (let q = length (srv_cqs_' s) in (rpc_call (AddCompletionQueue q) s)\<lparr>srv_cqs_' := srv_cqs_' s @ [q]\<rparr>)"

text \<open>A new \<open>RpcSayHelloCallContext\<close>, and the one call of its \<open>BindRequest2Queue\<close>.\<close>

definition BindRequest2Queue :: "nat \<Rightarrow> RpcServerImpl \<Rightarrow> RpcServerImpl" where
  "BindRequest2Queue q s =
     (rpc_call (RequestSayHello q (contexts_made s)) s)\<lparr>contexts_made := contexts_made s + 1\<rparr>"

definition Serve :: "string \<Rightarrow> RpcServerImpl \<Rightarrow> RpcServerImpl" where
  "Serve addr s =
     (let s1 = rpc_call RegisterService (rpc_call (AddListeningPort addr) s);
          pull_count = min 1 (length (queue_loops_' s1));
          s2 = (add_queue ^^ pull_count) s1;
          s3 = fold (\<lambda>q. BindRequest2Queue q ^^ 1000) (srv_cqs_' s2) s2
      in (rpc_call BuildAndStart s3)\<lparr>server_' := True\<rparr>)"

section \<open>The contexts of a queue\<close>

lemma bind_many:
  "(BindRequest2Queue q ^^ n) s =
     s\<lparr>rpc_calls := rpc_calls s @ map (RequestSayHello q) [contexts_made s ..< contexts_made s + n],
       contexts_made := contexts_made s + n\<rparr>"
  by (induction n) (simp_all add: BindRequest2Queue_def rpc_call_def)

section \<open>Properties\<close>

text \<open>Serving on a fresh server posts the contexts of one completion queue, a thousand of them, each once,
  whatever the number of message loops it was given, and none when it was given no loop: that server
  never takes a call. All contexts are posted before the server is built and started.\<close>

theorem serve_posts_contexts_before_start:
  "rpc_calls (Serve addr (WithCompleteQueueLoop loops RpcServerImpl_new)) =
     [AddListeningPort addr, RegisterService]
     @ (if loops = [] then [] else AddCompletionQueue 0 # map (RequestSayHello 0) [0 ..< 1000])
     @ [BuildAndStart]"
proof -
  have "min 1 (length loops) = (if loops = [] then 0 else 1)" by (cases loops) simp_all
  then show ?thesis
    by (simp add: Serve_def WithCompleteQueueLoop_def RpcServerImpl_new_def rpc_call_def add_queue_def bind_many Let_def
        del: upt_Suc)
qed

end
