(* ===== verification/Spec2Isabelle.thy ===== *)
theory Spec2Isabelle
  imports Mysql_Shell Etcd_Lifetimes Etcd_Session App_Config Async_Queries Sample_Threads Grpc_Server
begin

text \<open>
  A verification library for \<open>ltapp\<close>, a C++ application framework: an asynchronous MySQL client
  (\<open>src/integration/async_mysql\<close>), a coroutine client for etcd v3 (\<open>src/content/etcdv3\<close>), the
  application shell that boots and stops a program (\<open>src/content/shell\<close>) and its configuration
  (\<open>src/content/config\<close>, \<open>src/content/config_loader.cc\<close>), with the examples under \<open>src/examples\<close>
  that have logic of their own.

  \<^bold>\<open>Conventions.\<close> A class is a record whose fields keep their names, with \<open>_\<close> at the end written
  \<open>_'\<close>; a member function is a definition from the object before to the object after. An operation
  that can fail has an \<open>outcome\<close> (theory \<open>Prelude\<close>): it does not return, ends in a fault (a
  \<open>CHECK\<close>, \<open>LOG(FATAL)\<close>, \<open>exit\<close>, a null or deleted object, an index out of bounds, a remainder by zero) or
  returns. A loop that need not end is \<open>loop_while\<close>; the locales \<open>staged_loop\<close> and \<open>ending_loop\<close>, and
  \<open>guarded_loop\<close> and \<open>measured_loop\<close> that come from them for a single invariant, give
  its partial and total correctness, and every such loop of the code is an interpretation of them,
  so there is no fuel. Concurrency is a step relation; the locale \<open>invariant_system\<close> carries its
  invariants. Code outside the repository, the MariaDB client, gRPC and the etcd server, the event
  pump, the coroutine and the XML library, is a parameter; what a property relies on
  of it is a named hypothesis (\<open>rows_have_width\<close>, \<open>result_sets_end\<close>, \<open>serves_range\<close>, \<open>keeps_pairs\<close>, \<open>appends_number\<close>), met by a
  concrete instance in the witness of the property.

  \<^bold>\<open>MySQL.\<close> A user makes a \<open>QuerySession\<close> and pends it on the pool \<open>MysqlAsyncClientImpl\<close>, which posts it to
  the loop of one of its connections; \<open>MysqlAsyncConnect\<close> serves its queue with a state machine
  that the socket and timers drive, and calls the session back.
  \<^item> \<open>Query_Session\<close>: the session and its operations (\<open>query_session.h\<close>, \<open>.cc\<close>); its callback is a one-shot.
  \<^item> \<open>Mysql_Connection\<close>: every operation of \<open>mysql_async_con.h\<close> and \<open>.cc\<close>, \<open>HandleState\<close> with the handlers it
    dispatches to first.
  \<^item> \<open>Mysql_Invariant\<close>, \<open>Mysql_Progress\<close>: the invariant of a round of the machine, the measure it decreases,
    and where it comes to rest.
  \<^item> \<open>Mysql_System\<close>, \<open>Mysql_Results\<close>, \<open>Mysql_Theorems\<close>: the connection over its life, the result sets
    it reads, and its properties: no operation faults, every operation returns, queries are served
    in order and called back once, results and errors arrive as the library gave them.
  \<^item> \<open>Mysql_Client\<close>, \<open>Mysql_Pool\<close>, \<open>Mysql_Pool_Theorems\<close>: the pool of \<open>mysql_client_impl.h\<close> and \<open>.cc\<close>, with
    the tasks it posts, who keeps a connection alive and the connections' pointer back to the pool; no
    deleted object is used when the pool is closed, its loop has run and only then it is deleted
    (\<open>careful_step\<close>), every query is accounted for, and closing finishes all. Deleted right after \<open>Close\<close>, as
    the example program does, the pool can be called by a connection that is not shut down yet.

  \<^bold>\<open>etcd.\<close>
  \<^item> \<open>Call_Context\<close>: \<open>context/call_context.h\<close> and \<open>.cc\<close>, whole and as the interleaved steps of two threads:
    no wake-up is lost.
  \<^item> \<open>Etcd_Client\<close>: \<open>etcd_client.h\<close> and \<open>.cc\<close>; prefixes as key ranges, and what each call returns.
  \<^item> \<open>Keepalive\<close>: \<open>context/keepalive_ctx.h\<close> and \<open>.cc\<close>, the heartbeat of a lease as a transition system.
  \<^item> \<open>Watch_Context\<close>: \<open>context/watch_context.h\<close>, \<open>.cc\<close>, \<open>etcd_watcher.h\<close>, \<open>.cc\<close>: opening, reading and stopping a
    watch.
  \<^item> \<open>Etcd_Lifetimes\<close>: how long the contexts live: a context on the stack of a call can be destroyed while the
    completing thread holds its lock, and a heartbeat goes on without a context when its user drops it.

  \<^bold>\<open>Application.\<close>
  \<^item> \<open>App_Shell\<close>: \<open>shell/application.h\<close> and \<open>.cc\<close>: the tasks, the thread that waits for them, and their
    interleavings.
  \<^item> \<open>App_Config\<close>: the XML configuration, the configuration manager, the earlier application with
    its configuration item, and the example application \<open>examples/lt_app\<close> that uses them.

  \<^bold>\<open>Examples.\<close>
  \<^item> \<open>Async_Queries\<close>: \<open>examples/async_mysql/mysql_async_offcial.cc\<close>, which runs a list of queries over several
    connections: the list, the state machine of a connection, \<open>main\<close> up to the event loop, and the
    loop as a step relation. Every query is started in order and answered once, and the handler ends.
  \<^item> \<open>Sample_Manager\<close>, \<open>Sample_Threads\<close>: the class \<open>RawSampleManager\<close> of \<open>examples/main.cc\<close>, with its 16-bit
    counters, and the five loops of \<open>main\<close> that share it: what is sampled does not depend on how they
    interleave.
  \<^item> \<open>Mysql_Shell\<close>: \<open>examples/async_mysql/asyncmysql_test.cc\<close>, which pends the lines of the standard input on the
    pool; its thread interleaves with the message loop. A run of it is a run of the system of
    \<open>Mysql_Pool\<close>, so the pool's invariant carries its properties.
  \<^item> \<open>Etcd_Session\<close>: \<open>examples/etcdclient/test_client.cc\<close>, sequences of calls of the etcd client on a server with a
    state: what is put is listed.
  \<^item> \<open>Grpc_Server\<close>: \<open>examples/lt_app/grpc_server_impl.h\<close> and \<open>.cc\<close>; \<open>App_Config\<close> also has the \<open>main\<close> functions of
    \<open>examples/lt_app\<close> and \<open>examples/fw_app\<close>.

  \<^bold>\<open>What is wrong in the code\<close> is stated too, as properties or lemmas: the outcome of a
  waiting query is read from a member nobody writes, \<open>Close\<close> of a connection never closes it,
  the pool tries one connection only and can be called after it was deleted, a call context can be
  destroyed while its lock is held, \<open>TimeToAlive\<close> never returns, a watch numbered 0 cannot be
  stopped (lemmas of \<open>Etcd_Client\<close> and \<open>Watch_Context\<close>), the shell can miss the notification it waits for, the example program never removes the
  newline it means to remove.

  \<^bold>\<open>Not modelled.\<close> Logging; data races on plain members read from another thread (\<open>ready_\<close>), since the
  operations of one object are steps here; the registry, whose member functions have no body (its
  source file defines functions of the same names outside the class, which do nothing); the
  abstract application contexts, whose hooks are empty; what the MySQL library makes of the command
  line, which is a parameter; generated code.
\<close>

end
